(* ===== verification/Prelude.thy ===== *)
theory Prelude
  imports Main "HOL-Library.Word" "HOL-Library.Finite_Map" "HOL-Library.Char_ord"
    "HOL-Library.List_Lexorder"
begin

text \<open>
  What every component of the model shares: the machine integer types of the Go source,
  the collections of facts the component proofs hand to the simplifier, and generic lemmas
  on finite maps, finite sets and folds. Go strings are byte strings, so a \<^typ>\<open>char\<close> is a
  byte and \<^typ>\<open>string\<close> a Go string; \<open>sort.Strings\<close> is the bytewise lexicographic order
  that \<open>List_Lexorder\<close> gives to lists of characters. A Go map is an \<open>fmap\<close> (finite and
  extensional) and a \<open>map[string]bool\<close> used as a set is an \<open>fset\<close>.
\<close>

type_synonym int32 = "32 word"
type_synonym int64 = "64 word"

text \<open>A 64-bit result inside the signed range is its mathematical value.\<close>

lemma sint_int64_range: "- (2 ^ 63) \<le> sint (w :: int64)" "sint (w :: int64) < 2 ^ 63"
  using sint_range_size [of w] by (auto simp: word_size)

lemma sint_int64_of_int: "- (2 ^ 63) \<le> i \<Longrightarrow> i < 2 ^ 63 \<Longrightarrow> sint (word_of_int i :: int64) = i"
  by (simp add: sint_sbintrunc' signed_take_bit_int_eq_self)

lemma sint_int64_add:
  fixes a b :: int64
  assumes "- (2 ^ 63) \<le> sint a + sint b" "sint a + sint b < 2 ^ 63"
  shows "sint (a + b) = sint a + sint b"
proof -
  have "word_of_int (sint a + sint b) = a + b" by simp
  then show ?thesis using sint_int64_of_int [OF assms] by (simp only:)
qed

lemma sint_int64_diff:
  fixes a b :: int64
  assumes "- (2 ^ 63) \<le> sint a - sint b" "sint a - sint b < 2 ^ 63"
  shows "sint (a - b) = sint a - sint b"
proof -
  have "word_of_int (sint a - sint b) = a - b" by simp
  then show ?thesis using sint_int64_of_int [OF assms] by (simp only:)
qed

lemma sint_int32_of_int: "- (2 ^ 31) \<le> i \<Longrightarrow> i < 2 ^ 31 \<Longrightarrow> sint (word_of_int i :: int32) = i"
  by (simp add: sint_sbintrunc' signed_take_bit_int_eq_self)

named_theorems result_inv \<open>inversion of fallible results\<close>
named_theorems latch_simps \<open>frame facts of the state records\<close>

section \<open>Finite sets and maps\<close>

lemma sorted_list_of_fset_empty [simp]: "sorted_list_of_fset {||} = []"
  by (simp add: sorted_list_of_fset.rep_eq)

lemma sorted_list_of_fset_finsert [simp]:
  "sorted_list_of_fset (finsert x A) = insort x (sorted_list_of_fset (A - {|x|}))"
  by (simp add: sorted_list_of_fset.rep_eq sorted_list_of_set_insert_remove)

lemma distinct_sorted_list_of_fset [simp]: "distinct (sorted_list_of_fset A)"
  by (simp add: sorted_list_of_fset.rep_eq)

lemma sorted_sorted_list_of_fset [simp]: "sorted (sorted_list_of_fset A)"
  by (simp add: sorted_list_of_fset.rep_eq)

lemma length_sorted_list_of_fset [simp]: "length (sorted_list_of_fset A) = fcard A"
  by (simp add: sorted_list_of_fset.rep_eq fcard.rep_eq)

lemma sorted_list_of_fset_inject [simp]:
  "sorted_list_of_fset A = sorted_list_of_fset B \<longleftrightarrow> A = B"
  by (metis sorted_list_of_fset_simps(2))

declare fcard_fempty [simp]

lemma fcard_pos_iff [simp]: "0 < fcard A \<longleftrightarrow> A \<noteq> {||}"
  by (auto simp: fcard.rep_eq card_gt_0_iff bot_fset.rep_eq fset_inject [symmetric])

lemma fmap_eqI: "(\<And>k. fmlookup m k = fmlookup n k) \<Longrightarrow> m = n"
  by (rule fmap_ext) simp

lemma fmdom_empty_iff: "fmdom m = {||} \<longleftrightarrow> m = fmempty"
proof
  assume "fmdom m = {||}"
  then show "m = fmempty" by (intro fmap_eqI) (simp add: fmdom_notD)
qed simp

definition fmsize :: "('k, 'v) fmap \<Rightarrow> nat" where
  "fmsize m = fcard (fmdom m)"

lemma fmsize_empty [simp]: "fmsize fmempty = 0"
  by (simp add: fmsize_def)

lemma fmsize_fmupd:
  "fmsize (fmupd k v m) = (if k |\<in>| fmdom m then fmsize m else Suc (fmsize m))"
  by (simp add: fmsize_def fcard_finsert_if)

lemma fmsize_fmupd_le: "fmsize (fmupd k v m) \<le> Suc (fmsize m)"
  by (simp add: fmsize_fmupd)

text \<open>A Go map read: the zero value when the key is absent.\<close>

definition fmget :: "'v \<Rightarrow> ('k, 'v) fmap \<Rightarrow> 'k \<Rightarrow> 'v" where
  "fmget z m k = (case fmlookup m k of None \<Rightarrow> z | Some v \<Rightarrow> v)"

lemma fmget_empty [simp]: "fmget z fmempty k = z"
  by (simp add: fmget_def)

lemma fmget_fmupd [simp]: "fmget z (fmupd k v m) k' = (if k = k' then v else fmget z m k')"
  by (simp add: fmget_def)

section \<open>Results\<close>

text \<open>A Go \<open>(T, error)\<close> result: \<open>Inl\<close> the error, \<open>Inr\<close> the value.\<close>

type_synonym ('e, 'a) result = "'e + 'a"

lemma case_sum_Inr_iff [result_inv]:
  "(case r of Inl e \<Rightarrow> Inl (f e) | Inr a \<Rightarrow> g a) = Inr b \<longleftrightarrow> (\<exists>a. r = Inr a \<and> g a = Inr b)"
  by (cases r) auto

lemma case_sum_Inl_iff [result_inv]:
  "(case r of Inl e \<Rightarrow> Inl (f e) | Inr a \<Rightarrow> g a) = Inl d \<longleftrightarrow>
     (\<exists>e. r = Inl e \<and> d = f e) \<or> (\<exists>a. r = Inr a \<and> g a = Inl d)"
  by (cases r) auto

section \<open>Lists\<close>

lemma fold_invariant:
  assumes "I s" and "\<And>x s. x \<in> set xs \<Longrightarrow> I s \<Longrightarrow> I (f x s)"
  shows "I (fold f xs s)"
  using assms by (induction xs arbitrary: s) auto

lemma filter_eq_singleton: "distinct xs \<Longrightarrow> a \<in> set xs \<Longrightarrow> filter (\<lambda>x. x = a) xs = [a]"
  by (induction xs) (auto simp: filter_empty_conv)

lemma filter_neq_remove1: "distinct xs \<Longrightarrow> filter (\<lambda>x. x \<noteq> a) xs = remove1 a xs"
  by (simp add: distinct_remove1_removeAll removeAll_filter_not_eq eq_commute [of _ a])

lemma length_filter_complement:
  "length xs - length (filter P xs) = length (filter (\<lambda>x. \<not> P x) xs)"
  using sum_length_filter_compl [of P xs] by simp

end
