(* ===== verification/Float64.thy ===== *)
theory Float64
  imports Prelude Complex_Main "HOL-Library.Log_Nat"
begin

text \<open>
  Go's \<open>float64\<close>: IEEE 754 binary64 with round-to-nearest-even, as far as the source uses it
  (\<open>+ - * /\<close>, comparison, conversion from integers, \<open>math.IsNaN\<close>, \<open>math.IsInf\<close>), and
  \<open>time.Duration.Seconds\<close>. A finite value is the rational it denotes. The two zeros are one
  value here: they compare equal, no operation of the source divides by a zero, and a sum
  that starts from the zero value of a map entry is never the negative zero.
\<close>

section \<open>Values and rounding\<close>

datatype f64 = NaN | PosInf | NegInf | Fin rat

text \<open>The binary exponent of a positive rational: the \<open>k\<close> with \<open>2^k \<le> x < 2^(k+1)\<close>.\<close>

definition ilog2 :: "rat \<Rightarrow> int" where
  "ilog2 x = (let (n, d) = quotient_of x; k = bitlen n - bitlen d
              in if 2 powi k \<le> x then k else k - 1)"

definition round_half_even :: "rat \<Rightarrow> int" where
  "round_half_even r =
     (let f = \<lfloor>r\<rfloor>; d = r - of_int f
      in if d < 1 / 2 then f else if d > 1 / 2 then f + 1 else if even f then f else f + 1)"

text \<open>The unit in the last place at \<open>x\<close>: 53 significant bits, gradual underflow below \<open>2^-1022\<close>.\<close>

definition ulp :: "rat \<Rightarrow> rat" where
  "ulp x = 2 powi (max (ilog2 \<bar>x\<bar>) (- 1022) - 52)"

definition round_f64 :: "rat \<Rightarrow> f64" where
  "round_f64 x =
     (if x = 0 then Fin 0
      else let y = of_int (round_half_even (x / ulp x)) * ulp x
           in if \<bar>y\<bar> < 2 ^ 1024 then Fin y else if 0 < x then PosInf else NegInf)"

definition f64_of_int :: "int \<Rightarrow> f64" where
  "f64_of_int n = round_f64 (of_int n)"

definition IsFinite :: "f64 \<Rightarrow> bool" where
  "IsFinite v = (case v of Fin _ \<Rightarrow> True | _ \<Rightarrow> False)"

section \<open>Arithmetic\<close>

fun f64_neg :: "f64 \<Rightarrow> f64" where
  "f64_neg NaN = NaN"
| "f64_neg PosInf = NegInf"
| "f64_neg NegInf = PosInf"
| "f64_neg (Fin a) = Fin (- a)"

fun f64_add :: "f64 \<Rightarrow> f64 \<Rightarrow> f64" where
  "f64_add NaN _ = NaN"
| "f64_add _ NaN = NaN"
| "f64_add PosInf NegInf = NaN"
| "f64_add NegInf PosInf = NaN"
| "f64_add PosInf _ = PosInf"
| "f64_add _ PosInf = PosInf"
| "f64_add NegInf _ = NegInf"
| "f64_add _ NegInf = NegInf"
| "f64_add (Fin a) (Fin b) = round_f64 (a + b)"

definition f64_sub :: "f64 \<Rightarrow> f64 \<Rightarrow> f64" where
  "f64_sub a b = f64_add a (f64_neg b)"

definition f64_inf :: "rat \<Rightarrow> f64" where
  "f64_inf s = (if s = 0 then NaN else if 0 < s then PosInf else NegInf)"

fun f64_mul :: "f64 \<Rightarrow> f64 \<Rightarrow> f64" where
  "f64_mul NaN _ = NaN"
| "f64_mul _ NaN = NaN"
| "f64_mul (Fin a) (Fin b) = round_f64 (a * b)"
| "f64_mul (Fin a) PosInf = f64_inf a"
| "f64_mul (Fin a) NegInf = f64_inf (- a)"
| "f64_mul PosInf (Fin b) = f64_inf b"
| "f64_mul NegInf (Fin b) = f64_inf (- b)"
| "f64_mul PosInf PosInf = PosInf"
| "f64_mul NegInf NegInf = PosInf"
| "f64_mul _ _ = NegInf"

fun f64_div :: "f64 \<Rightarrow> f64 \<Rightarrow> f64" where
  "f64_div NaN _ = NaN"
| "f64_div _ NaN = NaN"
| "f64_div (Fin a) (Fin b) = (if b = 0 then f64_inf a else round_f64 (a / b))"
| "f64_div (Fin a) _ = Fin 0"
| "f64_div PosInf (Fin b) = (if b < 0 then NegInf else PosInf)"
| "f64_div NegInf (Fin b) = (if b < 0 then PosInf else NegInf)"
| "f64_div _ _ = NaN"

fun f64_less :: "f64 \<Rightarrow> f64 \<Rightarrow> bool" where
  "f64_less NaN _ = False"
| "f64_less _ NaN = False"
| "f64_less (Fin a) (Fin b) = (a < b)"
| "f64_less NegInf b = (b \<noteq> NegInf)"
| "f64_less a PosInf = (a \<noteq> PosInf)"
| "f64_less _ _ = False"

fun f64_le :: "f64 \<Rightarrow> f64 \<Rightarrow> bool" where
  "f64_le NaN _ = False"
| "f64_le _ NaN = False"
| "f64_le a b = (f64_less a b \<or> a = b)"

definition f64_nonneg :: "f64 \<Rightarrow> bool" where
  "f64_nonneg v = f64_le (Fin 0) v"

text \<open>\<open>time.Duration.Seconds\<close>: whole seconds plus the nanosecond rest over 1e9, each truncated
  towards zero.\<close>

definition Seconds :: "int \<Rightarrow> f64" where
  "Seconds d =
     (let s = sgn d * (\<bar>d\<bar> div 1000000000); n = sgn d * (\<bar>d\<bar> mod 1000000000)
      in f64_add (f64_of_int s) (f64_div (f64_of_int n) (f64_of_int 1000000000)))"

text \<open>\<open>time.Time.Sub\<close>: the difference saturates at the range of \<open>Duration\<close>.\<close>

definition time_Sub :: "int \<Rightarrow> int \<Rightarrow> int" where
  "time_Sub t u = max (- (2 ^ 63)) (min (2 ^ 63 - 1) (t - u))"

section \<open>The exponent of a rational\<close>

lemma powi_less_cancel: "(2::rat) powi a < 2 powi b \<longleftrightarrow> a < b"
proof
  assume l: "(2::rat) powi a < 2 powi b"
  show "a < b"
  proof (rule ccontr)
    assume "\<not> a < b"
    then have "(2::rat) powi b \<le> 2 powi a" by (intro power_int_increasing) auto
    with l show False by simp
  qed
qed (rule power_int_strict_increasing, auto)

lemma bitlen_rat_bounds:
  assumes "0 < n"
  shows "(2::rat) powi (bitlen n - 1) \<le> of_int n" "of_int n < (2::rat) powi (bitlen n)"
proof -
  have b: "0 < bitlen n" "2 ^ nat (bitlen n - 1) \<le> n" "n < 2 ^ nat (bitlen n)"
    using assms bitlen_bounds [of n] bitlen_nonneg [of n]
    by (auto simp: bitlen_eq_zero_iff order_less_le)
  have "(2::rat) powi (bitlen n - 1) = of_int (2 ^ nat (bitlen n - 1))"
    using b(1) by (simp add: power_int_def)
  also have "\<dots> \<le> of_int n" using b(2) by (simp only: of_int_le_iff)
  finally show "(2::rat) powi (bitlen n - 1) \<le> of_int n" .
  have "of_int n < (of_int (2 ^ nat (bitlen n)) :: rat)" using b(3) by (simp only: of_int_less_iff)
  also have "\<dots> = 2 powi (bitlen n)" using b(1) by (simp add: power_int_def)
  finally show "of_int n < (2::rat) powi (bitlen n)" .
qed

lemma ilog2_bounds:
  assumes "0 < x"
  shows "2 powi (ilog2 x) \<le> x" "x < 2 powi (ilog2 x + 1)"
proof -
  obtain n d where q: "quotient_of x = (n, d)" by (cases "quotient_of x")
  have d: "0 < d" and x: "x = of_int n / of_int d"
    using q quotient_of_denom_pos quotient_of_div by blast+
  have n: "0 < n" using assms d x by (simp add: zero_less_divide_iff)
  let ?k = "bitlen n - bitlen d"
  have "x < 2 powi (bitlen n) / 2 powi (bitlen d - 1)"
    unfolding x using bitlen_rat_bounds [OF n] bitlen_rat_bounds [OF d] n d
    by (intro frac_less) auto
  then have hi: "x < 2 powi (?k + 1)" by (simp add: power_int_diff [symmetric] algebra_simps)
  have "2 powi (bitlen n - 1) / 2 powi (bitlen d) \<le> x"
    unfolding x using bitlen_rat_bounds [OF n] bitlen_rat_bounds [OF d] n d
    by (intro frac_le) auto
  then have lo: "2 powi (?k - 1) \<le> x" by (simp add: power_int_diff [symmetric] algebra_simps)
  show "2 powi (ilog2 x) \<le> x" "x < 2 powi (ilog2 x + 1)"
    using hi lo by (auto simp: ilog2_def q not_le Let_def)
qed

lemma ilog2_unique:
  assumes "2 powi k \<le> x" "x < 2 powi (k + 1)"
  shows "ilog2 x = k"
proof -
  have x: "0 < x" using assms(1) by (rule less_le_trans [rotated]) simp
  have "(2::rat) powi (ilog2 x) < 2 powi (k + 1)" "(2::rat) powi k < 2 powi (ilog2 x + 1)"
    using ilog2_bounds [OF x] assms by linarith+
  then show ?thesis unfolding powi_less_cancel by linarith
qed

section \<open>Rounding\<close>

lemma round_half_even_of_int [simp]: "round_half_even (of_int n) = n"
  by (simp add: round_half_even_def Let_def)

lemma round_half_even_bounds:
  "of_int (round_half_even r) \<le> r + 1 / 2" "r - 1 / 2 \<le> of_int (round_half_even r)"
proof -
  have f: "of_int \<lfloor>r\<rfloor> \<le> r" "r < of_int \<lfloor>r\<rfloor> + 1" by linarith+
  show "of_int (round_half_even r) \<le> r + 1 / 2"
    unfolding round_half_even_def Let_def using f by (auto split: if_splits) linarith+
  show "r - 1 / 2 \<le> of_int (round_half_even r)"
    unfolding round_half_even_def Let_def using f by (auto split: if_splits)
qed

lemma round_half_even_ge: "of_int k \<le> r \<Longrightarrow> k \<le> round_half_even r"
  using round_half_even_bounds(2) [of r] by linarith

lemma round_half_even_le: "r \<le> of_int k \<Longrightarrow> round_half_even r \<le> k"
  using round_half_even_bounds(1) [of r] by linarith

lemma ulp_pos [simp]: "0 < ulp x"
  by (simp add: ulp_def)

lemma ulp_nonzero [simp]: "ulp x \<noteq> 0"
  using ulp_pos [of x] by linarith

lemma round_f64_not_NaN [simp]: "round_f64 x \<noteq> NaN"
  by (simp add: round_f64_def Let_def)

lemma round_f64_integral:
  assumes "x = of_int m * ulp x" "\<bar>x\<bar> < 2 ^ 1024"
  shows "round_f64 x = Fin x"
proof -
  have "x / ulp x = of_int m" using assms(1) by (metis nonzero_mult_div_cancel_right ulp_nonzero)
  then show ?thesis using assms by (simp add: round_f64_def Let_def)
qed

lemma round_f64_dyadic:
  assumes x: "x = of_int m * 2 powi j" and m: "\<bar>m\<bar> \<le> 2 ^ 53" and j: "- 1074 \<le> j"
    and big: "\<bar>x\<bar> < 2 ^ 1024"
  shows "round_f64 x = Fin x"
proof (cases "m = 0 \<or> \<bar>m\<bar> = 2 ^ 53")
  case False
  then have m0: "0 < \<bar>x\<bar>" and m': "\<bar>m\<bar> < 2 ^ 53" using x m by (auto simp: power_int_not_zero)
  have "\<bar>x\<bar> < 2 ^ 53 * 2 powi j"
  proof -
    have "(of_int \<bar>m\<bar> :: rat) < of_int (2 ^ 53)" using m' by (simp only: of_int_less_iff)
    then show ?thesis by (simp add: x abs_mult power_int_abs)
  qed
  also have "(2::rat) ^ 53 * 2 powi j = 2 powi (53 + j)" by (simp add: power_int_add)
  finally have "(2::rat) powi (ilog2 \<bar>x\<bar>) < 2 powi (53 + j)"
    using ilog2_bounds(1) [OF m0] by linarith
  then have u: "max (ilog2 \<bar>x\<bar>) (- 1022) - 52 \<le> j" using j unfolding powi_less_cancel by linarith
  let ?u = "max (ilog2 \<bar>x\<bar>) (- 1022) - 52"
  have "(2::rat) powi j = 2 powi (j - ?u) * 2 powi ?u" by (simp add: power_int_add [symmetric])
  also have "(2::rat) powi (j - ?u) = of_int (2 ^ nat (j - ?u))" using u by (simp add: power_int_def)
  finally have "of_int m * (2::rat) powi j = of_int (m * 2 ^ nat (j - ?u)) * 2 powi ?u" by simp
  then have "x = of_int (m * 2 ^ nat (j - ?u)) * ulp x" unfolding ulp_def x [symmetric] .
  then show ?thesis using big by (rule round_f64_integral)
next
  case True
  show ?thesis
  proof (cases "m = 0")
    case True
    then show ?thesis by (simp add: x round_f64_def)
  next
    case nz: False
    with True have am: "\<bar>m\<bar> = 2 ^ 53" by simp
    have "\<bar>x\<bar> = of_int \<bar>m\<bar> * 2 powi j" by (simp add: x abs_mult power_int_abs)
    also have "\<dots> = 2 powi (53 + j)" unfolding am by (simp add: power_int_add)
    finally have ax: "\<bar>x\<bar> = 2 powi (53 + j)" .
    have "ilog2 \<bar>x\<bar> = 53 + j" unfolding ax by (rule ilog2_unique) (auto simp: power_int_add)
    then have ul: "ulp x = 2 powi (j + 1)" using j by (simp add: ulp_def max_def algebra_simps)
    have "m = 2 ^ 53 \<or> m = - (2 ^ 53)" using am by linarith
    then have "of_int m * (2::rat) powi j = of_int (sgn m * 2 ^ 52) * 2 powi (j + 1)"
      by (auto simp: power_int_add)
    then have "x = of_int (sgn m * 2 ^ 52) * ulp x" unfolding ul x [symmetric] .
    then show ?thesis using big by (rule round_f64_integral)
  qed
qed

lemma f64_of_int_exact: "\<bar>n\<bar> \<le> 2 ^ 53 \<Longrightarrow> f64_of_int n = Fin (of_int n)"
proof -
  assume n: "\<bar>n\<bar> \<le> 2 ^ 53"
  have "(of_int \<bar>n\<bar> :: rat) \<le> of_int (2 ^ 53)" using n by (simp only: of_int_le_iff)
  also have "\<dots> < 2 ^ 1024" by simp
  finally have "\<bar>of_int n :: rat\<bar> < 2 ^ 1024" by simp
  then show ?thesis unfolding f64_of_int_def using n by (intro round_f64_dyadic [of _ n 0]) auto
qed

lemma round_f64_int_simps [simp]:
  "round_f64 0 = Fin 0" "round_f64 1 = Fin 1" "f64_of_int 0 = Fin 0" "f64_of_int 1 = Fin 1"
  "(numeral k :: int) \<le> 2 ^ 53 \<Longrightarrow> round_f64 (numeral k) = Fin (numeral k)"
  "(numeral k :: int) \<le> 2 ^ 53 \<Longrightarrow> f64_of_int (numeral k) = Fin (numeral k)"
  using f64_of_int_exact [of 0] f64_of_int_exact [of 1] f64_of_int_exact [of "numeral k"]
  by (simp_all add: f64_of_int_def)

lemma round_f64_nonneg: "0 \<le> x \<Longrightarrow> f64_nonneg (round_f64 x)"
proof (cases "x = 0")
  case False
  assume "0 \<le> x"
  then have "0 \<le> round_half_even (x / ulp x)"
    by (intro round_half_even_ge) (simp add: less_imp_le)
  then have "0 \<le> of_int (round_half_even (x / ulp x)) * ulp x" by (simp add: less_imp_le)
  then show ?thesis using False \<open>0 \<le> x\<close>
    by (auto simp: round_f64_def Let_def f64_nonneg_def order_le_less)
qed (simp add: round_f64_def f64_nonneg_def)

lemma round_f64_pos:
  assumes "2 powi (- 1022) \<le> x"
  shows "f64_less (Fin 0) (round_f64 x)"
proof -
  have x: "0 < x" using assms by (rule less_le_trans [rotated]) simp
  have "(2::rat) powi (- 1022) < 2 powi (ilog2 x + 1)" using assms ilog2_bounds(2) [OF x] by linarith
  then have e: "- 1022 \<le> ilog2 x" unfolding powi_less_cancel by linarith
  have "ulp x \<le> 2 powi (ilog2 x)"
    using x e by (simp add: ulp_def max_def power_int_increasing)
  also have "\<dots> \<le> x" using ilog2_bounds(1) [OF x] .
  finally have "1 \<le> x / ulp x" by (simp add: le_divide_eq)
  then have "1 \<le> round_half_even (x / ulp x)" by (intro round_half_even_ge) simp
  then have "0 < of_int (round_half_even (x / ulp x)) * ulp x" by simp
  then show ?thesis using x by (auto simp: round_f64_def Let_def)
qed

lemma round_f64_finite:
  assumes "\<bar>x\<bar> \<le> 2 ^ 1000"
  shows "IsFinite (round_f64 x)"
proof (cases "x = 0")
  case False
  have "\<bar>of_int (round_half_even (x / ulp x)) - x / ulp x\<bar> \<le> 1 / 2"
    using round_half_even_bounds [of "x / ulp x"] by linarith
  then have "\<bar>of_int (round_half_even (x / ulp x)) - x / ulp x\<bar> * ulp x \<le> 1 / 2 * ulp x"
    by (rule mult_right_mono) (simp add: less_imp_le)
  moreover have "\<bar>of_int (round_half_even (x / ulp x)) - x / ulp x\<bar> * ulp x =
      \<bar>of_int (round_half_even (x / ulp x)) * ulp x - x\<bar>"
    by (simp add: abs_mult_pos' [symmetric] abs_mult_pos left_diff_distrib less_imp_le)
  ultimately have near: "\<bar>of_int (round_half_even (x / ulp x)) * ulp x - x\<bar> \<le> ulp x"
    using ulp_pos [of x] by linarith
  have ax: "0 < \<bar>x\<bar>" using False by simp
  have "(2::rat) powi (ilog2 \<bar>x\<bar>) \<le> 2 ^ 1000" using ilog2_bounds(1) [OF ax] assms by linarith
  also have "(2::rat) ^ 1000 = 2 powi 1000" by (simp add: power_int_def)
  also have "\<dots> < 2 powi 1001" by (rule power_int_strict_increasing) auto
  finally have "ilog2 \<bar>x\<bar> < 1001" unfolding powi_less_cancel .
  then have "ulp x \<le> 2 powi 1000" unfolding ulp_def by (intro power_int_increasing) auto
  then have "ulp x \<le> 2 ^ 1000" by (simp add: power_int_def)
  with near assms have "\<bar>of_int (round_half_even (x / ulp x)) * ulp x\<bar> \<le> 2 ^ 1000 + 2 ^ 1000"
    by linarith
  also have "\<dots> < (2::rat) ^ 1024" by simp
  finally show ?thesis using False by (simp add: round_f64_def Let_def IsFinite_def)
qed (simp add: round_f64_def IsFinite_def)

section \<open>Facts about the operations\<close>

lemma IsFinite_iff: "IsFinite v \<longleftrightarrow> (\<exists>x. v = Fin x)"
  by (cases v) (auto simp: IsFinite_def)

lemma IsFinite_simps [simp]:
  "IsFinite (Fin x)" "\<not> IsFinite NaN" "\<not> IsFinite PosInf" "\<not> IsFinite NegInf"
  by (simp_all add: IsFinite_def)

lemma f64_nonneg_Fin [simp]: "f64_nonneg (Fin x) \<longleftrightarrow> 0 \<le> x"
  by (auto simp: f64_nonneg_def)

lemma f64_nonneg_PosInf [simp]: "f64_nonneg PosInf"
  by (simp add: f64_nonneg_def)

lemma f64_nonneg_cases:
  assumes "f64_nonneg v"
  obtains "v = PosInf" | x where "v = Fin x" "0 \<le> x"
  using assms by (cases v) (auto simp: f64_nonneg_def)

lemma f64_nonneg_not_NaN [simp]: "\<not> f64_nonneg NaN"
  by (simp add: f64_nonneg_def)

lemma f64_nonneg_not_NegInf [simp]: "\<not> f64_nonneg NegInf"
  by (simp add: f64_nonneg_def)

lemma f64_add_nonneg: "f64_nonneg a \<Longrightarrow> f64_nonneg b \<Longrightarrow> f64_nonneg (f64_add a b)"
  by (elim f64_nonneg_cases) (auto intro: round_f64_nonneg)

lemma f64_sub_nonneg: "IsFinite a \<Longrightarrow> IsFinite b \<Longrightarrow> \<not> f64_less a b \<Longrightarrow> f64_nonneg (f64_sub a b)"
  by (auto simp: IsFinite_iff f64_sub_def intro!: round_f64_nonneg)

lemma f64_div_nonneg:
  "f64_nonneg a \<Longrightarrow> f64_less (Fin 0) b \<Longrightarrow> IsFinite b \<Longrightarrow> f64_nonneg (f64_div a b)"
  by (elim f64_nonneg_cases) (auto simp: IsFinite_iff intro!: round_f64_nonneg)

lemma f64_mul_nonneg:
  "f64_nonneg a \<Longrightarrow> 0 < c \<Longrightarrow> f64_nonneg (f64_mul a (Fin c))"
  by (elim f64_nonneg_cases) (auto simp: f64_inf_def intro!: round_f64_nonneg)

lemma f64_add_int_exact:
  "\<bar>m + n\<bar> \<le> 2 ^ 53 \<Longrightarrow> f64_add (Fin (of_int m)) (Fin (of_int n)) = Fin (of_int (m + n))"
  using f64_of_int_exact [of "m + n"] by (simp add: f64_of_int_def)

lemma f64_mul_int_exact:
  "\<bar>m * n\<bar> \<le> 2 ^ 53 \<Longrightarrow> f64_mul (Fin (of_int m)) (Fin (of_int n)) = Fin (of_int (m * n))"
  using f64_of_int_exact [of "m * n"] by (simp add: f64_of_int_def)

lemma f64_of_int_finite:
  assumes "\<bar>n\<bar> \<le> 2 ^ 64"
  shows "IsFinite (f64_of_int n)"
proof -
  have "(of_int \<bar>n\<bar> :: rat) \<le> of_int (2 ^ 64)" using assms by (simp only: of_int_le_iff)
  also have "\<dots> \<le> 2 ^ 1000" by simp
  finally show ?thesis unfolding f64_of_int_def by (intro round_f64_finite) simp
qed

lemma f64_of_int64_finite: "IsFinite (f64_of_int (sint (w :: int64)))"
proof -
  have "- (2 ^ 63) \<le> sint w" "sint w < 2 ^ 63" using sint_range_size [of w] by (auto simp: word_size)
  then show ?thesis by (intro f64_of_int_finite) auto
qed

section \<open>Durations\<close>

lemma time_Sub_range: "- (2 ^ 63) \<le> time_Sub t u" "time_Sub t u \<le> 2 ^ 63 - 1"
  by (auto simp: time_Sub_def)

lemma time_Sub_sign: "0 < time_Sub t u \<longleftrightarrow> u < t"
  by (auto simp: time_Sub_def max_def min_def)

lemma f64_less_0_iff_nonneg: "v \<noteq> NaN \<Longrightarrow> f64_less (Fin 0) v \<longleftrightarrow> f64_nonneg v \<and> v \<noteq> Fin 0"
  by (cases v) (auto simp: f64_nonneg_def)

text \<open>The relative error of a rounding in the normal range is at most \<open>2^-53\<close>.\<close>

lemma round_f64_relative:
  assumes lo: "2 powi (- 1022) \<le> \<bar>x\<bar>" and hi: "\<bar>x\<bar> \<le> 2 ^ 1000"
  shows "\<exists>y. round_f64 x = Fin y \<and> \<bar>y - x\<bar> \<le> \<bar>x\<bar> / 2 ^ 53"
proof -
  have ax: "0 < \<bar>x\<bar>" using lo by (rule less_le_trans [rotated]) simp
  then have nz: "x \<noteq> 0" by simp
  have "(2::rat) powi (- 1022) < 2 powi (ilog2 \<bar>x\<bar> + 1)" using lo ilog2_bounds(2) [OF ax] by linarith
  then have "- 1022 \<le> ilog2 \<bar>x\<bar>" unfolding powi_less_cancel by linarith
  then have "ulp x = 2 powi (ilog2 \<bar>x\<bar>) * 2 powi (- 52)"
    using power_int_add [of "2::rat" "ilog2 \<bar>x\<bar>" "- 52"] by (simp add: ulp_def max_def)
  also have "\<dots> \<le> \<bar>x\<bar> * 2 powi (- 52)" using ilog2_bounds(1) [OF ax] by (intro mult_right_mono) auto
  finally have u: "ulp x \<le> \<bar>x\<bar> / 2 ^ 52" by (simp add: power_int_def field_simps)
  let ?y = "of_int (round_half_even (x / ulp x)) * ulp x"
  have "\<bar>of_int (round_half_even (x / ulp x)) - x / ulp x\<bar> \<le> 1 / 2"
    using round_half_even_bounds [of "x / ulp x"] by linarith
  then have "\<bar>of_int (round_half_even (x / ulp x)) - x / ulp x\<bar> * ulp x \<le> 1 / 2 * ulp x"
    by (rule mult_right_mono) (simp add: less_imp_le)
  moreover have "\<bar>of_int (round_half_even (x / ulp x)) - x / ulp x\<bar> * ulp x = \<bar>?y - x\<bar>"
    by (simp add: abs_mult_pos left_diff_distrib less_imp_le)
  ultimately have "\<bar>?y - x\<bar> \<le> \<bar>x\<bar> / 2 ^ 53" using u by simp
  moreover have "round_f64 x = Fin ?y"
    using round_f64_finite [OF hi] nz by (auto simp: round_f64_def Let_def split: if_splits)
  ultimately show ?thesis by blast
qed

lemma round_f64_same_sign:
  assumes "1 / 2 ^ 40 \<le> \<bar>x\<bar>" "\<bar>x\<bar> \<le> 2 ^ 70"
  shows "\<exists>y. round_f64 x = Fin y \<and> sgn y = sgn x \<and> \<bar>x\<bar> / 2 \<le> \<bar>y\<bar> \<and> \<bar>y\<bar> \<le> 2 * \<bar>x\<bar>"
proof -
  have "(2::rat) powi (- 1022) \<le> 2 powi (- 40)" by (rule power_int_increasing) auto
  then have lo: "2 powi (- 1022) \<le> \<bar>x\<bar>" using assms(1) by (simp add: power_int_def field_simps)
  have "(2::rat) ^ 70 \<le> 2 ^ 1000" by simp
  then have hi: "\<bar>x\<bar> \<le> 2 ^ 1000" using assms(2) by (rule order_trans [rotated])
  obtain y where y: "round_f64 x = Fin y" "\<bar>y - x\<bar> \<le> \<bar>x\<bar> / 2 ^ 53"
    using round_f64_relative [OF lo hi] by blast
  have "0 < \<bar>x\<bar>" using assms(1) by (rule less_le_trans [rotated]) simp
  then have "\<bar>y - x\<bar> \<le> \<bar>x\<bar> / 2" using y(2) by simp
  with \<open>0 < \<bar>x\<bar>\<close> have "sgn y = sgn x \<and> \<bar>x\<bar> / 2 \<le> \<bar>y\<bar> \<and> \<bar>y\<bar> \<le> 2 * \<bar>x\<bar>"
    by (auto simp: sgn_if abs_if split: if_splits)
  with y(1) show ?thesis by blast
qed

text \<open>The float number of seconds has the sign of the duration: no rounding turns a positive
  duration into zero seconds.\<close>

lemma Seconds_sign:
  assumes "\<bar>d\<bar> \<le> 2 ^ 63"
  shows "\<exists>y. Seconds d = Fin y \<and> sgn y = of_int (sgn d)"
proof (cases "d = 0")
  case True
  then show ?thesis by (simp add: Seconds_def f64_of_int_exact round_f64_def)
next
  case d: False
  define s where "s = sgn d * (\<bar>d\<bar> div 1000000000)"
  define n where "n = sgn d * (\<bar>d\<bar> mod 1000000000)"
  have sb: "\<bar>s\<bar> \<le> 2 ^ 53" and nb: "\<bar>n\<bar> < 1000000000"
    using assms d by (auto simp: s_def n_def abs_mult)
  have ss: "s = 0 \<or> sgn s = sgn d" and sn: "n = 0 \<or> sgn n = sgn d" and dec: "s \<noteq> 0 \<or> n \<noteq> 0"
    using d by (auto simp: s_def n_def sgn_mult sgn_if div_mult_mod_eq [of "\<bar>d\<bar>", symmetric] abs_if
        pos_imp_zdiv_pos_iff not_le split: if_splits)
  have "\<exists>f. f64_div (f64_of_int n) (f64_of_int 1000000000) = Fin f \<and> \<bar>f\<bar> \<le> 2 \<and>
      (n = 0 \<longrightarrow> f = 0) \<and> (n \<noteq> 0 \<longrightarrow> sgn f = of_int (sgn d) \<and> 1 / 2 ^ 32 \<le> \<bar>f\<bar>)"
  proof (cases "n = 0")
    case True
    then show ?thesis by (simp add: f64_of_int_exact round_f64_def)
  next
    case False
    have ni: "1 \<le> \<bar>(of_int n :: rat)\<bar>" "\<bar>(of_int n :: rat)\<bar> < 1000000000"
      using False nb by linarith+
    obtain f where f: "round_f64 (of_int n / 1000000000) = Fin f"
      "sgn f = sgn (of_int n / 1000000000 :: rat)"
      "\<bar>of_int n / 1000000000\<bar> / 2 \<le> \<bar>f\<bar>" "\<bar>f\<bar> \<le> 2 * \<bar>of_int n / 1000000000\<bar>"
      using round_f64_same_sign [of "of_int n / 1000000000"] ni by auto
    have "sgn f = of_int (sgn d)" using f(2) sn False by (simp add: sgn_if split: if_splits)
    moreover have "1 / 2 ^ 32 \<le> \<bar>f\<bar>" "\<bar>f\<bar> \<le> 2" using f(3,4) ni by auto
    ultimately show ?thesis using f(1) False nb by (simp add: f64_of_int_exact)
  qed
  then obtain f where f: "f64_div (f64_of_int n) (f64_of_int 1000000000) = Fin f" "\<bar>f\<bar> \<le> 2"
    "n = 0 \<longrightarrow> f = 0" "n \<noteq> 0 \<longrightarrow> sgn f = of_int (sgn d) \<and> 1 / 2 ^ 32 \<le> \<bar>f\<bar>" by blast
  have "(of_int \<bar>s\<bar> :: rat) \<le> of_int (2 ^ 53)" using sb by (simp only: of_int_le_iff)
  then have big: "\<bar>of_int s :: rat\<bar> \<le> 2 ^ 53" by simp
  have sum: "sgn (of_int s + f) = (of_int (sgn d) :: rat) \<and> 1 / 2 ^ 40 \<le> \<bar>of_int s + f\<bar> \<and>
    \<bar>of_int s + f\<bar> \<le> 2 ^ 70"
  proof (cases "0 < d")
    case True
    then have a: "0 \<le> (of_int s :: rat)" "s = 0 \<or> 1 \<le> (of_int s :: rat)"
      using ss by (auto simp: sgn_if split: if_splits)
    have b: "0 \<le> f" "n = 0 \<or> 1 / 2 ^ 32 \<le> f"
      using f(3,4) True by (cases "n = 0"; auto simp: sgn_if split: if_splits)+
    have c: "1 / 2 ^ 40 \<le> of_int s + f" using a b dec by auto
    then have "0 < of_int s + f" by (rule less_le_trans [rotated]) simp
    with a(1) b(1) c big f(2) True show ?thesis by simp
  next
    case False
    then have a: "(of_int s :: rat) \<le> 0" "s = 0 \<or> (of_int s :: rat) \<le> - 1"
      using ss d by (auto simp: sgn_if split: if_splits)
    have b: "f \<le> 0" "n = 0 \<or> f \<le> - 1 / 2 ^ 32"
      using f(3,4) False d by (cases "n = 0"; auto simp: sgn_if split: if_splits)+
    have c: "of_int s + f \<le> - 1 / 2 ^ 40" using a b dec by auto
    then have "of_int s + f < 0" by (rule le_less_trans) simp
    with a(1) b(1) c big f(2) False d show ?thesis by (simp add: sgn_if)
  qed
  have "Seconds d = round_f64 (of_int s + f)"
    using f(1) sb by (simp add: Seconds_def s_def [symmetric] n_def [symmetric] f64_of_int_exact)
  with round_f64_same_sign [of "of_int s + f"] sum show ?thesis by auto
qed

lemma Seconds_time_Sub:
  "f64_le (Seconds (time_Sub t u)) (Fin 0) \<longleftrightarrow> t \<le> u"
  "u < t \<Longrightarrow> \<exists>y. Seconds (time_Sub t u) = Fin y \<and> 0 < y"
proof -
  have "\<bar>time_Sub t u\<bar> \<le> 2 ^ 63" using time_Sub_range [of t u] by linarith
  then obtain y where y: "Seconds (time_Sub t u) = Fin y" "sgn y = of_int (sgn (time_Sub t u))"
    using Seconds_sign by blast
  have "0 < y \<longleftrightarrow> u < t" using y(2) time_Sub_sign [of t u] by (auto simp: sgn_if split: if_splits)
  then show "f64_le (Seconds (time_Sub t u)) (Fin 0) \<longleftrightarrow> t \<le> u"
    "u < t \<Longrightarrow> \<exists>y. Seconds (time_Sub t u) = Fin y \<and> 0 < y"
    using y(1) by auto
qed

end
