(* ===== verification/Types.thy ===== *)
theory Types
  imports Float64
begin

text \<open>
  \<open>internal/agent/types.go\<close>: the public heartbeat contract. A \<open>*int32\<close> field is an
  \<open>int32 option\<close>; the JSON tags' \<open>omitempty\<close> is what \<open>None\<close>, the empty list and 0 stand for.
\<close>

definition StatusUp :: string where "StatusUp = ''up''"
definition StatusDegraded :: string where "StatusDegraded = ''degraded''"
definition StatusDown :: string where "StatusDown = ''down''"

definition MetricCPUMillicores :: string where "MetricCPUMillicores = ''cpu_millicores''"
definition MetricMemoryBytes :: string where "MetricMemoryBytes = ''memory_bytes''"

record MetricSample =
  Key :: string
  Value :: f64

record ServiceHeartbeat =
  Slug :: string
  Name :: string
  Status :: string
  ReadyReplicas :: "int32 option"
  DesiredReplicas :: "int32 option"
  RestartCount :: "int32 option"
  IntervalSeconds :: int32
  Metrics :: "MetricSample list"

record HeartbeatBatch =
  ProductID :: string
  Source :: string
  Services :: "ServiceHeartbeat list"

definition DeriveStatus :: "int32 \<Rightarrow> int32 \<Rightarrow> string" where
  "DeriveStatus ready desired =
     (if sint desired \<le> 0 \<or> sint ready \<le> 0 then StatusDown
      else if sint desired \<le> sint ready then StatusUp
      else StatusDegraded)"

lemmas status_defs = StatusUp_def StatusDegraded_def StatusDown_def

lemma metric_keys_distinct [simp]:
  "MetricCPUMillicores \<noteq> MetricMemoryBytes" "MetricMemoryBytes \<noteq> MetricCPUMillicores"
  by (simp_all add: MetricCPUMillicores_def MetricMemoryBytes_def)

text \<open>
  The three statuses partition the replica counts, read as signed 32-bit integers: down
  exactly when nothing is desired or nothing is ready, up exactly when at least the positive
  desired count is ready, degraded exactly in between.
\<close>

theorem DeriveStatus_partition:
  "(DeriveStatus ready desired = StatusDown \<longleftrightarrow> sint desired \<le> 0 \<or> sint ready \<le> 0) \<and>
   (DeriveStatus ready desired = StatusUp \<longleftrightarrow> 0 < sint desired \<and> sint desired \<le> sint ready) \<and>
   (DeriveStatus ready desired = StatusDegraded \<longleftrightarrow> 0 < sint ready \<and> sint ready < sint desired)"
  by (auto simp: DeriveStatus_def status_defs)

text \<open>More ready replicas never make a status worse (monotonicity in the order of the contract).\<close>

definition status_rank :: "string \<Rightarrow> nat" where
  "status_rank s = (if s = StatusUp then 2 else if s = StatusDegraded then 1 else 0)"

lemma DeriveStatus_mono:
  "sint r \<le> sint r' \<Longrightarrow> status_rank (DeriveStatus r d) \<le> status_rank (DeriveStatus r' d)"
  by (auto simp: DeriveStatus_def status_rank_def status_defs)

text \<open>What \<open>encoding/json\<close> requires of a batch: \<open>Marshal\<close> fails on a NaN or an infinity.\<close>

definition json_finite :: "HeartbeatBatch \<Rightarrow> bool" where
  "json_finite b \<longleftrightarrow> list_all (\<lambda>s. list_all (\<lambda>m. IsFinite (Value m)) (Metrics s)) (Services b)"

end
