(* ===== verification/GoStrings.thy ===== *)
theory GoStrings
  imports Prelude
begin

text \<open>
  The functions of Go's \<open>strings\<close>, \<open>strconv\<close>, \<open>sort\<close> and \<open>unicode/utf8\<close> packages the source
  calls, on byte strings: suffix and right trimming, decimal rendering, UTF-8 decoding with
  its error rune, and the Unicode-aware \<open>TrimSpace\<close> and \<open>Map\<close>.
\<close>

section \<open>Suffixes\<close>

definition HasSuffix :: "string \<Rightarrow> string \<Rightarrow> bool" where
  "HasSuffix s suf \<longleftrightarrow> length suf \<le> length s \<and> drop (length s - length suf) s = suf"

definition TrimSuffix :: "string \<Rightarrow> string \<Rightarrow> string" where
  "TrimSuffix s suf = (if HasSuffix s suf then take (length s - length suf) s else s)"

definition TrimRight :: "string \<Rightarrow> char \<Rightarrow> string" where
  "TrimRight s c = rev (dropWhile (\<lambda>x. x = c) (rev s))"

lemma HasSuffix_iff: "HasSuffix s suf \<longleftrightarrow> (\<exists>p. s = p @ suf)"
proof
  assume h: "HasSuffix s suf"
  have "s = take (length s - length suf) s @ drop (length s - length suf) s" by simp
  with h have "s = take (length s - length suf) s @ suf" by (simp add: HasSuffix_def)
  then show "\<exists>p. s = p @ suf" ..
qed (auto simp: HasSuffix_def)

lemma TrimSuffix_append [simp]: "TrimSuffix (p @ suf) suf = p"
  by (auto simp: TrimSuffix_def HasSuffix_iff)

lemma TrimSuffix_no: "\<not> HasSuffix s suf \<Longrightarrow> TrimSuffix s suf = s"
  by (simp add: TrimSuffix_def)

lemma length_TrimSuffix_less:
  "TrimSuffix s suf \<noteq> s \<Longrightarrow> length (TrimSuffix s suf) < length s"
  by (auto simp: TrimSuffix_def HasSuffix_iff split: if_splits)

lemma TrimRight_last: "TrimRight s c = [] \<or> last (TrimRight s c) \<noteq> c"
  by (cases "dropWhile (\<lambda>x. x = c) (rev s)")
    (auto simp: TrimRight_def dest: arg_cong [where f = set] dropWhile_eq_Cons_conv [THEN iffD1])

lemma TrimRight_split: "\<exists>n. s = TrimRight s c @ replicate n c"
proof -
  have "s = rev (takeWhile (\<lambda>x. x = c) (rev s) @ dropWhile (\<lambda>x. x = c) (rev s))" by simp
  then have s: "s = TrimRight s c @ rev (takeWhile (\<lambda>x. x = c) (rev s))"
    by (simp only: rev_append TrimRight_def)
  have "takeWhile (\<lambda>x. x = c) (rev s) = replicate (length (takeWhile (\<lambda>x. x = c) (rev s))) c"
    by (rule replicate_eqI) (auto dest: set_takeWhileD)
  then have "rev (takeWhile (\<lambda>x. x = c) (rev s)) = replicate (length (takeWhile (\<lambda>x. x = c) (rev s))) c"
    by (metis rev_replicate)
  with s show ?thesis by metis
qed

section \<open>Decimal rendering\<close>

definition digit_char :: "nat \<Rightarrow> char" where
  "digit_char d = char_of (48 + d)"

definition IsDigit :: "char \<Rightarrow> bool" where
  "IsDigit c \<longleftrightarrow> 48 \<le> (of_char c :: nat) \<and> (of_char c :: nat) \<le> 57"

fun Itoa :: "nat \<Rightarrow> string" where
  "Itoa n = (if n < 10 then [digit_char n] else Itoa (n div 10) @ [digit_char (n mod 10)])"

declare Itoa.simps [simp del]

text \<open>The value of a digit string, the inverse of \<open>Itoa\<close>.\<close>

definition digits_value :: "string \<Rightarrow> nat" where
  "digits_value = foldl (\<lambda>n c. 10 * n + (of_char c - 48)) 0"

lemma digit_char_value [simp]: "d < 10 \<Longrightarrow> of_char (digit_char d) = 48 + d"
  by (simp add: digit_char_def of_char_of)

lemma IsDigit_digit_char: "d < 10 \<Longrightarrow> IsDigit (digit_char d)"
  by (simp add: IsDigit_def)

lemma Itoa_digits: "\<forall>c \<in> set (Itoa n). IsDigit c"
proof (induction n rule: Itoa.induct)
  case (1 n)
  then show ?case by (subst Itoa.simps) (auto simp: IsDigit_digit_char)
qed

lemma Itoa_nonempty [simp]: "Itoa n \<noteq> []"
  by (subst Itoa.simps) simp

lemma digits_value_Itoa [simp]: "digits_value (Itoa n) = n"
proof (induction n rule: Itoa.induct)
  case (1 n)
  show ?case
  proof (cases "n < 10")
    case True
    then show ?thesis by (subst Itoa.simps) (simp add: digits_value_def)
  next
    case False
    with 1 have "digits_value (Itoa (n div 10)) = n div 10" by simp
    with False show ?thesis by (subst Itoa.simps) (simp add: digits_value_def)
  qed
qed

lemma Itoa_inject [simp]: "Itoa m = Itoa n \<longleftrightarrow> m = n"
  by (metis digits_value_Itoa)

lemma length_Itoa: "length (Itoa n) = (if n < 10 then 1 else Suc (length (Itoa (n div 10))))"
  by (subst Itoa.simps) simp

section \<open>UTF-8\<close>

definition RuneError :: nat where
  "RuneError = 65533"

abbreviation byte :: "char \<Rightarrow> nat" where
  "byte c \<equiv> of_char c"

text \<open>Length of the sequence a first byte announces (0: not a first byte) and the range its
  second byte must lie in: the tables \<open>first\<close> and \<open>acceptRanges\<close> of \<open>unicode/utf8\<close>.\<close>

definition seq_length :: "nat \<Rightarrow> nat" where
  "seq_length b = (if b < 128 then 1 else if b < 194 then 0 else if b < 224 then 2
     else if b < 240 then 3 else if b < 245 then 4 else 0)"

definition accept_lo :: "nat \<Rightarrow> nat" where
  "accept_lo b = (if b = 224 then 160 else if b = 240 then 144 else 128)"

definition accept_hi :: "nat \<Rightarrow> nat" where
  "accept_hi b = (if b = 237 then 159 else if b = 244 then 143 else 191)"

definition is_cont :: "nat \<Rightarrow> bool" where
  "is_cont b \<longleftrightarrow> 128 \<le> b \<and> b \<le> 191"

fun DecodeRune :: "string \<Rightarrow> nat \<times> nat" where
  "DecodeRune [] = (RuneError, 0)"
| "DecodeRune (c # s) =
     (let b0 = byte c; n = seq_length b0 in
      if n = 1 then (b0, 1)
      else if n = 0 \<or> length s < n - 1 then (RuneError, 1)
      else let b1 = byte (s ! 0) in
        if b1 < accept_lo b0 \<or> accept_hi b0 < b1 then (RuneError, 1)
        else if n = 2 then ((b0 mod 32) * 64 + b1 mod 64, 2)
        else let b2 = byte (s ! 1) in
          if \<not> is_cont b2 then (RuneError, 1)
          else if n = 3 then ((b0 mod 16) * 4096 + (b1 mod 64) * 64 + b2 mod 64, 3)
          else let b3 = byte (s ! 2) in
            if \<not> is_cont b3 then (RuneError, 1)
            else ((b0 mod 8) * 262144 + (b1 mod 64) * 4096 + (b2 mod 64) * 64 + b3 mod 64, 4))"

text \<open>\<open>utf8.DecodeLastRuneInString\<close>: back to the nearest first byte within four, which must
  decode to exactly the rest.\<close>

definition DecodeLastRune :: "string \<Rightarrow> nat \<times> nat" where
  "DecodeLastRune s =
     (let n = length s in
      if n = 0 then (RuneError, 0)
      else if byte (last s) < 128 then (byte (last s), 1)
      else case find (\<lambda>k. \<not> is_cont (byte (s ! (n - k)))) [2..<Suc (min 4 n)] of
        None \<Rightarrow> (RuneError, 1)
      | Some k \<Rightarrow> (let (r, w) = DecodeRune (drop (n - k) s)
                   in if w = k then (r, w) else (RuneError, 1)))"

definition IsSpace :: "nat \<Rightarrow> bool" where
  "IsSpace r \<longleftrightarrow> r \<in> {9, 10, 11, 12, 13, 32, 133, 160, 5760, 8232, 8233, 8239, 8287, 12288}
     \<or> (8192 \<le> r \<and> r \<le> 8202)"

lemma DecodeRune_width: "s \<noteq> [] \<Longrightarrow> 1 \<le> snd (DecodeRune s) \<and> snd (DecodeRune s) \<le> length s"
  by (cases s) (auto simp: Let_def seq_length_def Suc_le_eq split: if_splits)

lemma DecodeRune_ascii [simp]: "byte c < 128 \<Longrightarrow> DecodeRune (c # s) = (byte c, 1)"
  by (simp add: seq_length_def)

declare DecodeRune.simps(2) [simp del]

lemma DecodeLastRune_width:
  "s \<noteq> [] \<Longrightarrow> 1 \<le> snd (DecodeLastRune s) \<and> snd (DecodeLastRune s) \<le> length s"
proof -
  assume s: "s \<noteq> []"
  let ?p = "\<lambda>k. \<not> is_cont (byte (s ! (length s - k)))"
  have k: "2 \<le> k \<and> k \<le> length s" if "find ?p [2..<Suc (min 4 (length s))] = Some k" for k
  proof -
    have "k \<in> set [2..<Suc (min 4 (length s))]" using that by (metis find_Some_iff nth_mem)
    then show ?thesis by auto
  qed
  show ?thesis
  proof (cases "find ?p [2..<Suc (min 4 (length s))]")
    case None
    then show ?thesis using s by (simp add: DecodeLastRune_def Let_def Suc_le_eq)
  next
    case (Some k)
    then show ?thesis using s k [OF Some] by (simp add: DecodeLastRune_def Let_def Suc_le_eq split: prod.split)
  qed
qed

function TrimLeftSpace :: "string \<Rightarrow> string" where
  "TrimLeftSpace s =
     (if s = [] then [] else let (r, w) = DecodeRune s
      in if IsSpace r then TrimLeftSpace (drop w s) else s)"
  by pat_completeness auto
termination
proof (relation "measure length", goal_cases)
  case (2 s x r w)
  then show ?case using DecodeRune_width [of s] by (cases "DecodeRune s") auto
qed simp

function TrimRightSpace :: "string \<Rightarrow> string" where
  "TrimRightSpace s =
     (if s = [] then [] else let (r, w) = DecodeLastRune s
      in if IsSpace r then TrimRightSpace (take (length s - w) s) else s)"
  by pat_completeness auto
termination
proof (relation "measure length", goal_cases)
  case (2 s x r w)
  then show ?case using DecodeLastRune_width [of s] by (cases "DecodeLastRune s") auto
qed simp

definition TrimSpace :: "string \<Rightarrow> string" where
  "TrimSpace s = TrimRightSpace (TrimLeftSpace s)"

text \<open>\<open>strings.Map\<close> with a mapping that drops every rune outside ASCII: a rune it keeps is
  the byte it was read from.\<close>

function Map_keep :: "(nat \<Rightarrow> bool) \<Rightarrow> string \<Rightarrow> string" where
  "Map_keep keep s =
     (if s = [] then [] else let (r, w) = DecodeRune s
      in (if keep r then [char_of r] else []) @ Map_keep keep (drop w s))"
  by pat_completeness auto
termination
proof (relation "measure (\<lambda>(k, s). length s)", goal_cases)
  case (2 k s x r w)
  then show ?case using DecodeRune_width [of s] by (cases "DecodeRune s") auto
qed simp

declare TrimLeftSpace.simps [simp del] TrimRightSpace.simps [simp del] Map_keep.simps [simp del]

lemma TrimLeftSpace_Nil [simp]: "TrimLeftSpace [] = []"
  by (simp add: TrimLeftSpace.simps)

lemma TrimRightSpace_Nil [simp]: "TrimRightSpace [] = []"
  by (simp add: TrimRightSpace.simps)

lemma Map_keep_Nil [simp]: "Map_keep keep [] = []"
  by (simp add: Map_keep.simps)

lemma TrimLeftSpace_suffix: "\<exists>p. s = p @ TrimLeftSpace s"
proof (induction s rule: TrimLeftSpace.induct)
  case (1 s)
  show ?case
  proof (cases "s = [] \<or> \<not> IsSpace (fst (DecodeRune s))")
    case True
    then show ?thesis by (auto simp: TrimLeftSpace.simps [of s] split: prod.splits)
  next
    case False
    obtain r w where d: "DecodeRune s = (r, w)" by fastforce
    with 1 False have "\<exists>p. drop w s = p @ TrimLeftSpace (drop w s)" by auto
    then obtain p where "drop w s = p @ TrimLeftSpace (drop w s)" ..
    then have "s = (take w s @ p) @ TrimLeftSpace (drop w s)" by (metis append.assoc append_take_drop_id)
    then have "\<exists>p. s = p @ TrimLeftSpace (drop w s)" ..
    with False d show ?thesis by (simp add: TrimLeftSpace.simps [of s])
  qed
qed

lemma TrimRightSpace_prefix: "\<exists>p. s = TrimRightSpace s @ p"
proof (induction s rule: TrimRightSpace.induct)
  case (1 s)
  show ?case
  proof (cases "s = [] \<or> \<not> IsSpace (fst (DecodeLastRune s))")
    case True
    then show ?thesis by (auto simp: TrimRightSpace.simps [of s] split: prod.splits)
  next
    case False
    obtain r w where d: "DecodeLastRune s = (r, w)" by fastforce
    with 1 False have "\<exists>p. take (length s - w) s = TrimRightSpace (take (length s - w) s) @ p" by auto
    then obtain p where "take (length s - w) s = TrimRightSpace (take (length s - w) s) @ p" ..
    then have "s = TrimRightSpace (take (length s - w) s) @ (p @ drop (length s - w) s)"
      by (metis append.assoc append_take_drop_id)
    then have "\<exists>p. s = TrimRightSpace (take (length s - w) s) @ p" ..
    with False d show ?thesis by (simp add: TrimRightSpace.simps [of s])
  qed
qed

lemma TrimSpace_sublist: "\<exists>p q. s = p @ TrimSpace s @ q"
  using TrimLeftSpace_suffix [of s] TrimRightSpace_prefix [of "TrimLeftSpace s"]
  unfolding TrimSpace_def by metis

lemma length_TrimSpace: "length (TrimSpace s) \<le> length s"
proof -
  obtain p q where "s = p @ TrimSpace s @ q" using TrimSpace_sublist by blast
  then have "length s = length (p @ TrimSpace s @ q)" by simp
  then show ?thesis by simp
qed

text \<open>A string that starts and ends with ASCII non-space bytes is left alone.\<close>

lemma TrimSpace_id:
  assumes "s \<noteq> []" "byte (hd s) < 128" "\<not> IsSpace (byte (hd s))"
    "byte (last s) < 128" "\<not> IsSpace (byte (last s))"
  shows "TrimSpace s = s"
proof -
  obtain c t where s: "s = c # t" using assms(1) by (cases s) auto
  have "TrimLeftSpace s = s" using assms by (simp add: s TrimLeftSpace.simps [of "c # t"])
  moreover have "DecodeLastRune s = (byte (last s), 1)"
    using assms by (simp add: DecodeLastRune_def s)
  ultimately show ?thesis using assms by (simp add: TrimSpace_def TrimRightSpace.simps [of s])
qed

text \<open>Bytes of a multi-byte rune are all \<open>\<ge> 128\<close>, so a map that keeps ASCII runes only is a
  filter on bytes.\<close>

lemma mod_window: "q * m \<le> b \<Longrightarrow> b < q * m + m \<Longrightarrow> b mod m = b - q * (m :: nat)"
  by (metis add.commute add_less_imp_less_right le_add_diff_inverse mod_less mod_mult_self2
      mult.commute)

lemma rune2_high: "194 \<le> b \<Longrightarrow> b < 224 \<Longrightarrow> 2 \<le> b mod (32 :: nat)"
  using mod_window [of 6 32 b] by simp

lemma rune3_high:
  assumes "224 \<le> b0" "b0 < 240" "accept_lo b0 \<le> b1" "b1 \<le> accept_hi b0"
  shows "128 \<le> (b0 mod 16) * 4096 + (b1 mod 64) * (64 :: nat)"
proof (cases "b0 = 224")
  case True
  then have "160 \<le> b1" "b1 \<le> 191" using assms by (auto simp: accept_lo_def accept_hi_def)
  then have "2 \<le> b1 mod 64" using mod_window [of 2 64 b1] by simp
  then show ?thesis by simp
next
  case False
  with assms(1,2) have "1 \<le> b0 mod 16" using mod_window [of 14 16 b0] by simp
  then show ?thesis by simp
qed

lemma rune4_high:
  assumes "240 \<le> b0" "b0 < 245" "accept_lo b0 \<le> b1" "b1 \<le> accept_hi b0"
  shows "128 \<le> (b0 mod 8) * 262144 + (b1 mod 64) * (4096 :: nat)"
proof (cases "b0 = 240")
  case True
  then have "144 \<le> b1" "b1 \<le> 191" using assms by (auto simp: accept_lo_def accept_hi_def)
  then have "2 \<le> b1 mod 64" using mod_window [of 2 64 b1] by simp
  then show ?thesis by simp
next
  case False
  with assms(1,2) have "1 \<le> b0 mod 8" using mod_window [of 30 8 b0] by simp
  then show ?thesis by simp
qed

lemma DecodeRune_high:
  assumes "DecodeRune s = (r, w)" "s \<noteq> []" "128 \<le> byte (hd s)"
  shows "128 \<le> r \<and> (\<forall>c \<in> set (take w s). 128 \<le> byte c)"
proof -
  obtain c t where s: "s = c # t" using assms(2) by (cases s) auto
  have two: "128 \<le> (b0 mod 32) * 64 + b" if "194 \<le> b0" "b0 < 224" for b0 b :: nat
    using rune2_high [of b0] that by simp
  have lo: "128 \<le> accept_lo b" for b by (simp add: accept_lo_def)
  have hi: "128 \<le> byte c" using assms(3) s by simp
  have all_lt: "(\<forall>i<(2::nat). P i) \<longleftrightarrow> P 0 \<and> P 1" "(\<forall>i<(3::nat). P i) \<longleftrightarrow> P 0 \<and> P 1 \<and> P 2"
    "(\<forall>i<(4::nat). P i) \<longleftrightarrow> P 0 \<and> P 1 \<and> P 2 \<and> P 3" for P
    by (auto simp: numeral_eq_Suc less_Suc_eq)
  have nth: "\<forall>c \<in> set (take w s). 128 \<le> byte c" if "\<forall>i<w. 128 \<le> byte (s ! i)"
    using that by (auto simp: in_set_conv_nth)
  have l1: "128 \<le> byte (t ! 0)" if "accept_lo (byte c) \<le> byte (t ! 0)"
    using that lo [of "byte c"] by linarith
  consider "seq_length (byte c) = 0 \<or> length t < seq_length (byte c) - 1" |
    "seq_length (byte c) = 2" "1 \<le> length t" | "seq_length (byte c) = 3" "2 \<le> length t" |
    "seq_length (byte c) = 4" "3 \<le> length t"
  proof -
    have "seq_length (byte c) = 0 \<or> seq_length (byte c) = 2 \<or> seq_length (byte c) = 3 \<or> seq_length (byte c) = 4"
      using hi by (simp add: seq_length_def)
    then show thesis using that by (cases "length t < seq_length (byte c) - 1") (auto simp: Suc_le_eq)
  qed
  then show ?thesis
  proof cases
    case 1
    moreover have "seq_length (byte c) \<noteq> 1" using hi by (simp add: seq_length_def)
    ultimately have "r = RuneError \<and> w = 1" using assms(1)
      by (simp add: s DecodeRune.simps Let_def)
    then show ?thesis using hi by (simp add: s RuneError_def)
  next
    case 2
    then have "194 \<le> byte c" "byte c < 224" by (auto simp: seq_length_def split: if_splits)
    with two 2 assms(1) hi l1 have "128 \<le> r \<and> (\<forall>i<w. 128 \<le> byte (s ! i))"
      by (auto simp: s DecodeRune.simps Let_def RuneError_def not_less all_lt split: if_splits)
    with nth show ?thesis by blast
  next
    case 3
    then have b: "224 \<le> byte c" "byte c < 240" by (auto simp: seq_length_def split: if_splits)
    show ?thesis
    proof (cases "w = 1")
      case True
      with assms(1) 3 have "r = RuneError" by (auto simp: s DecodeRune.simps Let_def split: if_splits)
      with True hi show ?thesis by (simp add: s RuneError_def)
    next
      case False
      with assms(1) 3 have w: "w = 3" "r = (byte c mod 16) * 4096 + (byte (t ! 0) mod 64) * 64 + byte (t ! 1) mod 64"
        "accept_lo (byte c) \<le> byte (t ! 0)" "byte (t ! 0) \<le> accept_hi (byte c)" "is_cont (byte (t ! 1))"
        by (auto simp: s DecodeRune.simps Let_def not_less split: if_splits)
      then have "\<forall>i<w. 128 \<le> byte (s ! i)" using hi l1 by (simp add: all_lt s is_cont_def)
      with nth show ?thesis using rune3_high [OF b w(3,4)] w(2) by simp
    qed
  next
    case 4
    then have b: "240 \<le> byte c" "byte c < 245" by (auto simp: seq_length_def split: if_splits)
    show ?thesis
    proof (cases "w = 1")
      case True
      with assms(1) 4 have "r = RuneError" by (auto simp: s DecodeRune.simps Let_def split: if_splits)
      with True hi show ?thesis by (simp add: s RuneError_def)
    next
      case False
      with assms(1) 4 have w: "w = 4" "r = (byte c mod 8) * 262144 + (byte (t ! 0) mod 64) * 4096 +
          (byte (t ! 1) mod 64) * 64 + byte (t ! 2) mod 64"
        "accept_lo (byte c) \<le> byte (t ! 0)" "byte (t ! 0) \<le> accept_hi (byte c)" "is_cont (byte (t ! 1))"
        "is_cont (byte (t ! 2))"
        by (auto simp: s DecodeRune.simps Let_def not_less split: if_splits)
      then have "\<forall>i<w. 128 \<le> byte (s ! i)" using hi l1 by (simp add: all_lt s is_cont_def)
      with nth show ?thesis using rune4_high [OF b w(3,4)] w(2) by simp
    qed
  qed
qed

lemma Map_keep_filter:
  assumes "\<And>r. keep r \<Longrightarrow> r < 128"
  shows "Map_keep keep s = filter (\<lambda>c. keep (byte c)) s"
proof (induction "length s" arbitrary: s rule: less_induct)
  case less
  show ?case
  proof (cases s)
    case (Cons c t)
    obtain r w where d: "DecodeRune s = (r, w)" by fastforce
    have w: "1 \<le> w" "w \<le> length s" using DecodeRune_width [of s] d Cons by auto
    then have IH: "Map_keep keep (drop w s) = filter (\<lambda>c. keep (byte c)) (drop w s)"
      using less [of "drop w s"] Cons by simp
    have "(if keep r then [char_of r] else []) = filter (\<lambda>c. keep (byte c)) (take w s)"
    proof (cases "byte c < 128")
      case True
      then show ?thesis using d by (auto simp: Cons)
    next
      case False
      then have "128 \<le> r \<and> (\<forall>c \<in> set (take w s). 128 \<le> byte c)"
        using DecodeRune_high [OF d] Cons by simp
      then have "\<not> keep r" "\<forall>c \<in> set (take w s). \<not> keep (byte c)"
        using assms by (auto simp: not_le [symmetric])
      then show ?thesis by (simp add: filter_False)
    qed
    then have "(if keep r then [char_of r] else []) @ Map_keep keep (drop w s) =
        filter (\<lambda>c. keep (byte c)) (take w s @ drop w s)"
      using IH by (simp only: filter_append)
    then show ?thesis using d Cons by (simp add: Map_keep.simps [of keep "c # t"])
  qed simp
qed

end
