(* ===== verification/Redact.thy ===== *)
theory Redact
  imports GoStrings
begin

text \<open>
  \<open>internal/redact\<close>: the policy both HTTP clients apply to remote bytes before they reach a
  log record. \<open>Sanitize\<close>, \<open>Truncate\<close> and \<open>ForLog\<close> are the functions of \<open>redact.go\<close>;
  \<open>TransportReason\<close> works on a tree of Go errors, whose \<open>*url.Error\<close> nodes are the ones
  \<open>errors.As\<close> finds. \<open>strconv.Quote\<close>, which \<open>url.Error.Error\<close> applies to the URL, is the
  parameter \<open>quote\<close>.
\<close>

section \<open>Errors\<close>

datatype go_error =
    PlainError string
  | WrapError string go_error
  | URLError string string "go_error option"

fun err_string :: "(string \<Rightarrow> string) \<Rightarrow> go_error \<Rightarrow> string" where
  "err_string quote (PlainError m) = m"
| "err_string quote (WrapError m e) = m"
| "err_string quote (URLError op url inner) =
     op @ '' '' @ quote url @ '': '' @ (case inner of None \<Rightarrow> ''%!s(<nil>)'' | Some e \<Rightarrow> err_string quote e)"

text \<open>\<open>errors.As(err, &urlErr)\<close>: the first \<open>*url.Error\<close> on the chain of wrapped errors.\<close>

fun as_url_error :: "go_error \<Rightarrow> (string \<times> string \<times> go_error option) option" where
  "as_url_error (PlainError m) = None"
| "as_url_error (WrapError m e) = as_url_error e"
| "as_url_error (URLError op url inner) = Some (op, url, inner)"

definition TransportReason :: "(string \<Rightarrow> string) \<Rightarrow> go_error \<Rightarrow> string" where
  "TransportReason quote err =
     (case as_url_error err of
        Some (op, url, Some inner) \<Rightarrow> err_string quote inner
      | Some (op, url, None) \<Rightarrow> op
      | None \<Rightarrow> err_string quote err)"

section \<open>Bounding and stripping\<close>

definition SnippetBytes :: nat where
  "SnippetBytes = 256"

definition StatusPhraseBytes :: nat where
  "StatusPhraseBytes = 64"

definition printable :: "nat \<Rightarrow> bool" where
  "printable r \<longleftrightarrow> \<not> (r < 32 \<or> 126 < r)"

definition Sanitize :: "string \<Rightarrow> string" where
  "Sanitize s = Map_keep printable (TrimSpace s)"

definition Truncate :: "string \<Rightarrow> nat \<Rightarrow> string" where
  "Truncate s n = (if length s \<le> n then s else take n s)"

definition ForLog :: "string \<Rightarrow> string" where
  "ForLog s = Sanitize (Truncate s SnippetBytes)"

section \<open>What reaches a log record\<close>

lemma Sanitize_filter: "Sanitize s = filter (\<lambda>c. printable (byte c)) (TrimSpace s)"
  unfolding Sanitize_def by (rule Map_keep_filter) (simp add: printable_def)

lemma Sanitize_printable: "c \<in> set (Sanitize s) \<Longrightarrow> printable (byte c)"
  by (simp add: Sanitize_filter)

lemma length_Sanitize: "length (Sanitize s) \<le> length s"
  unfolding Sanitize_filter using length_filter_le length_TrimSpace le_trans by blast

lemma length_Truncate: "length (Truncate s n) \<le> n"
  by (simp add: Truncate_def)

text \<open>
  Whatever bytes a remote peer chooses, the string \<open>ForLog\<close> hands to a log record is at
  most \<open>SnippetBytes\<close> long and holds only printable ASCII bytes, so no newline, control byte
  or multi-byte sequence of the peer can reach the log.
\<close>

theorem ForLog_bounded_printable:
  "length (ForLog s) \<le> 256 \<and> filter (\<lambda>c. byte c < 32 \<or> 126 < byte c) (ForLog s) = []"
proof
  have "length (ForLog s) \<le> length (Truncate s SnippetBytes)"
    unfolding ForLog_def by (rule length_Sanitize)
  also have "\<dots> \<le> 256" using length_Truncate [of s SnippetBytes] by (simp add: SnippetBytes_def)
  finally show "length (ForLog s) \<le> 256" .
  show "filter (\<lambda>c. byte c < 32 \<or> 126 < byte c) (ForLog s) = []"
    using Sanitize_printable by (auto simp: ForLog_def printable_def filter_empty_conv)
qed

text \<open>
  A short message of printable ASCII that does not start or end with a space is logged
  byte for byte: the policy loses nothing of a well-behaved peer's message.
\<close>

theorem ForLog_transparent:
  assumes "s \<noteq> []" and "length s \<le> 256" and "filter (\<lambda>c. byte c < 32 \<or> 126 < byte c) s = []"
    and "hd s \<noteq> CHR '' ''" and "last s \<noteq> CHR '' ''"
  shows "ForLog s = s"
proof -
  have p: "printable (byte c)" if "c \<in> set s" for c
    using assms(3) that by (auto simp: printable_def filter_empty_conv)
  have sp: "byte c = 32 \<longleftrightarrow> c = CHR '' ''" for c :: char
    using of_char_eq_iff [of c "CHR '' ''", where 'a = nat] by simp
  have "byte (hd s) \<noteq> 32" "byte (last s) \<noteq> 32" using assms(4,5) sp by auto
  then have "TrimSpace s = s"
    using p [OF hd_in_set [OF assms(1)]] p [OF last_in_set [OF assms(1)]] assms(1)
    by (intro TrimSpace_id) (auto simp: printable_def IsSpace_def)
  then show ?thesis
    using assms(2) p by (simp add: ForLog_def Truncate_def SnippetBytes_def Sanitize_filter filter_id_conv)
qed

fun plain_message :: "go_error \<Rightarrow> string" where
  "plain_message (PlainError m) = m"
| "plain_message (WrapError m e) = m"
| "plain_message (URLError op url inner) = op"

lemma err_string_plain: "as_url_error e = None \<Longrightarrow> err_string quote e = plain_message e"
  by (cases e) auto

text \<open>
  The reason \<open>TransportReason\<close> extracts from a transport error never depends on the
  request URL the error carries, and neither on how \<open>url.Error\<close> would quote it, when the
  wrapped cause is not itself a \<open>*url.Error\<close>.
\<close>

theorem TransportReason_hides_url:
  assumes "as_url_error err = Some (op, url, inner)"
    and "Option.bind inner as_url_error = None"
  shows "TransportReason quote err = (case inner of None \<Rightarrow> op | Some e \<Rightarrow> plain_message e)"
  using assms by (auto simp: TransportReason_def err_string_plain split: option.splits)

section \<open>Witnesses\<close>

lemma ForLog_transparent_witness: "ForLog ''503 down'' = ''503 down''"
  by (rule ForLog_transparent) simp_all

lemma TransportReason_hides_url_witness:
  "TransportReason (\<lambda>u. u) (WrapError ''x'' (URLError ''Get'' ''http://u?token=1'' (Some (PlainError ''refused''))))
     = ''refused''"
  using TransportReason_hides_url [of "WrapError ''x'' (URLError ''Get'' ''http://u?token=1'' (Some (PlainError ''refused'')))"
      "''Get''" "''http://u?token=1''" "Some (PlainError ''refused'')" "\<lambda>u. u"]
  by simp

end
