(* ===== verification/Http.thy ===== *)
theory Http
  imports Redact
begin

text \<open>
  The part of \<open>net/http\<close> and \<open>io\<close> that the two HTTP clients use (\<open>scrape.Client\<close> and
  \<open>agent.Reporter\<close>): sending a request, the redirect policy of an \<open>http.Client\<close>, and reading a
  bounded prefix of a response body. The network itself is a function from the requested URL to
  a response or an error (\<open>transport\<close>), so timeouts and cancelled contexts are errors it
  returns.
\<close>

section \<open>Responses and bodies\<close>

text \<open>A body delivers its bytes and then ends with \<open>io.EOF\<close> (\<open>None\<close>) or with an error.\<close>

record http_body =
  body_bytes :: string
  body_error :: "go_error option"

text \<open>The \<open>Location\<close> header is absent, unparsable (with the text of the error \<open>Do\<close> makes of it), or a
  URL, resolved against that of the request.\<close>

record http_response =
  StatusCode :: nat
  RespStatus :: string
  Location :: "(string, string) result option"
  RespBody :: http_body

text \<open>\<open>io.ReadAll(io.LimitReader(body, n))\<close>: at most \<open>n\<close> bytes; an error only when it comes
  before the limit is reached, and nothing at all for a limit that is not positive.\<close>

definition ReadAllLimited :: "http_body \<Rightarrow> int \<Rightarrow> string \<times> go_error option" where
  "ReadAllLimited b n =
     (if n \<le> 0 then ([], None)
      else if length (body_bytes b) < nat n then (body_bytes b, body_error b)
      else (take (nat n) (body_bytes b), None))"

lemma ReadAllLimited_whole:
  assumes "0 < n" "ReadAllLimited b n = (bytes, None)" "int (length bytes) < n"
  shows "bytes = body_bytes b \<and> body_error b = None"
  using assms by (auto simp: ReadAllLimited_def split: if_splits)

lemma length_ReadAllLimited: "length (fst (ReadAllLimited b n)) \<le> nat n"
  by (simp add: ReadAllLimited_def)

section \<open>Redirects\<close>

datatype redirect_decision = FollowRedirect | UseLastResponse | RefuseRedirect go_error

text \<open>\<open>CheckRedirect\<close> is asked with the number of requests already made.\<close>

type_synonym redirect_policy = "nat \<Rightarrow> redirect_decision"

record http_client =
  Timeout :: int
  CheckRedirect :: redirect_policy

type_synonym transport = "string \<Rightarrow> (go_error, http_response) result"

definition is_redirect :: "nat \<Rightarrow> bool" where
  "is_redirect code \<longleftrightarrow> code \<in> {301, 302, 303, 307, 308}"

text \<open>\<open>http.Client.Do\<close>, with the list of URLs it contacts. The \<open>Location\<close> of a redirect is parsed
  before the policy is asked, and an unparsable one is an error whatever the policy. The fuel bounds
  the chain of followed redirects; every error is wrapped in a \<open>*url.Error\<close> naming the URL.\<close>

fun client_do :: "nat \<Rightarrow> redirect_policy \<Rightarrow> transport \<Rightarrow> string \<Rightarrow> string \<Rightarrow> nat \<Rightarrow>
    string list \<times> (go_error, http_response) result" where
  "client_do 0 check send op url via = ([], Inl (URLError op url None))"
| "client_do (Suc fuel) check send op url via =
     (case send url of
        Inl e \<Rightarrow> ([url], Inl (URLError op url (Some e)))
      | Inr resp \<Rightarrow>
          (case (if is_redirect (StatusCode resp) then Location resp else None) of
             None \<Rightarrow> ([url], Inr resp)
           | Some (Inl msg) \<Rightarrow> ([url], Inl (URLError op url (Some (PlainError msg))))
           | Some (Inr next_url) \<Rightarrow>
               (case check (Suc via) of
                  UseLastResponse \<Rightarrow> ([url], Inr resp)
                | RefuseRedirect e \<Rightarrow> ([url], Inl (URLError op next_url (Some e)))
                | FollowRedirect \<Rightarrow>
                    (let (urls, r) = client_do fuel check send op next_url (Suc via) in (url # urls, r)))))"

definition MaxHops :: nat where
  "MaxHops = 16"

definition Do :: "http_client \<Rightarrow> transport \<Rightarrow> string \<Rightarrow> string \<Rightarrow>
    string list \<times> (go_error, http_response) result" where
  "Do client send op url = client_do MaxHops (CheckRedirect client) send op url 0"

text \<open>What a client that follows no redirect makes of a response.\<close>

definition unfollowed :: "string \<Rightarrow> string \<Rightarrow> http_response \<Rightarrow> (go_error, http_response) result" where
  "unfollowed op url resp =
     (case (if is_redirect (StatusCode resp) then Location resp else None) of
        Some (Inl msg) \<Rightarrow> Inl (URLError op url (Some (PlainError msg)))
      | _ \<Rightarrow> Inr resp)"

lemma unfollowed_simps:
  "StatusCode resp < 300 \<Longrightarrow> unfollowed op url resp = Inr resp"
  "unfollowed op url resp = Inr resp' \<Longrightarrow> resp' = resp"
  by (auto simp: unfollowed_def is_redirect_def split: option.splits sum.splits if_splits)

lemma Do_no_redirect:
  assumes "CheckRedirect client = (\<lambda>_. UseLastResponse)"
  shows "Do client send op url =
    ([url], case send url of Inl e \<Rightarrow> Inl (URLError op url (Some e)) | Inr resp \<Rightarrow> unfollowed op url resp)"
proof -
  have m: "MaxHops = Suc 15" by (simp add: MaxHops_def)
  show ?thesis unfolding Do_def m client_do.simps by (simp add: assms unfollowed_def split: sum.split option.split)
qed

text \<open>What a client needs of its surroundings: \<open>http.NewRequestWithContext\<close> (\<open>None\<close> when it
  succeeds), the network, and the quoting of \<open>url.Error\<close>.\<close>

record http_env =
  env_new_request :: "string \<Rightarrow> go_error option"
  env_send :: transport
  env_quote :: "string \<Rightarrow> string"

end
