(* ===== verification/ScrapeSeries.thy ===== *)
theory ScrapeSeries
  imports Float64 GoStrings
begin

text \<open>
  The data of \<open>internal/scrape\<close>: a decoded sample (\<open>Series\<close> in \<open>scrape.go\<close>), its kind, its
  fingerprint, and the spellings under which a row names its pod, namespace and container
  (the label helpers and \<open>PodKey\<close> of \<open>resolve.go\<close>). The two encodings are the seams other
  components rest on: \<open>Fingerprint\<close> lines up one counter across scrapes, \<open>PodKey\<close> joins the
  rows of a pod and the agent's slug index. Their laws are the locale \<open>key_encoding\<close>.
\<close>

datatype Kind = KindUnsupported | KindGauge | KindCounter

definition Kind_String :: "Kind \<Rightarrow> string" where
  "Kind_String k = (case k of KindGauge \<Rightarrow> ''gauge'' | KindCounter \<Rightarrow> ''counter''
     | KindUnsupported \<Rightarrow> ''unsupported'')"

type_synonym labels = "(string, string) fmap"

record Series =
  SName :: string
  SLabels :: labels
  SValue :: f64
  SKind :: Kind

section \<open>Fingerprints\<close>

definition writeLenPrefixed :: "string \<Rightarrow> string" where
  "writeLenPrefixed s = Itoa (length s) @ '':'' @ s"

fun count_digits :: "nat \<Rightarrow> nat \<Rightarrow> nat" where
  "count_digits v digits = (if 10 \<le> v then count_digits (v div 10) (digits + 1) else digits)"

declare count_digits.simps [simp del]

definition lenPrefixedSize :: "string \<Rightarrow> nat" where
  "lenPrefixedSize s = count_digits (length s) 1 + 1 + length s"

definition Fingerprint :: "Series \<Rightarrow> string" where
  "Fingerprint s =
     writeLenPrefixed (SName s) @
     concat (map (\<lambda>k. writeLenPrefixed k @ writeLenPrefixed (fmget [] (SLabels s) k))
       (sorted_list_of_fset (fmdom (SLabels s))))"

text \<open>The size the builder is grown to before anything is written.\<close>

definition fingerprint_size :: "Series \<Rightarrow> nat" where
  "fingerprint_size s = lenPrefixedSize (SName s) +
     (\<Sum>k \<leftarrow> sorted_list_of_fset (fmdom (SLabels s)).
        lenPrefixedSize k + lenPrefixedSize (fmget [] (SLabels s) k))"

lemma count_digits_Itoa: "count_digits v d = d + length (Itoa v) - 1"
proof (induction v d rule: count_digits.induct)
  case (1 v d)
  show ?case
  proof (cases "10 \<le> v")
    case True
    with 1 show ?thesis
      by (simp add: count_digits.simps [of v] length_Itoa [of v] Suc_le_eq)
  next
    case False
    then show ?thesis by (simp add: count_digits.simps [of v] length_Itoa [of v])
  qed
qed

lemma lenPrefixedSize_exact: "lenPrefixedSize s = length (writeLenPrefixed s)"
  by (simp add: lenPrefixedSize_def writeLenPrefixed_def count_digits_Itoa Suc_le_eq)

text \<open>
  The size \<open>Fingerprint\<close> grows its builder to is exactly the number of bytes it then
  writes, so the builder never reallocates.
\<close>

theorem fingerprint_size_exact: "fingerprint_size s = length (Fingerprint s)"
  by (simp add: fingerprint_size_def Fingerprint_def length_concat lenPrefixedSize_exact comp_def)

text \<open>A length-prefixed part can be read back from the front of any string that starts with it.\<close>

lemma digits_prefix_unique:
  assumes "d @ CHR '':'' # x = d' @ CHR '':'' # y" "\<forall>c \<in> set d. IsDigit c" "\<forall>c \<in> set d'. IsDigit c"
  shows "d = d' \<and> x = y"
proof -
  have nc: "\<not> IsDigit (CHR '':'')" by (simp add: IsDigit_def)
  have "takeWhile IsDigit (d @ CHR '':'' # x) = d" "takeWhile IsDigit (d' @ CHR '':'' # y) = d'"
    using assms(2,3) nc by (simp_all add: takeWhile_append2)
  with assms(1) show ?thesis by simp
qed

lemma writeLenPrefixed_unique:
  assumes "writeLenPrefixed a @ x = writeLenPrefixed b @ y"
  shows "a = b \<and> x = y"
proof -
  have "Itoa (length a) = Itoa (length b) \<and> a @ x = b @ y"
    using assms Itoa_digits by (intro digits_prefix_unique) (simp_all add: writeLenPrefixed_def)
  then have "length a = length b" "a @ x = b @ y" by simp_all
  then show ?thesis by simp
qed

lemma writeLenPrefixed_not_Nil [simp]: "writeLenPrefixed s \<noteq> []"
  by (simp add: writeLenPrefixed_def)

lemma concat_writeLenPrefixed_inject:
  "concat (map writeLenPrefixed xs) = concat (map writeLenPrefixed ys) \<Longrightarrow> xs = ys"
proof (induction xs arbitrary: ys)
  case Nil
  then show ?case by (cases ys) auto
next
  case (Cons x xs)
  then obtain y ys' where ys: "ys = y # ys'" by (cases ys) auto
  have "writeLenPrefixed x @ concat (map writeLenPrefixed xs) =
      writeLenPrefixed y @ concat (map writeLenPrefixed ys')"
    using Cons.prems by (simp add: ys)
  then have "x = y" "concat (map writeLenPrefixed xs) = concat (map writeLenPrefixed ys')"
    using writeLenPrefixed_unique by blast+
  then show ?case using Cons.IH ys by blast
qed

definition fingerprint_parts :: "Series \<Rightarrow> string list" where
  "fingerprint_parts s = SName s #
     concat (map (\<lambda>k. [k, fmget [] (SLabels s) k]) (sorted_list_of_fset (fmdom (SLabels s))))"

lemma Fingerprint_parts: "Fingerprint s = concat (map writeLenPrefixed (fingerprint_parts s))"
proof -
  have "concat (map writeLenPrefixed (concat (map (\<lambda>k. [k, f k]) ks))) =
      concat (map (\<lambda>k. writeLenPrefixed k @ writeLenPrefixed (f k)) ks)" for f ks
    by (induction ks) auto
  then show ?thesis by (simp add: Fingerprint_def fingerprint_parts_def)
qed

lemma pairs_inject:
  "concat (map (\<lambda>k. [k, f k]) ks) = concat (map (\<lambda>k. [k, g k]) ks') \<Longrightarrow>
     ks = ks' \<and> (\<forall>k \<in> set ks. f k = g k)"
proof (induction ks arbitrary: ks')
  case Nil
  then show ?case by (cases ks') auto
next
  case (Cons k ks)
  then show ?case by (cases ks') auto
qed

text \<open>
  C9. The fingerprint is an injective encoding of a series' identity: two series have the same
  fingerprint exactly when they have the same name and the same label set, whatever bytes the
  scraped peer puts into names and values. No two distinct counters can be differenced
  against each other's previous value.
\<close>

theorem Fingerprint_eq_iff:
  "Fingerprint s = Fingerprint t \<longleftrightarrow> SName s = SName t \<and> SLabels s = SLabels t"
proof
  assume "Fingerprint s = Fingerprint t"
  then have parts: "fingerprint_parts s = fingerprint_parts t"
    unfolding Fingerprint_parts by (rule concat_writeLenPrefixed_inject)
  then have dom: "fmdom (SLabels s) = fmdom (SLabels t)"
    and val: "\<And>k. k |\<in>| fmdom (SLabels s) \<Longrightarrow> fmget [] (SLabels s) k = fmget [] (SLabels t) k"
    using pairs_inject by (force simp: fingerprint_parts_def)+
  have "SLabels s = SLabels t"
  proof (rule fmap_eqI)
    fix k
    show "fmlookup (SLabels s) k = fmlookup (SLabels t) k"
    proof (cases "k |\<in>| fmdom (SLabels s)")
      case True
      then have "k |\<in>| fmdom (SLabels t)" using dom by simp
      with True val [OF True] show ?thesis by (auto simp: fmget_def fmlookup_dom_iff)
    next
      case False
      then have "k |\<notin>| fmdom (SLabels t)" using dom by simp
      with False show ?thesis by (simp add: fmdom_notD)
    qed
  qed
  then show "SName s = SName t \<and> SLabels s = SLabels t"
    using parts by (simp add: fingerprint_parts_def)
qed (simp add: Fingerprint_def)

section \<open>How a row names its pod\<close>

definition podLabelNames :: "string list" where
  "podLabelNames = [''pod'', ''k8s_pod_name'']"

definition namespaceLabelNames :: "string list" where
  "namespaceLabelNames = [''namespace'', ''k8s_namespace_name'']"

definition containerLabelNames :: "string list" where
  "containerLabelNames = [''container'', ''k8s_container_name'']"

definition pauseContainer :: string where
  "pauseContainer = ''POD''"

fun firstLabel :: "labels \<Rightarrow> string list \<Rightarrow> string" where
  "firstLabel labels [] = []"
| "firstLabel labels (n # ns) =
     (let v = fmget [] labels n in if v \<noteq> [] then v else firstLabel labels ns)"

definition ContainerLabel :: "labels \<Rightarrow> string" where
  "ContainerLabel labels = firstLabel labels containerLabelNames"

definition PodLabel :: "labels \<Rightarrow> string" where
  "PodLabel labels = firstLabel labels podLabelNames"

definition NamespaceLabel :: "labels \<Rightarrow> string" where
  "NamespaceLabel labels = firstLabel labels namespaceLabelNames"

definition unitSep :: char where
  "unitSep = CHR 0x1F"

definition PodKey :: "string \<Rightarrow> string \<Rightarrow> string option" where
  "PodKey namespace pod =
     (if namespace = [] \<or> pod = [] then None else Some (namespace @ unitSep # pod))"

definition podRef :: "Series \<Rightarrow> string option" where
  "podRef s = PodKey (NamespaceLabel (SLabels s)) (PodLabel (SLabels s))"

lemma PodKey_eq_Some [simp]:
  "PodKey ns p = Some k \<longleftrightarrow> ns \<noteq> [] \<and> p \<noteq> [] \<and> k = ns @ unitSep # p"
  by (auto simp: PodKey_def)

lemma PodKey_eq_None [simp]: "PodKey ns p = None \<longleftrightarrow> ns = [] \<or> p = []"
  by (simp add: PodKey_def)

lemma sep_split_unique:
  assumes "a @ c # b = a' @ c # b'" "c \<notin> set a'" "c \<notin> set b'"
  shows "a = a' \<and> b = b'"
proof -
  have "filter (\<lambda>x. x = c) a' = []" "filter (\<lambda>x. x = c) b' = []"
    using assms(2,3) by (auto simp: filter_empty_conv)
  then have "length (filter (\<lambda>x. x = c) (a @ c # b)) = 1" unfolding assms(1) by simp
  then have "filter (\<lambda>x. x = c) a = []" by simp
  then have "c \<notin> set a" by (auto simp: filter_empty_conv)
  then have "takeWhile (\<lambda>x. x \<noteq> c) (a @ c # b) = a" "takeWhile (\<lambda>x. x \<noteq> c) (a' @ c # b') = a'"
    using assms(2) by (subst takeWhile_append2; auto)+
  with assms(1) show ?thesis by simp
qed

lemma PodKey_inject:
  assumes "PodKey ns' pod' = PodKey ns pod" "unitSep \<notin> set ns" "unitSep \<notin> set pod" "ns \<noteq> []" "pod \<noteq> []"
  shows "ns' = ns \<and> pod' = pod"
proof -
  have "ns' @ unitSep # pod' = ns @ unitSep # pod"
    using assms(1,4,5) by (simp add: PodKey_def split: if_splits)
  then show ?thesis using assms(2,3) by (rule sep_split_unique)
qed

text \<open>
  A \<open>PodKey\<close> built from a cluster namespace and pod name, which contain no unit
  separator, is matched by no other pair: even a peer that puts separators into its labels
  cannot make a row collide with a tracked pod's key.
\<close>

theorem PodKey_collision_free:
  assumes "unitSep \<notin> set ns" and "unitSep \<notin> set pod" and "ns \<noteq> []" and "pod \<noteq> []"
    and "(ns', pod') \<noteq> (ns, pod)"
  shows "PodKey ns' pod' \<noteq> PodKey ns pod"
  using PodKey_inject assms by blast

lemma PodKey_collision_free_witness:
  "PodKey ''prod'' (''x'' @ unitSep # ''api-1'') \<noteq> PodKey ''prod'' ''api-1''"
  by (rule PodKey_collision_free) (simp_all add: unitSep_def)

end
