(* ===== verification/Resolve.thy ===== *)
theory Resolve
  imports ScrapeSeries "HOL-Library.While_Combinator"
begin

text \<open>
  \<open>internal/scrape/resolve.go\<close>: which exposition family supplies a role, and which of its rows
  may be summed. Definitions keep the Go names: \<open>NormalizeName\<close>, \<open>matchFamily\<close>, \<open>summable\<close>,
  \<open>Select\<close>, \<open>CandidateNames\<close>.
\<close>

datatype Role = RoleCPU | RoleMemory

definition Role_String :: "Role \<Rightarrow> string" where
  "Role_String r = (if r = RoleMemory then ''memory'' else ''cpu'')"

record Candidate =
  CName :: string
  Scale :: f64
  Exact :: bool

definition cpuCandidates :: "Candidate list" where
  "cpuCandidates =
     [\<lparr>CName = ''k8s_pod_cpu_usage'', Scale = Fin 1000, Exact = False\<rparr>,
      \<lparr>CName = ''k8s_pod_cpu_time'', Scale = Fin 1000, Exact = False\<rparr>,
      \<lparr>CName = ''container_cpu_usage'', Scale = Fin 1000, Exact = False\<rparr>]"

definition memoryCandidates :: "Candidate list" where
  "memoryCandidates =
     [\<lparr>CName = ''k8s_pod_memory_working_set'', Scale = Fin 1, Exact = False\<rparr>,
      \<lparr>CName = ''container_memory_working_set'', Scale = Fin 1, Exact = False\<rparr>]"

section \<open>Unit suffixes\<close>

definition unitSuffixes :: "string list" where
  "unitSuffixes = [''_total'', ''_bytes'', ''_seconds'']"

text \<open>The inner loop of \<open>NormalizeName\<close>: one pass over the suffixes, with the flag it sets.\<close>

fun strip_pass :: "string list \<Rightarrow> string \<Rightarrow> bool \<Rightarrow> string \<times> bool" where
  "strip_pass [] name changed = (name, changed)"
| "strip_pass (suffix # rest) name changed =
     (let trimmed = TrimSuffix name suffix
      in if trimmed \<noteq> name \<and> trimmed \<noteq> [] then strip_pass rest trimmed True
         else strip_pass rest name changed)"

lemma strip_pass_length: "length (fst (strip_pass ss n c)) \<le> length n"
proof (induction ss n c rule: strip_pass.induct)
  case (2 suffix rest name changed)
  then show ?case using length_TrimSuffix_less [of name suffix]
    by (fastforce simp: Let_def)
qed simp

lemma strip_pass_changed:
  "snd (strip_pass ss n False) \<Longrightarrow> length (fst (strip_pass ss n False)) < length n"
proof (induction ss arbitrary: n)
  case (Cons suffix rest)
  show ?case
  proof (cases "TrimSuffix n suffix \<noteq> n \<and> TrimSuffix n suffix \<noteq> []")
    case True
    then have "length (TrimSuffix n suffix) < length n" by (intro length_TrimSuffix_less) simp
    with True show ?thesis using strip_pass_length [of rest "TrimSuffix n suffix" True]
      by (simp add: Let_def)
  next
    case False
    with Cons show ?thesis by (auto simp: Let_def)
  qed
qed simp

function NormalizeName :: "string \<Rightarrow> string" where
  "NormalizeName name =
     (let (name', changed) = strip_pass unitSuffixes name False
      in if changed then NormalizeName name' else name')"
  by pat_completeness auto
termination
proof (relation "measure length", goal_cases)
  case (2 name x name' changed)
  then have "strip_pass unitSuffixes name False = (name', True)" by auto
  then show ?case using strip_pass_changed [of unitSuffixes name] by simp
qed simp

declare NormalizeName.simps [simp del]

text \<open>
  C38. The loop of \<open>NormalizeName\<close> ends on every name: run as the source writes it, a flag that is
  cleared before each pass over the suffixes and set by every suffix the pass removes, it stops
  with the flag cleared and the name \<open>NormalizeName\<close> returns.
\<close>

theorem NormalizeName_loop_ends:
  "while_option (\<lambda>(name, changed). changed) (\<lambda>(name, changed). strip_pass unitSuffixes name False) (name, True) =
    Some (NormalizeName name, False)"
proof (induction name rule: NormalizeName.induct)
  case (1 name)
  obtain name' changed where s: "strip_pass unitSuffixes name False = (name', changed)" by fastforce
  show ?case
  proof (cases changed)
    case True
    with 1 s show ?thesis by (subst while_option_unfold) (simp add: NormalizeName.simps [of name])
  next
    case False
    with s show ?thesis
      by (subst while_option_unfold, subst while_option_unfold) (simp add: NormalizeName.simps [of name])
  qed
qed

section \<open>The row policy\<close>

definition isPauseRow :: "Series \<Rightarrow> bool" where
  "isPauseRow row \<longleftrightarrow> ContainerLabel (SLabels row) = pauseContainer"

definition isContainerRow :: "Series \<Rightarrow> bool" where
  "isContainerRow row \<longleftrightarrow>
     (let name = ContainerLabel (SLabels row) in name \<noteq> [] \<and> name \<noteq> pauseContainer)"

definition isSupersededRollup :: "Series \<Rightarrow> string fset \<Rightarrow> string fset \<Rightarrow> bool" where
  "isSupersededRollup row namespaced podOnly \<longleftrightarrow>
     (if ContainerLabel (SLabels row) \<noteq> [] then False
      else case podRef row of
        Some key \<Rightarrow> key |\<in>| namespaced
      | None \<Rightarrow> (let pod = PodLabel (SLabels row)
                 in pod \<noteq> [] \<and> NamespaceLabel (SLabels row) = [] \<and> pod |\<in>| podOnly))"

record rollup_sets =
  rollupNamespaced :: "string fset"
  rollupPodOnly :: "string fset"
  mixedShape :: "string fset"

text \<open>First loop of \<open>summable\<close>: the pods that have container rows of their own.\<close>

definition rollup_step :: "Series \<Rightarrow> rollup_sets \<Rightarrow> rollup_sets" where
  "rollup_step row st =
     (if \<not> isContainerRow row then st
      else let pod = PodLabel (SLabels row)
      in case podRef row of
        Some key \<Rightarrow> st\<lparr>rollupNamespaced := finsert key (rollupNamespaced st),
            rollupPodOnly := finsert pod (rollupPodOnly st),
            mixedShape := finsert pod (mixedShape st)\<rparr>
      | None \<Rightarrow> (if pod \<noteq> [] \<and> NamespaceLabel (SLabels row) = []
                 then st\<lparr>rollupPodOnly := finsert pod (rollupPodOnly st)\<rparr> else st))"

definition rollups :: "Series list \<Rightarrow> rollup_sets" where
  "rollups rows = fold rollup_step rows
     \<lparr>rollupNamespaced = {||}, rollupPodOnly = {||}, mixedShape = {||}\<rparr>"

definition sortedKeys :: "string fset \<Rightarrow> string list" where
  "sortedKeys keys = (if fcard keys = 0 then [] else sorted_list_of_fset keys)"

lemma sortedKeys_eq [simp]: "sortedKeys keys = sorted_list_of_fset keys"
  by (simp add: sortedKeys_def)

text \<open>Second loop: keep or drop each row, naming the pods of ambiguous totals.\<close>

definition keep_step :: "rollup_sets \<Rightarrow> Series \<Rightarrow> Series list \<times> string fset \<Rightarrow> Series list \<times> string fset" where
  "keep_step st row acc =
     (let (out, ambiguous) = acc in
      if isPauseRow row then (out, ambiguous)
      else if isSupersededRollup row (rollupNamespaced st) (rollupPodOnly st) then
        (let pod = PodLabel (SLabels row)
         in if NamespaceLabel (SLabels row) = [] \<and> pod |\<in>| mixedShape st
            then (out, finsert pod ambiguous) else (out, ambiguous))
      else (out @ [row], ambiguous))"

definition summable :: "Series list \<Rightarrow> Series list \<times> nat \<times> string list" where
  "summable rows =
     (let st = rollups rows; (out, ambiguous) = fold (keep_step st) rows ([], {||})
      in (out, length rows - length out, sortedKeys ambiguous))"

section \<open>Selection\<close>

record Selection =
  SelCandidate :: Candidate
  SelRole :: Role
  SelKind :: Kind
  SelSeries :: "Series list"
  Excluded :: nat
  Ambiguous :: "string list"

definition Rateable :: "Selection \<Rightarrow> bool" where
  "Rateable s \<longleftrightarrow> SelKind s = KindCounter \<and> SelRole s = RoleCPU"

definition name_matches :: "Candidate \<Rightarrow> Series \<Rightarrow> bool" where
  "name_matches c s =
     (if Exact c then SName s = CName c else NormalizeName (SName s) = NormalizeName (CName c))"

text \<open>First loop of \<open>matchFamily\<close>, with its \<open>continue\<close>s and its \<open>break\<close>.\<close>

fun find_winner :: "Candidate \<Rightarrow> Series list \<Rightarrow> string \<Rightarrow> string" where
  "find_winner c [] winner = winner"
| "find_winner c (s # rest) winner =
     (if \<not> name_matches c s then find_winner c rest winner
      else if SName s = CName c then SName s
      else find_winner c rest (if winner = [] then SName s else winner))"

definition matchFamily :: "Candidate \<Rightarrow> Series list \<Rightarrow> (Series list \<times> Kind) option" where
  "matchFamily c all =
     (let winner = find_winner c all [] in
      if winner = [] then None
      else let matched = filter (\<lambda>s. SName s = winner) all
           in if matched = [] then None else Some (matched, SKind (last matched)))"

record Resolver =
  CPUOverride :: string
  MemoryOverride :: string

definition candidates :: "Resolver \<Rightarrow> Role \<Rightarrow> Candidate list" where
  "candidates r role =
     (let (override, defaults) =
        (if role = RoleMemory then (MemoryOverride r, memoryCandidates) else (CPUOverride r, cpuCandidates))
      in if override \<noteq> [] then [\<lparr>CName = override, Scale = Scale (hd defaults), Exact = True\<rparr>]
         else defaults)"

fun select_from :: "Role \<Rightarrow> Series list \<Rightarrow> Candidate list \<Rightarrow> Selection option" where
  "select_from role all [] = None"
| "select_from role all (c # cs) =
     (case matchFamily c all of
        Some (matched, kind) \<Rightarrow>
          (let (rows, excluded, ambiguous) = summable matched
           in Some \<lparr>SelCandidate = c, SelRole = role, SelKind = kind, SelSeries = rows,
                Excluded = excluded, Ambiguous = ambiguous\<rparr>)
      | None \<Rightarrow> select_from role all cs)"

definition Select :: "Resolver \<Rightarrow> Role \<Rightarrow> Series list \<Rightarrow> Selection option" where
  "Select r role all = select_from role all (candidates r role)"

definition CandidateNames :: "Resolver \<Rightarrow> string fset" where
  "CandidateNames r =
     fset_of_list (concat (map (\<lambda>role. map (\<lambda>c. NormalizeName (CName c)) (candidates r role))
       [RoleCPU, RoleMemory]))"

section \<open>Normalization is the unique suffix-free base\<close>

text \<open>The specification: a base is reached by removing unit suffixes from a nonempty rest, and
  is final when no further one can be removed.\<close>

inductive strips :: "string \<Rightarrow> string \<Rightarrow> bool" where
  strips_refl: "strips n n"
| strips_step: "a \<noteq> [] \<Longrightarrow> suf \<in> set unitSuffixes \<Longrightarrow> strips a b \<Longrightarrow> strips (a @ suf) b"

definition suffix_free :: "string \<Rightarrow> bool" where
  "suffix_free n \<longleftrightarrow> list_all (\<lambda>suf. HasSuffix n suf \<longrightarrow> n = suf) unitSuffixes"

lemma suffix_freeD: "suffix_free (a @ suf) \<Longrightarrow> suf \<in> set unitSuffixes \<Longrightarrow> a = []"
  by (auto simp: suffix_free_def list_all_iff HasSuffix_iff)

lemma suffix_freeI:
  assumes "\<And>a suf. n = a @ suf \<Longrightarrow> suf \<in> set unitSuffixes \<Longrightarrow> a = []"
  shows "suffix_free n"
  using assms by (fastforce simp: suffix_free_def list_all_iff HasSuffix_iff)

lemma unit_suffix_unique:
  assumes "a @ s = b @ t" "s \<in> set unitSuffixes" "t \<in> set unitSuffixes"
  shows "a = b \<and> s = t"
proof -
  have "rev s @ rev a = rev t @ rev b" using arg_cong [OF assms(1), of rev] by simp
  then have "s = t" using assms(2,3) by (auto simp: unitSuffixes_def)
  with assms(1) show ?thesis by simp
qed

lemma strips_trans: "strips a b \<Longrightarrow> strips b c \<Longrightarrow> strips a c"
  by (induction rule: strips.induct) (auto intro: strips.intros)

lemma strip_pass_strips: "set ss \<subseteq> set unitSuffixes \<Longrightarrow> strips n (fst (strip_pass ss n ch))"
proof (induction ss arbitrary: n ch)
  case (Cons suf rest)
  show ?case
  proof (cases "TrimSuffix n suf \<noteq> n \<and> TrimSuffix n suf \<noteq> []")
    case True
    then obtain a where n: "n = a @ suf" by (auto simp: TrimSuffix_def HasSuffix_iff split: if_splits)
    with True have a: "a \<noteq> []" "TrimSuffix n suf = a" by auto
    have "strips a (fst (strip_pass rest a True))" using Cons by simp
    then have "strips n (fst (strip_pass rest a True))"
      unfolding n using a Cons.prems by (intro strips_step) auto
    with True a show ?thesis by (simp add: Let_def)
  next
    case False
    with Cons show ?thesis by (auto simp: Let_def)
  qed
qed (simp add: strips_refl)

lemma strip_pass_unchanged:
  "\<not> snd (strip_pass ss n ch) \<Longrightarrow>
     fst (strip_pass ss n ch) = n \<and> (\<forall>suf \<in> set ss. TrimSuffix n suf = n \<or> TrimSuffix n suf = [])"
proof (induction ss arbitrary: n ch)
  case (Cons suf rest)
  have mono: "snd (strip_pass rest m True)" for m by (induction rest arbitrary: m) (auto simp: Let_def)
  with Cons show ?case by (auto simp: Let_def split: if_splits)
qed simp

lemma NormalizeName_strips: "strips n (NormalizeName n)"
proof (induction n rule: NormalizeName.induct)
  case (1 name)
  obtain m ch where p: "strip_pass unitSuffixes name False = (m, ch)" by fastforce
  have "strips name m" using strip_pass_strips [of unitSuffixes name False] p by simp
  moreover have "strips m (NormalizeName m)" if ch using 1 p that by auto
  ultimately show ?case using p by (auto simp: NormalizeName.simps [of name] intro: strips_trans)
qed

lemma NormalizeName_suffix_free: "suffix_free (NormalizeName n)"
proof (induction n rule: NormalizeName.induct)
  case (1 name)
  obtain m ch where p: "strip_pass unitSuffixes name False = (m, ch)" by fastforce
  show ?case
  proof (cases ch)
    case True
    with 1 p show ?thesis by (simp add: NormalizeName.simps [of name])
  next
    case False
    then have u: "m = name" "\<forall>suf \<in> set unitSuffixes. TrimSuffix name suf = name \<or> TrimSuffix name suf = []"
      using strip_pass_unchanged [of unitSuffixes name False] p by auto
    have "suffix_free name"
    proof (rule suffix_freeI)
      fix a suf assume "name = a @ suf" "suf \<in> set unitSuffixes"
      moreover from this have "suf \<noteq> []" by (auto simp: unitSuffixes_def)
      ultimately show "a = []" using u(2) by fastforce
    qed
    with False p u(1) show ?thesis by (simp add: NormalizeName.simps [of name])
  qed
qed

lemma strips_suffix_free_unique:
  "strips n a \<Longrightarrow> strips n b \<Longrightarrow> suffix_free a \<Longrightarrow> suffix_free b \<Longrightarrow> a = b"
proof (induction rule: strips.induct)
  case (strips_refl n)
  from strips_refl(1) show ?case
  proof (cases rule: strips.cases)
    case (strips_step a suf)
    with strips_refl(2) suffix_freeD show ?thesis by blast
  qed simp
next
  case (strips_step a suf c)
  from strips_step(5) show ?case
  proof (cases rule: strips.cases)
    case strips_refl
    with strips_step(1,2,7) suffix_freeD show ?thesis by blast
  next
    case (strips_step a' suf')
    with unit_suffix_unique [of a suf a' suf'] \<open>suf \<in> set unitSuffixes\<close>
    have "a' = a" by simp
    with strips_step(4) \<open>strips a b \<Longrightarrow> suffix_free c \<Longrightarrow> suffix_free b \<Longrightarrow> c = b\<close>
      \<open>suffix_free c\<close> \<open>suffix_free b\<close> show ?thesis by simp
  qed
qed

text \<open>
  C30. \<open>NormalizeName\<close> computes the unit-free base of a metric name and nothing else does: its
  result is reachable by removing unit suffixes, no further suffix can be removed from it, and
  every name with these two properties is that result, so the order of the suffix table does
  not matter and the loop always ends.
\<close>

theorem NormalizeName_spec: "NormalizeName n = m \<longleftrightarrow> strips n m \<and> suffix_free m"
  using NormalizeName_strips NormalizeName_suffix_free strips_suffix_free_unique by metis

lemma NormalizeName_idem [simp]: "NormalizeName (NormalizeName n) = NormalizeName n"
  by (simp add: NormalizeName_spec strips_refl NormalizeName_suffix_free)

lemma NormalizeName_append_suffix:
  "n \<noteq> [] \<Longrightarrow> suf \<in> set unitSuffixes \<Longrightarrow> NormalizeName (n @ suf) = NormalizeName n"
  by (simp add: NormalizeName_spec strips_step NormalizeName_strips NormalizeName_suffix_free)

section \<open>The row policy as a specification\<close>

text \<open>A pod total is covered when the selection holds a container row of the same pod: the same
  namespace and pod when the total names both, the same pod name when it names no namespace.\<close>

definition covered :: "Series list \<Rightarrow> Series \<Rightarrow> bool" where
  "covered rows r \<longleftrightarrow>
     ContainerLabel (SLabels r) = [] \<and> PodLabel (SLabels r) \<noteq> [] \<and>
     list_ex (\<lambda>c. isContainerRow c \<and>
       (if NamespaceLabel (SLabels r) = [] then PodLabel (SLabels c) = PodLabel (SLabels r)
        else podRef c = podRef r)) rows"

definition unattributable :: "Series list \<Rightarrow> Series \<Rightarrow> bool" where
  "unattributable rows r \<longleftrightarrow>
     covered rows r \<and> NamespaceLabel (SLabels r) = [] \<and>
     list_ex (\<lambda>c. isContainerRow c \<and> PodLabel (SLabels c) = PodLabel (SLabels r) \<and>
       NamespaceLabel (SLabels c) \<noteq> []) rows"

lemma podRef_eq_Some:
  "podRef r = Some k \<longleftrightarrow> NamespaceLabel (SLabels r) \<noteq> [] \<and> PodLabel (SLabels r) \<noteq> [] \<and>
     k = NamespaceLabel (SLabels r) @ unitSep # PodLabel (SLabels r)"
  by (simp add: podRef_def)

lemma podRef_eq_None:
  "podRef r = None \<longleftrightarrow> NamespaceLabel (SLabels r) = [] \<or> PodLabel (SLabels r) = []"
  by (simp add: podRef_def)

lemma rollup_step_fold:
  "k |\<in>| rollupNamespaced (fold rollup_step rows st) \<longleftrightarrow>
     k |\<in>| rollupNamespaced st \<or> (\<exists>c \<in> set rows. isContainerRow c \<and> podRef c = Some k)"
  "p |\<in>| rollupPodOnly (fold rollup_step rows st) \<longleftrightarrow>
     p |\<in>| rollupPodOnly st \<or> (\<exists>c \<in> set rows. isContainerRow c \<and> p \<noteq> [] \<and> PodLabel (SLabels c) = p)"
  "p |\<in>| mixedShape (fold rollup_step rows st) \<longleftrightarrow>
     p |\<in>| mixedShape st \<or> (\<exists>c \<in> set rows. isContainerRow c \<and> p \<noteq> [] \<and> PodLabel (SLabels c) = p \<and>
       NamespaceLabel (SLabels c) \<noteq> [])"
  by (induction rows arbitrary: st)
    (auto simp: rollup_step_def Let_def podRef_eq_Some podRef_eq_None split: option.splits)

lemmas rollups_mem =
  rollup_step_fold [of _ _ "\<lparr>rollupNamespaced = {||}, rollupPodOnly = {||}, mixedShape = {||}\<rparr>",
    folded rollups_def, simplified]

lemma isSupersededRollup_covered:
  "isSupersededRollup r (rollupNamespaced (rollups rows)) (rollupPodOnly (rollups rows)) \<longleftrightarrow> covered rows r"
proof (cases "podRef r")
  case None
  then have "NamespaceLabel (SLabels r) = [] \<or> PodLabel (SLabels r) = []"
    by (simp add: podRef_eq_None)
  with None show ?thesis
    by (auto simp: isSupersededRollup_def covered_def list_ex_iff rollups_mem Let_def)
next
  case (Some key)
  then have "NamespaceLabel (SLabels r) \<noteq> []" "PodLabel (SLabels r) \<noteq> []"
    by (auto simp: podRef_eq_Some)
  with Some show ?thesis
    by (auto simp: isSupersededRollup_def covered_def list_ex_iff rollups_mem)
qed

lemma unattributable_mixed:
  "covered rows r \<Longrightarrow> unattributable rows r \<longleftrightarrow>
     NamespaceLabel (SLabels r) = [] \<and> PodLabel (SLabels r) |\<in>| mixedShape (rollups rows)"
  by (auto simp: unattributable_def list_ex_iff rollups_mem covered_def)

definition row_kept :: "Series list \<Rightarrow> Series \<Rightarrow> bool" where
  "row_kept rows r \<longleftrightarrow> \<not> isPauseRow r \<and> \<not> covered rows r"

lemma covered_not_pause: "covered rows r \<Longrightarrow> \<not> isPauseRow r"
  by (auto simp: covered_def isPauseRow_def pauseContainer_def)

lemma keep_step_spec:
  "keep_step (rollups rows) r (out, amb) =
     (if row_kept rows r then out @ [r] else out,
      if unattributable rows r then finsert (PodLabel (SLabels r)) amb else amb)"
proof (cases "covered rows r")
  case True
  then show ?thesis using covered_not_pause [OF True] unattributable_mixed [OF True]
    by (simp add: keep_step_def isSupersededRollup_covered row_kept_def Let_def)
next
  case False
  then have "\<not> unattributable rows r" by (simp add: unattributable_def)
  with False show ?thesis by (simp add: keep_step_def isSupersededRollup_covered row_kept_def)
qed

lemma keep_step_fold:
  "fold (keep_step (rollups rows)) rs (out, amb) =
     (out @ filter (row_kept rows) rs,
      fset_of_list (map (\<lambda>r. PodLabel (SLabels r)) (filter (unattributable rows) rs)) |\<union>| amb)"
  by (induction rs arbitrary: out amb) (simp_all add: keep_step_spec)

lemma summable_spec:
  "summable rows = (filter (row_kept rows) rows, length (filter (\<lambda>r. \<not> row_kept rows r) rows),
     sorted_list_of_fset (fset_of_list (map (\<lambda>r. PodLabel (SLabels r)) (filter (unattributable rows) rows))))"
  by (simp add: summable_def keep_step_fold length_filter_complement)


text \<open>
  C28. What \<open>summable\<close> leaves side by side: when a pod total and a container row with the same pod
  label are both returned, the total names a namespace and the container row names another one or
  none. So a pod is never counted twice when both rows name its namespace, when neither names one, or
  when only the total leaves it out. The remaining shape, a total that names its namespace beside a
  container row that names none, is kept by the code, which then counts the pod twice.
\<close>

theorem summable_never_counts_twice:
  assumes "summable rows = (out, excluded, ambiguous)" and "whole \<in> set out" and "part \<in> set out"
    and "ContainerLabel (SLabels whole) = []" and "PodLabel (SLabels whole) \<noteq> []"
    and "isContainerRow part" and "PodLabel (SLabels part) = PodLabel (SLabels whole)"
  shows "NamespaceLabel (SLabels whole) \<noteq> [] \<and> NamespaceLabel (SLabels part) \<noteq> NamespaceLabel (SLabels whole)"
proof (rule ccontr)
  assume t: "\<not> ?thesis"
  have out: "out = filter (row_kept rows) rows" using assms(1) by (simp add: summable_spec)
  then have "part \<in> set rows" "row_kept rows whole" using assms(2,3) by auto
  moreover from t assms(4-7) \<open>part \<in> set rows\<close> have "covered rows whole"
    by (auto simp: covered_def list_ex_iff podRef_def)
  ultimately show False by (simp add: row_kept_def)
qed

text \<open>Whether the policy takes a pod total to be covered by a container row.\<close>

definition superseded_by :: "Series \<Rightarrow> Series \<Rightarrow> bool" where
  "superseded_by whole part \<longleftrightarrow>
     ContainerLabel (SLabels whole) = [] \<and> isContainerRow part \<and> PodLabel (SLabels whole) \<noteq> [] \<and>
     PodLabel (SLabels part) = PodLabel (SLabels whole) \<and>
     (NamespaceLabel (SLabels whole) = [] \<or> NamespaceLabel (SLabels part) = NamespaceLabel (SLabels whole))"

text \<open>
  No pod disappears: every workload container row survives the policy, and so does a pod
  total (named without unit separators, as every Kubernetes name is) that no container row of
  the selection covers, for instance the only row of a pod beside another pod's
  container rows.
\<close>

theorem summable_keeps_uncovered:
  assumes "summable rows = (out, excluded, ambiguous)" and "r \<in> set rows"
    and "isContainerRow r \<or>
      (ContainerLabel (SLabels r) = [] \<and> filter (superseded_by r) rows = [] \<and>
       unitSep \<notin> set (NamespaceLabel (SLabels r)) \<and> unitSep \<notin> set (PodLabel (SLabels r)))"
  shows "r \<in> set out"
proof -
  have out: "out = filter (row_kept rows) rows" using assms(1) by (simp add: summable_spec)
  have "row_kept rows r"
  proof (cases "isContainerRow r")
    case True
    then show ?thesis by (auto simp: isContainerRow_def isPauseRow_def row_kept_def covered_def Let_def)
  next
    case False
    with assms(3) have r: "ContainerLabel (SLabels r) = []"
      "\<And>c. c \<in> set rows \<Longrightarrow> \<not> superseded_by r c"
      "unitSep \<notin> set (NamespaceLabel (SLabels r))" "unitSep \<notin> set (PodLabel (SLabels r))"
      by (auto simp: filter_empty_conv)
    have False if c: "c \<in> set rows" "isContainerRow c" and p: "PodLabel (SLabels r) \<noteq> []"
      and e: "if NamespaceLabel (SLabels r) = [] then PodLabel (SLabels c) = PodLabel (SLabels r)
        else podRef c = podRef r" for c
    proof -
      have "NamespaceLabel (SLabels r) = [] \<and> PodLabel (SLabels c) = PodLabel (SLabels r) \<or>
          NamespaceLabel (SLabels c) = NamespaceLabel (SLabels r) \<and> PodLabel (SLabels c) = PodLabel (SLabels r)"
        using e p PodKey_inject [OF _ r(3,4)] by (auto simp: podRef_def split: if_splits)
      then have "superseded_by r c" using r(1) c(2) p by (auto simp: superseded_by_def)
      with r(2) [OF c(1)] show False by simp
    qed
    with r(1) have "\<not> covered rows r" by (auto simp: covered_def list_ex_iff)
    with r(1) show ?thesis by (simp add: row_kept_def isPauseRow_def pauseContainer_def)
  qed
  with assms(2) show ?thesis by (simp add: out)
qed

section \<open>Which family wins\<close>

lemma own_name_matches: "SName s = CName c \<Longrightarrow> name_matches c s"
  by (simp add: name_matches_def)

lemma find_winner_own:
  "s \<in> set all \<Longrightarrow> SName s = CName c \<Longrightarrow> find_winner c all w = CName c"
  by (induction all arbitrary: w) (auto simp: own_name_matches)

lemma find_winner_first:
  "filter (\<lambda>s. SName s = CName c) all = [] \<Longrightarrow> find_winner c all w =
     (if w \<noteq> [] then w
      else case filter (\<lambda>s. name_matches c s \<and> SName s \<noteq> []) all of [] \<Rightarrow> [] | s # _ \<Rightarrow> SName s)"
  by (induction all arbitrary: w) (auto split: if_splits)

lemma find_winner_matches:
  "find_winner c all [] \<noteq> [] \<Longrightarrow> \<exists>s \<in> set all. SName s = find_winner c all [] \<and> name_matches c s"
proof -
  have "w \<noteq> find_winner c all w \<Longrightarrow> \<exists>s \<in> set all. SName s = find_winner c all w \<and> name_matches c s" for w
    by (induction all arbitrary: w) (auto split: if_splits)
  then show "find_winner c all [] \<noteq> [] \<Longrightarrow> ?thesis" by fastforce
qed

lemma matchFamily_SomeD:
  assumes "matchFamily c all = Some (matched, kind)"
  shows "\<exists>n. n \<noteq> [] \<and> matched = filter (\<lambda>s. SName s = n) all \<and> matched \<noteq> [] \<and>
    kind = SKind (last matched) \<and> (Exact c \<longrightarrow> n = CName c) \<and>
    NormalizeName n = NormalizeName (CName c)"
proof -
  let ?n = "find_winner c all []"
  have n: "?n \<noteq> []" "matched = filter (\<lambda>s. SName s = ?n) all" "matched \<noteq> []" "kind = SKind (last matched)"
    using assms by (auto simp: matchFamily_def Let_def split: if_splits)
  from find_winner_matches [OF n(1)] obtain s where "SName s = ?n" "name_matches c s" by blast
  then have "Exact c \<longrightarrow> ?n = CName c" "NormalizeName ?n = NormalizeName (CName c)"
    by (auto simp: name_matches_def split: if_splits)
  with n show ?thesis by blast
qed

text \<open>
  The choice of the family is not the peer's: when the exposition carries the candidate's
  own spelling, exactly that family is matched, in whatever order the peer writes its families
  and whichever other spellings share the base.
\<close>

theorem matchFamily_prefers_own_name:
  assumes "s \<in> set all" and "SName s = CName c" and "CName c \<noteq> []"
  shows "matchFamily c all =
    Some (filter (\<lambda>s. SName s = CName c) all, SKind (last (filter (\<lambda>s. SName s = CName c) all)))"
  using assms find_winner_own [OF assms(1,2), of "[]"]
  by (auto simp: matchFamily_def Let_def filter_empty_conv)

lemma matchFamily_None_iff:
  assumes "CName c \<noteq> []"
  shows "matchFamily c all = None \<longleftrightarrow> filter (\<lambda>s. name_matches c s \<and> SName s \<noteq> []) all = []"
proof
  assume none: "matchFamily c all = None"
  show "filter (\<lambda>s. name_matches c s \<and> SName s \<noteq> []) all = []"
  proof (rule ccontr)
    assume "filter (\<lambda>s. name_matches c s \<and> SName s \<noteq> []) all \<noteq> []"
    then obtain t where t: "t \<in> set all" "name_matches c t" "SName t \<noteq> []"
      by (auto simp: filter_empty_conv)
    have ne: "find_winner c all [] \<noteq> []"
    proof (cases "filter (\<lambda>s. SName s = CName c) all = []")
      case False
      then obtain s where "s \<in> set all" "SName s = CName c"
        by (auto simp: filter_empty_conv)
      then show ?thesis using find_winner_own [of s all c "[]"] assms by simp
    next
      case True
      obtain s' rest where f: "filter (\<lambda>s. name_matches c s \<and> SName s \<noteq> []) all = s' # rest"
        using t by (cases "filter (\<lambda>s. name_matches c s \<and> SName s \<noteq> []) all") (auto simp: filter_empty_conv)
      then have "SName s' \<noteq> []" by (metis (mono_tags, lifting) filter_eq_ConsD)
      with f show ?thesis using find_winner_first [OF True, of "[]"] by simp
    qed
    with find_winner_matches [OF ne] none show False
      by (auto simp: matchFamily_def Let_def filter_empty_conv split: if_splits)
  qed
next
  assume "filter (\<lambda>s. name_matches c s \<and> SName s \<noteq> []) all = []"
  then have "find_winner c all [] = []"
    using find_winner_matches [of c all] by (fastforce simp: filter_empty_conv)
  then show "matchFamily c all = None" by (simp add: matchFamily_def)
qed

lemma Select_origin:
  assumes "Select r role all = Some sel"
  shows "\<exists>pre post n. candidates r role = pre @ SelCandidate sel # post \<and>
    list_all (\<lambda>c. matchFamily c all = None) pre \<and> SelRole sel = role \<and>
    NormalizeName n = NormalizeName (CName (SelCandidate sel)) \<and>
    (Exact (SelCandidate sel) \<longrightarrow> n = CName (SelCandidate sel)) \<and>
    SelSeries sel = fst (summable (filter (\<lambda>s. SName s = n) all))"
proof -
  have "select_from role all cs = Some sel \<Longrightarrow>
      \<exists>pre post m k. cs = pre @ SelCandidate sel # post \<and> list_all (\<lambda>c. matchFamily c all = None) pre \<and>
        SelRole sel = role \<and> matchFamily (SelCandidate sel) all = Some (m, k) \<and>
        SelSeries sel = fst (summable m)" for cs
  proof (induction cs)
    case (Cons c cs)
    show ?case
    proof (cases "matchFamily c all")
      case None
      with Cons obtain pre post m k where "cs = pre @ SelCandidate sel # post"
        "list_all (\<lambda>c. matchFamily c all = None) pre" "SelRole sel = role"
        "matchFamily (SelCandidate sel) all = Some (m, k)" "SelSeries sel = fst (summable m)"
        by auto
      with None show ?thesis by (intro exI [of _ "c # pre"] exI [of _ post] exI [of _ m] exI [of _ k]) simp
    next
      case (Some mk)
      with Cons.prems show ?thesis
        by (intro exI [of _ "[]"] exI [of _ cs] exI [of _ "fst mk"] exI [of _ "snd mk"])
          (auto split: prod.splits)
    qed
  qed simp
  from this [OF assms [unfolded Select_def]] obtain pre post m k where
    *: "candidates r role = pre @ SelCandidate sel # post" "list_all (\<lambda>c. matchFamily c all = None) pre"
    "SelRole sel = role" "matchFamily (SelCandidate sel) all = Some (m, k)" "SelSeries sel = fst (summable m)"
    by blast
  from matchFamily_SomeD [OF *(4)] obtain n where "m = filter (\<lambda>s. SName s = n) all"
    "Exact (SelCandidate sel) \<longrightarrow> n = CName (SelCandidate sel)"
    "NormalizeName n = NormalizeName (CName (SelCandidate sel))" by blast
  with * show ?thesis by blast
qed

text \<open>
  \<open>Select\<close> returns the first candidate, in table order, whose family the exposition
  carries: every earlier candidate matches nothing, and all selected rows come from the one
  family of that candidate (the override's exact name, or a spelling with the same base).
\<close>

theorem Select_first_candidate:
  assumes "Select r role all = Some sel"
  shows "\<exists>pre post n. candidates r role = pre @ SelCandidate sel # post \<and>
    list_all (\<lambda>c. matchFamily c all = None) pre \<and> SelRole sel = role \<and>
    NormalizeName n = NormalizeName (CName (SelCandidate sel)) \<and>
    (Exact (SelCandidate sel) \<longrightarrow> n = CName (SelCandidate sel)) \<and>
    SelSeries sel = fst (summable (filter (\<lambda>s. SName s = n) all))"
  by (rule Select_origin [OF assms])

lemma find_winner_filter:
  assumes "\<And>s. s \<in> set all \<Longrightarrow> name_matches c s \<Longrightarrow> K s"
  shows "find_winner c (filter K all) w = find_winner c all w"
  using assms by (induction all arbitrary: w) auto

lemma matchFamily_filter:
  assumes "\<And>s. name_matches c s \<Longrightarrow> P (SName s)"
  shows "matchFamily c (filter (\<lambda>s. P (SName s)) all) = matchFamily c all"
proof -
  have w: "find_winner c (filter (\<lambda>s. P (SName s)) all) [] = find_winner c all []"
    using assms by (intro find_winner_filter)
  show ?thesis
  proof (cases "find_winner c all [] = []")
    case False
    then have "P (find_winner c all [])" using find_winner_matches assms by metis
    then have "filter (\<lambda>s. SName s = find_winner c all []) (filter (\<lambda>s. P (SName s)) all) =
        filter (\<lambda>s. SName s = find_winner c all []) all"
      unfolding filter_filter by (intro filter_cong) auto
    then show ?thesis by (simp add: matchFamily_def w Let_def)
  qed (simp add: matchFamily_def w)
qed

text \<open>
  C29. Restricting a scrape to the families \<open>CandidateNames\<close> lists loses nothing: for both
  roles and every override, \<open>Select\<close> gives the same selection on the restricted rows as on all
  the rows of the exposition.
\<close>

theorem Select_keep_lossless:
  "Select r role (filter (\<lambda>s. NormalizeName (SName s) |\<in>| CandidateNames r) all) = Select r role all"
proof -
  have "select_from role (filter (\<lambda>s. NormalizeName (SName s) |\<in>| CandidateNames r) all) cs =
      select_from role all cs" if "set cs \<subseteq> set (candidates r role)" for cs
    using that
  proof (induction cs)
    case (Cons c cs)
    have "NormalizeName (CName c) |\<in>| CandidateNames r"
      using Cons.prems by (cases role) (auto simp: CandidateNames_def fset_of_list_elem)
    then have "NormalizeName (SName s) |\<in>| CandidateNames r" if "name_matches c s" for s
      using that by (auto simp: name_matches_def split: if_splits)
    then have "matchFamily c (filter (\<lambda>s. NormalizeName (SName s) |\<in>| CandidateNames r) all) = matchFamily c all"
      by (intro matchFamily_filter [of c "\<lambda>n. NormalizeName n |\<in>| CandidateNames r"])
    with Cons show ?case by (simp split: option.split)
  qed simp
  then show ?thesis by (simp add: Select_def)
qed

lemma Select_SomeD:
  assumes "Select r role all = Some sel"
  shows "SelRole sel = role" "set (SelSeries sel) \<subseteq> set all" "SelCandidate sel \<in> set (candidates r role)"
proof -
  obtain pre post n where *: "candidates r role = pre @ SelCandidate sel # post" "SelRole sel = role"
    "SelSeries sel = fst (summable (filter (\<lambda>s. SName s = n) all))"
    using Select_origin [OF assms] by blast
  then show "SelRole sel = role" "SelCandidate sel \<in> set (candidates r role)" by simp_all
  show "set (SelSeries sel) \<subseteq> set all" by (auto simp: *(3) summable_spec)
qed

section \<open>Witnesses\<close>

text \<open>A family that carries the two containers of one pod, that pod's own total, and the only row of
  a second pod.\<close>

definition row_of :: "string \<Rightarrow> (string \<times> string) list \<Rightarrow> f64 \<Rightarrow> Series" where
  "row_of n ls v = \<lparr>SName = n, SLabels = fmap_of_list ls, SValue = v, SKind = KindGauge\<rparr>"

definition example_rows :: "Series list" where
  "example_rows =
    [row_of ''container_cpu_usage'' [(''pod'', ''api''), (''namespace'', ''ns''), (''container'', ''app'')] (Fin 1),
     row_of ''container_cpu_usage'' [(''pod'', ''api''), (''namespace'', ''ns'')] (Fin 3),
     row_of ''container_cpu_usage'' [(''pod'', ''db''), (''namespace'', ''ns'')] (Fin 5)]"

lemmas example_simps =
  example_rows_def row_of_def row_kept_def covered_def isPauseRow_def isContainerRow_def pauseContainer_def
  ContainerLabel_def PodLabel_def NamespaceLabel_def containerLabelNames_def podLabelNames_def
  namespaceLabelNames_def podRef_def PodKey_def fmget_def superseded_by_def unitSep_def

lemma summable_example:
  "summable example_rows = ([example_rows ! 0, example_rows ! 2], 1, [])"
  by (simp add: summable_spec example_simps unattributable_def Let_def)

text \<open>One pod, its total with a namespace and its container row without one: both rows are kept.\<close>

definition split_rows :: "Series list" where
  "split_rows =
    [row_of ''container_memory_working_set_bytes'' [(''pod'', ''api''), (''container'', ''app'')] (Fin 7),
     row_of ''container_memory_working_set_bytes'' [(''pod'', ''api''), (''namespace'', ''prod'')] (Fin 7)]"

lemma summable_counts_twice: "summable split_rows = (split_rows, 0, [])"
  by (simp add: summable_spec example_simps split_rows_def unattributable_def Let_def)

lemma summable_never_counts_twice_witness:
  "NamespaceLabel (SLabels (split_rows ! 1)) \<noteq> [] \<and>
   NamespaceLabel (SLabels (split_rows ! 0)) \<noteq> NamespaceLabel (SLabels (split_rows ! 1))"
  by (rule summable_never_counts_twice [OF summable_counts_twice])
    (simp_all add: split_rows_def example_simps Let_def)

lemma summable_keeps_uncovered_witness:
  "example_rows ! 2 \<in> set [example_rows ! 0, example_rows ! 2]"
  by (rule summable_keeps_uncovered [OF summable_example]) (simp_all add: example_simps Let_def)

lemma matchFamily_prefers_own_name_witness:
  "matchFamily \<lparr>CName = ''k8s_pod_cpu_time'', Scale = Fin 1000, Exact = False\<rparr>
      [row_of ''k8s_pod_cpu_time_seconds_total'' [] (Fin 1), row_of ''k8s_pod_cpu_time'' [] (Fin 2)]
    = Some ([row_of ''k8s_pod_cpu_time'' [] (Fin 2)], KindGauge)"
  using matchFamily_prefers_own_name [of "row_of ''k8s_pod_cpu_time'' [] (Fin 2)"
      "[row_of ''k8s_pod_cpu_time_seconds_total'' [] (Fin 1), row_of ''k8s_pod_cpu_time'' [] (Fin 2)]"
      "\<lparr>CName = ''k8s_pod_cpu_time'', Scale = Fin 1000, Exact = False\<rparr>"]
  by (simp add: row_of_def)

lemma Select_example:
  "Select \<lparr>CPUOverride = ''my_cpu'', MemoryOverride = []\<rparr> RoleCPU [row_of ''my_cpu'' [] (Fin 1)] =
    Some \<lparr>SelCandidate = \<lparr>CName = ''my_cpu'', Scale = Fin 1000, Exact = True\<rparr>, SelRole = RoleCPU,
      SelKind = KindGauge, SelSeries = [row_of ''my_cpu'' [] (Fin 1)], Excluded = 0, Ambiguous = []\<rparr>"
proof -
  let ?row = "row_of ''my_cpu'' [] (Fin 1)"
  have "summable [?row] = ([?row], 0, [])"
    by (simp add: summable_spec example_simps unattributable_def)
  then have "select_from RoleCPU [?row] [\<lparr>CName = ''my_cpu'', Scale = Fin 1000, Exact = True\<rparr>] =
    Some \<lparr>SelCandidate = \<lparr>CName = ''my_cpu'', Scale = Fin 1000, Exact = True\<rparr>, SelRole = RoleCPU,
      SelKind = KindGauge, SelSeries = [?row], Excluded = 0, Ambiguous = []\<rparr>"
    by (simp add: matchFamily_def name_matches_def row_of_def)
  then show ?thesis by (simp add: Select_def candidates_def cpuCandidates_def)
qed

lemma Select_first_candidate_witness:
  "\<exists>pre post. candidates \<lparr>CPUOverride = ''my_cpu'', MemoryOverride = []\<rparr> RoleCPU =
    pre @ \<lparr>CName = ''my_cpu'', Scale = Fin 1000, Exact = True\<rparr> # post"
  using Select_first_candidate [OF Select_example] by auto

end
