(* ===== verification/Fetch.thy ===== *)
theory Fetch
  imports Http Resolve "HOL-Library.Signed_Division"
begin

text \<open>
  \<open>internal/scrape/scrape.go\<close>: the client that fetches one exposition and decodes it into
  series. \<open>expfmt\<close> is third-party, so its decoder is a parameter: for a body it gives the metric
  families it yields one after the other and how it ends, with \<open>io.EOF\<close> (\<open>None\<close>) or with a
  parse error and its message. The runtime's own memory limit (\<open>debug.SetMemoryLimit(-1)\<close>) is
  a parameter as well.
\<close>

section \<open>The size caps\<close>

definition DefaultMaxBytes :: int64 where
  "DefaultMaxBytes = 8 * 1024 * 1024"

definition ExpansionFactor :: int64 where
  "ExpansionFactor = 10"

definition MaxConfigurableBytes :: int64 where
  "MaxConfigurableBytes = 16 * 1024 * 1024"

definition MaxSamples :: int where
  "MaxSamples = 50000"

text \<open>Durations are nanoseconds.\<close>

definition DefaultTimeout :: int where
  "DefaultTimeout = 10 * 1000000000"

record Client =
  ClientURL :: string
  HTTP :: "http_client option"
  MaxBytes :: int64
  MemLimit :: int64

definition noRedirect :: redirect_policy where
  "noRedirect via = UseLastResponse"

definition NewClient :: "string \<Rightarrow> int \<Rightarrow> Client" where
  "NewClient url timeout =
     (let timeout = (if timeout \<le> 0 then DefaultTimeout else timeout)
      in \<lparr>ClientURL = url, HTTP = Some \<lparr>Timeout = timeout, CheckRedirect = noRedirect\<rparr>,
          MaxBytes = DefaultMaxBytes, MemLimit = 0\<rparr>)"

definition ceiling_bytes :: "int64 \<Rightarrow> Client \<Rightarrow> int64" where
  "ceiling_bytes runtime_limit c =
     (let limit = (if sint (MemLimit c) \<le> 0 then runtime_limit else MemLimit c);
          derived = word_of_int (sint limit sdiv sint ExpansionFactor) :: int64
      in if sint derived < sint DefaultMaxBytes then DefaultMaxBytes
         else if sint MaxConfigurableBytes < sint derived then MaxConfigurableBytes
         else derived)"

definition readLimit :: "int64 \<Rightarrow> Client \<Rightarrow> int64" where
  "readLimit runtime_limit c =
     (let ceil = ceiling_bytes runtime_limit c
      in if sint (MaxBytes c) \<le> 0 \<or> sint ceil < sint (MaxBytes c) then DefaultMaxBytes
         else MaxBytes c)"

definition EffectiveMaxBytes :: "int64 \<Rightarrow> Client \<Rightarrow> int64" where
  "EffectiveMaxBytes runtime_limit c = readLimit runtime_limit c"

section \<open>Decoding\<close>

datatype MetricType = COUNTER | GAUGE | SUMMARY | UNTYPED | HISTOGRAM | GAUGE_HISTOGRAM

text \<open>\<open>dto.Metric\<close> and \<open>dto.MetricFamily\<close> as \<open>GetX\<close> reads them: a field is absent or holds its
  value.\<close>

record Metric =
  MLabel :: "(string \<times> string) list"
  MGauge :: "f64 option"
  MUntyped :: "f64 option"
  MCounter :: "f64 option"

record MetricFamily =
  MFName :: string
  MFType :: MetricType
  MFMetric :: "Metric list"

definition kindOf :: "MetricType \<Rightarrow> Kind" where
  "kindOf t = (case t of
     GAUGE \<Rightarrow> KindGauge | UNTYPED \<Rightarrow> KindGauge | COUNTER \<Rightarrow> KindCounter | _ \<Rightarrow> KindUnsupported)"

definition scalarOf :: "Metric \<Rightarrow> MetricType \<Rightarrow> f64 option" where
  "scalarOf m t =
     (case (case t of GAUGE \<Rightarrow> MGauge m | UNTYPED \<Rightarrow> MUntyped m | COUNTER \<Rightarrow> MCounter m | _ \<Rightarrow> None) of
        None \<Rightarrow> None
      | Some v \<Rightarrow> if \<not> IsFinite v then None else Some v)"

definition labels_of :: "(string \<times> string) list \<Rightarrow> (string, string) fmap" where
  "labels_of lps = fold (\<lambda>(n, v) ls. fmupd n v ls) lps fmempty"

text \<open>The row loop of \<open>seriesFromFamily\<close>; \<open>None\<close> is \<open>ok == false\<close>.\<close>

fun family_loop :: "MetricFamily \<Rightarrow> int \<Rightarrow> Metric list \<Rightarrow> Series list \<Rightarrow> Series list option" where
  "family_loop mf budget [] out = Some out"
| "family_loop mf budget (m # ms) out =
     (case scalarOf m (MFType mf) of
        None \<Rightarrow> family_loop mf budget ms out
      | Some v \<Rightarrow>
          if budget \<le> int (length out) then None
          else family_loop mf budget ms
            (out @ [\<lparr>SName = MFName mf, SLabels = labels_of (MLabel m), SValue = v, SKind = kindOf (MFType mf)\<rparr>]))"

definition seriesFromFamily :: "MetricFamily \<Rightarrow> int \<Rightarrow> Series list option" where
  "seriesFromFamily mf budget =
     (if kindOf (MFType mf) = KindUnsupported then Some []
      else family_loop mf budget (MFMetric mf) [])"

datatype scrape_error =
    ErrBuildRequest string
  | ErrRequestFailed string
  | ErrStatus nat string string
  | ErrReadBody string
  | ErrBodyTooLarge
  | ErrDecode string
  | ErrTooManySamples

fun decode_loop :: "string fset \<Rightarrow> string option \<Rightarrow> MetricFamily list \<Rightarrow> Series list \<Rightarrow>
    (scrape_error, Series list) result" where
  "decode_loop keep ending [] out =
     (case ending of None \<Rightarrow> Inr out | Some msg \<Rightarrow> Inl (ErrDecode (ForLog msg)))"
| "decode_loop keep ending (mf # mfs) out =
     (if 0 < fcard keep \<and> NormalizeName (MFName mf) |\<notin>| keep then decode_loop keep ending mfs out
      else case seriesFromFamily mf (MaxSamples - int (length out)) of
        None \<Rightarrow> Inl ErrTooManySamples
      | Some rows \<Rightarrow> decode_loop keep ending mfs (out @ rows))"

text \<open>\<open>expfmt.NewDecoder\<close>, from the format and the body to the families it yields and how it ends.\<close>

type_synonym expfmt_decoder = "string \<Rightarrow> string \<Rightarrow> MetricFamily list \<times> string option"

definition decode :: "expfmt_decoder \<Rightarrow> string \<Rightarrow> string \<Rightarrow> string fset \<Rightarrow> (scrape_error, Series list) result" where
  "decode dec format body keep = (let (mfs, ending) = dec format body in decode_loop keep ending mfs [])"

section \<open>Fetching\<close>

text \<open>\<open>env_text_format\<close> is \<open>expfmt.NewFormat(expfmt.TypeTextPlain)\<close>. A request sent is recorded with its
  \<open>Accept\<close> header.\<close>

record scrape_env = http_env +
  env_decoder :: expfmt_decoder
  env_text_format :: string
  env_memory_limit :: int64

record scrape_request =
  sr_url :: string
  sr_accept :: string

definition read_response ::
    "scrape_env \<Rightarrow> Client \<Rightarrow> string \<Rightarrow> string fset \<Rightarrow> http_response \<Rightarrow> (scrape_error, Series list) result" where
  "read_response env c requested keep resp =
     (if 300 \<le> StatusCode resp then
        (let (snippet, _) = ReadAllLimited (RespBody resp) (int SnippetBytes)
         in Inl (ErrStatus (StatusCode resp) (Sanitize (Truncate (RespStatus resp) StatusPhraseBytes))
              (Sanitize snippet)))
      else let limit = readLimit (env_memory_limit env) c;
               (body, err) = ReadAllLimited (RespBody resp) (sint (limit + 1))
           in case err of
             Some e \<Rightarrow> Inl (ErrReadBody (ForLog (err_string (env_quote env) e)))
           | None \<Rightarrow>
               if sint limit < int (length body) then Inl ErrBodyTooLarge
               else decode (env_decoder env) requested body keep)"

definition Fetch :: "scrape_env \<Rightarrow> Client \<Rightarrow> string fset \<Rightarrow> scrape_request list \<times> (scrape_error, Series list) result" where
  "Fetch env c keep =
     (case env_new_request env (ClientURL c) of
        Some e \<Rightarrow> ([], Inl (ErrBuildRequest (ForLog (TransportReason (env_quote env) e))))
      | None \<Rightarrow>
          (let requested = env_text_format env;
               client = (case HTTP c of
                 Some h \<Rightarrow> h
               | None \<Rightarrow> \<lparr>Timeout = DefaultTimeout, CheckRedirect = noRedirect\<rparr>);
               (urls, r) = Do client (env_send env) ''Get'' (ClientURL c)
           in (map (\<lambda>url. \<lparr>sr_url = url, sr_accept = requested\<rparr>) urls, case r of
                 Inl e \<Rightarrow> Inl (ErrRequestFailed (ForLog (TransportReason (env_quote env) e)))
               | Inr resp \<Rightarrow> read_response env c requested keep resp)))"

text \<open>The error texts.\<close>

fun scrape_error_text :: "scrape_error \<Rightarrow> string" where
  "scrape_error_text (ErrBuildRequest s) = ''scrape: build request: '' @ s"
| "scrape_error_text (ErrRequestFailed s) = ''scrape: request failed: '' @ s"
| "scrape_error_text (ErrStatus code phrase snippet) =
     ''scrape: endpoint returned '' @ Itoa code @ '' '' @ phrase @ '': '' @ snippet"
| "scrape_error_text (ErrReadBody s) = ''scrape: read body: '' @ s"
| "scrape_error_text ErrBodyTooLarge = ''scrape: exposition body exceeds the configured size cap''"
| "scrape_error_text (ErrDecode s) = ''scrape: decode exposition: '' @ s"
| "scrape_error_text ErrTooManySamples = ''scrape: exposition exceeds the maximum number of series''"

section \<open>The read limit\<close>

lemma byte_caps [simp]:
  "sint DefaultMaxBytes = 8388608" "sint ExpansionFactor = 10" "sint MaxConfigurableBytes = 16777216"
  by (simp_all add: DefaultMaxBytes_def ExpansionFactor_def MaxConfigurableBytes_def)

lemma ceiling_bytes_range: "8388608 \<le> sint (ceiling_bytes rt c)" "sint (ceiling_bytes rt c) \<le> 16777216"
  by (auto simp: ceiling_bytes_def Let_def)

lemma readLimit_range: "0 < sint (readLimit rt c)" "sint (readLimit rt c) \<le> 16777216"
  using ceiling_bytes_range [of rt c] by (auto simp: readLimit_def Let_def)

lemma readLimit_succ: "sint (readLimit rt c + 1) = sint (readLimit rt c) + 1"
proof -
  have "sint (1 :: int64) = 1" by simp
  then show ?thesis using readLimit_range [of rt c] sint_int64_add [of "readLimit rt c" 1] by simp
qed

text \<open>
  C32. The body cap is safe for every configured value, also for \<open>math.MaxInt64\<close>: the limit is
  positive, at most \<open>MaxConfigurableBytes\<close>, and adding one to it does not wrap around, so the
  reader is never given a negative limit and an empty body in consequence. The configured
  value is honoured exactly when it is positive and within the ceiling derived from the memory
  limit, which itself never undercuts the default.
\<close>

theorem readLimit_safe:
  "0 < sint (readLimit rt c) \<and> sint (readLimit rt c) \<le> sint MaxConfigurableBytes \<and>
   sint (readLimit rt c + 1) = sint (readLimit rt c) + 1 \<and>
   sint DefaultMaxBytes \<le> sint (ceiling_bytes rt c) \<and>
   EffectiveMaxBytes rt c =
     (if 0 < sint (MaxBytes c) \<and> sint (MaxBytes c) \<le> sint (ceiling_bytes rt c) then MaxBytes c
      else DefaultMaxBytes)"
  using readLimit_range [of rt c] readLimit_succ [of rt c] ceiling_bytes_range [of rt c]
  by (auto simp: EffectiveMaxBytes_def readLimit_def Let_def)

section \<open>What decoding yields\<close>

definition family_rows :: "MetricFamily \<Rightarrow> Series list" where
  "family_rows mf =
     (if kindOf (MFType mf) = KindUnsupported then []
      else List.map_filter (\<lambda>m. map_option (\<lambda>v. \<lparr>SName = MFName mf, SLabels = labels_of (MLabel m),
         SValue = v, SKind = kindOf (MFType mf)\<rparr>) (scalarOf m (MFType mf))) (MFMetric mf))"

definition admitted :: "string fset \<Rightarrow> MetricFamily \<Rightarrow> bool" where
  "admitted keep mf \<longleftrightarrow> keep = {||} \<or> NormalizeName (MFName mf) |\<in>| keep"

lemma family_loop_spec:
  "int (length out) \<le> budget \<Longrightarrow> family_loop mf budget ms out =
     (let rows = List.map_filter (\<lambda>m. map_option (\<lambda>v. \<lparr>SName = MFName mf, SLabels = labels_of (MLabel m),
         SValue = v, SKind = kindOf (MFType mf)\<rparr>) (scalarOf m (MFType mf))) ms
      in if budget < int (length out + length rows) then None else Some (out @ rows))"
  by (induction mf budget ms out rule: family_loop.induct)
    (auto simp: List.map_filter_simps Let_def split: option.splits)

lemma seriesFromFamily_spec:
  assumes "0 \<le> budget"
  shows "seriesFromFamily mf budget =
    (if budget < int (length (family_rows mf)) then None else Some (family_rows mf))"
  using assms by (simp add: seriesFromFamily_def family_rows_def family_loop_spec Let_def)

lemma decode_loop_spec:
  "int (length out) \<le> MaxSamples \<Longrightarrow> decode_loop keep ending mfs out =
     (let rows = out @ concat (map family_rows (filter (admitted keep) mfs))
      in if MaxSamples < int (length rows) then Inl ErrTooManySamples
         else case ending of None \<Rightarrow> Inr rows | Some msg \<Rightarrow> Inl (ErrDecode (ForLog msg)))"
proof (induction mfs arbitrary: out)
  case (Cons mf mfs)
  have a: "admitted keep mf \<longleftrightarrow> \<not> (0 < fcard keep \<and> NormalizeName (MFName mf) |\<notin>| keep)"
    by (auto simp: admitted_def fcard_pos_iff)
  show ?case
  proof (cases "admitted keep mf")
    case False
    with Cons a show ?thesis by simp
  next
    case True
    with Cons.prems Cons.IH [of "out @ family_rows mf"] a show ?thesis
      by (auto simp: seriesFromFamily_spec Let_def)
  qed
qed (simp split: option.split)

text \<open>
  C13. Decoding is all or nothing: the result is exactly the concatenation, in order, of the
  finite scalar rows of the admitted families; when these are more than \<open>MaxSamples\<close> the scrape
  fails with \<open>ErrTooManySamples\<close>, and when the parser stops on an error it fails with that error
  in bounded printable form. No prefix of the series is ever returned.
\<close>

theorem decode_spec:
  "decode dec format body keep =
     (let rows = concat (map family_rows (filter (admitted keep) (fst (dec format body))))
      in if MaxSamples < int (length rows) then Inl ErrTooManySamples
         else case snd (dec format body) of None \<Rightarrow> Inr rows | Some msg \<Rightarrow> Inl (ErrDecode (ForLog msg)))"
  by (cases "dec format body") (simp add: decode_def decode_loop_spec MaxSamples_def Let_def)

lemma family_rows_finite: "s \<in> set (family_rows mf) \<Longrightarrow> IsFinite (SValue s) \<and> SKind s \<noteq> KindUnsupported \<and> SName s = MFName mf"
  by (auto simp: family_rows_def List.map_filter_def scalarOf_def split: if_splits option.splits)

lemma decode_InrD:
  assumes "decode dec format body keep = Inr rows"
  shows "int (length rows) \<le> MaxSamples" "list_all (\<lambda>s. IsFinite (SValue s) \<and> SKind s \<noteq> KindUnsupported) rows"
    "list_all (\<lambda>s. keep = {||} \<or> NormalizeName (SName s) |\<in>| keep) rows"
    "rows = concat (map family_rows (filter (admitted keep) (fst (dec format body))))" "snd (dec format body) = None"
proof -
  have *: "\<not> MaxSamples < int (length (concat (map family_rows (filter (admitted keep) (fst (dec format body))))))"
    "rows = concat (map family_rows (filter (admitted keep) (fst (dec format body))))" "snd (dec format body) = None"
    using assms by (cases "dec format body"; simp add: decode_def decode_loop_spec MaxSamples_def Let_def
      split: if_splits option.splits)+
  from * show "int (length rows) \<le> MaxSamples" "snd (dec format body) = None"
    "rows = concat (map family_rows (filter (admitted keep) (fst (dec format body))))" by simp_all
  show "list_all (\<lambda>s. IsFinite (SValue s) \<and> SKind s \<noteq> KindUnsupported) rows"
    using family_rows_finite by (fastforce simp: *(2) list_all_iff)
  show "list_all (\<lambda>s. keep = {||} \<or> NormalizeName (SName s) |\<in>| keep) rows"
    using family_rows_finite by (fastforce simp: *(2) list_all_iff admitted_def)
qed

section \<open>What a fetch promises\<close>

lemma Fetch_NewClient:
  "Fetch env (NewClient url timeout) keep =
    (case env_new_request env url of
       Some e \<Rightarrow> ([], Inl (ErrBuildRequest (ForLog (TransportReason (env_quote env) e))))
     | None \<Rightarrow> ([\<lparr>sr_url = url, sr_accept = env_text_format env\<rparr>], case env_send env url of
         Inl e \<Rightarrow> Inl (ErrRequestFailed (ForLog (TransportReason (env_quote env) (URLError ''Get'' url (Some e)))))
       | Inr resp \<Rightarrow> (case unfollowed ''Get'' url resp of
             Inl e \<Rightarrow> Inl (ErrRequestFailed (ForLog (TransportReason (env_quote env) e)))
           | Inr resp \<Rightarrow> read_response env (NewClient url timeout) (env_text_format env) keep resp)))"
  by (simp add: Fetch_def NewClient_def Let_def Do_no_redirect noRedirect_def [abs_def]
      split: option.split sum.split)

lemma read_response_InrD:
  assumes "read_response env c requested keep resp = Inr rows"
  shows "StatusCode resp < 300" "body_error (RespBody resp) = None"
    "int (length (body_bytes (RespBody resp))) \<le> sint (readLimit (env_memory_limit env) c)"
    "decode (env_decoder env) requested (body_bytes (RespBody resp)) keep = Inr rows"
proof -
  let ?l = "readLimit (env_memory_limit env) c"
  from assms obtain body where b: "StatusCode resp < 300"
    "ReadAllLimited (RespBody resp) (sint (?l + 1)) = (body, None)"
    "int (length body) \<le> sint ?l" "decode (env_decoder env) requested body keep = Inr rows"
    by (auto simp: read_response_def Let_def split: if_splits prod.splits option.splits)
  have "body = body_bytes (RespBody resp) \<and> body_error (RespBody resp) = None"
    using ReadAllLimited_whole [OF _ b(2)] b(3) readLimit_range [of "env_memory_limit env" c]
    by (simp add: readLimit_succ)
  with b show "StatusCode resp < 300" "body_error (RespBody resp) = None"
    "int (length (body_bytes (RespBody resp))) \<le> sint ?l"
    "decode (env_decoder env) requested (body_bytes (RespBody resp)) keep = Inr rows" by simp_all
qed

lemma Fetch_origin:
  assumes "snd (Fetch env c keep) = Inr rows"
  shows "\<exists>resp. read_response env c (env_text_format env) keep resp = Inr rows"
  using assms by (auto simp: Fetch_def Let_def split: option.splits prod.splits sum.splits)

lemma Fetch_rows:
  assumes "snd (Fetch env c keep) = Inr rows"
  shows "int (length rows) \<le> MaxSamples" "list_all (\<lambda>s. IsFinite (SValue s) \<and> SKind s \<noteq> KindUnsupported) rows"
    "list_all (\<lambda>s. keep = {||} \<or> NormalizeName (SName s) |\<in>| keep) rows"
proof -
  obtain resp :: http_response where "decode (env_decoder env) (env_text_format env) (body_bytes (RespBody resp)) keep = Inr rows"
    using Fetch_origin [OF assms] read_response_InrD(4) by blast
  note d = decode_InrD [OF this]
  show "int (length rows) \<le> MaxSamples" "list_all (\<lambda>s. IsFinite (SValue s) \<and> SKind s \<noteq> KindUnsupported) rows"
    "list_all (\<lambda>s. keep = {||} \<or> NormalizeName (SName s) |\<in>| keep) rows"
    by (rule d(1-3))+
qed

text \<open>
  C33. A scrape that succeeds decoded the whole exposition: the peer answered with a status
  below 300, its body ended without an error within the read limit, and the series are the
  decoding, in the format that was asked for, of all of its bytes, never of a truncated prefix.
\<close>

theorem Fetch_success_complete:
  assumes "snd (Fetch env (NewClient url timeout) keep) = Inr rows"
  shows "\<exists>resp. env_send env url = Inr resp \<and> StatusCode resp < 300 \<and>
    body_error (RespBody resp) = None \<and>
    length (body_bytes (RespBody resp)) \<le> 16 * 1024 * 1024 \<and>
    decode (env_decoder env) (env_text_format env) (body_bytes (RespBody resp)) keep = Inr rows"
proof -
  from assms obtain resp where r: "env_send env url = Inr resp"
    "read_response env (NewClient url timeout) (env_text_format env) keep resp = Inr rows"
    by (auto simp: Fetch_NewClient split: option.splits sum.splits dest: unfollowed_simps(2))
  with read_response_InrD [OF r(2)] readLimit_range [of "env_memory_limit env" "NewClient url timeout"]
  show ?thesis by (intro exI [of _ resp]) auto
qed

text \<open>
  Every series a scrape returns, whatever client and peer, is a finite gauge or counter
  row of an admitted family, and there are at most \<open>MaxSamples\<close> of them: no NaN or infinity of
  the peer passes the decoder.
\<close>

theorem Fetch_series_finite:
  "case snd (Fetch env c keep) of
     Inl _ \<Rightarrow> True
   | Inr rows \<Rightarrow> length rows \<le> 50000 \<and>
       filter (\<lambda>s. \<not> IsFinite (SValue s) \<or> SKind s = KindUnsupported) rows = [] \<and>
       filter (\<lambda>s. keep \<noteq> {||} \<and> NormalizeName (SName s) |\<notin>| keep) rows = []"
  using Fetch_rows [of env c keep]
  by (auto split: sum.split simp: MaxSamples_def filter_empty_conv list_all_iff)

text \<open>
  C14. The scrape client contacts the configured URL and nothing else, whatever the peer answers: it
  makes exactly one request, to that URL and asking for the text format, when the request can be built,
  and none otherwise. A redirect is never followed, so the peer cannot choose where the agent connects
  next: it comes back as the response itself, an \<open>ErrStatus\<close> with its code, its bounded phrase and a
  bounded snippet of its body, except that \<open>net/http\<close> refuses one with an unparsable \<open>Location\<close> before
  it asks for the policy, which is an \<open>ErrRequestFailed\<close> with the bounded text of that error.
\<close>

theorem Fetch_contacts_only_url:
  "fst (Fetch env (NewClient url timeout) keep) =
     (if env_new_request env url = None then [\<lparr>sr_url = url, sr_accept = env_text_format env\<rparr>] else []) \<and>
   (case (env_new_request env url, env_send env url) of
      (None, Inr resp) \<Rightarrow>
        if is_redirect (StatusCode resp) then
          snd (Fetch env (NewClient url timeout) keep) = Inl (case Location resp of
            Some (Inl msg) \<Rightarrow> ErrRequestFailed (ForLog msg)
          | _ \<Rightarrow> ErrStatus (StatusCode resp) (Sanitize (Truncate (RespStatus resp) StatusPhraseBytes))
              (Sanitize (fst (ReadAllLimited (RespBody resp) (int SnippetBytes)))))
        else True
    | _ \<Rightarrow> True)"
proof -
  have r: "read_response env c requested keep resp = Inl (ErrStatus (StatusCode resp)
      (Sanitize (Truncate (RespStatus resp) StatusPhraseBytes))
      (Sanitize (fst (ReadAllLimited (RespBody resp) (int SnippetBytes)))))"
    if "is_redirect (StatusCode resp)" for c requested resp
    using that by (auto simp: read_response_def is_redirect_def split_beta)
  show ?thesis
    by (auto simp: Fetch_NewClient unfollowed_def r TransportReason_def split: option.split sum.split)
qed

lemma Itoa_printable: "c \<in> set (Itoa n) \<Longrightarrow> printable (byte c)"
  using Itoa_digits [of n] by (auto simp: list_all_iff IsDigit_def printable_def)

lemma ForLog_printable: "c \<in> set (ForLog s) \<Longrightarrow> printable (byte c)"
  unfolding ForLog_def by (rule Sanitize_printable)

text \<open>Where an error of a fetch comes from, with what a peer chose in bounded printable form.\<close>

lemma Fetch_error_cases:
  assumes "snd (Fetch env c keep) = Inl e"
  obtains a where "e = ErrBuildRequest (ForLog a)" | a where "e = ErrRequestFailed (ForLog a)"
    | code phrase snippet where "e = ErrStatus code (Sanitize (Truncate phrase StatusPhraseBytes)) (Sanitize snippet)"
        "length snippet \<le> SnippetBytes"
    | a where "e = ErrReadBody (ForLog a)" | "e = ErrBodyTooLarge" | "e = ErrTooManySamples"
    | a where "e = ErrDecode (ForLog a)"
proof -
  consider a where "e = ErrBuildRequest (ForLog a)" | a where "e = ErrRequestFailed (ForLog a)"
    | requested resp where "read_response env c requested keep resp = Inl e"
    using assms by (auto simp: Fetch_def Let_def split: option.splits prod.splits sum.splits)
  then show thesis
  proof cases
    case (3 requested resp)
    have l: "length (fst (ReadAllLimited (RespBody resp) (int SnippetBytes))) \<le> SnippetBytes"
      using length_ReadAllLimited [of "RespBody resp" "int SnippetBytes"] by simp
    show thesis
    proof (cases "300 \<le> StatusCode resp")
      case True
      with 3 have "e = ErrStatus (StatusCode resp) (Sanitize (Truncate (RespStatus resp) StatusPhraseBytes))
          (Sanitize (fst (ReadAllLimited (RespBody resp) (int SnippetBytes))))"
        by (simp add: read_response_def split_beta)
      then show thesis using l that(3) by blast
    next
      case False
      with 3 that(4-7) show thesis
        by (auto simp: read_response_def decode_def decode_loop_spec MaxSamples_def Let_def
            split: if_splits prod.splits option.splits)
    qed
  qed (use that in blast)+
qed

definition unprintable :: "string \<Rightarrow> string" where
  "unprintable s = filter (\<lambda>c. byte c < 32 \<or> 126 < byte c) s"

lemma unprintable_simps [simp]:
  "unprintable [] = []" "unprintable (c # s) = (if byte c < 32 \<or> 126 < byte c then c # unprintable s else unprintable s)"
  "unprintable (s @ t) = unprintable s @ unprintable t"
  by (simp_all add: unprintable_def)

lemma unprintable_clean [simp]: "unprintable (ForLog s) = []" "unprintable (Sanitize s) = []" "unprintable (Itoa n) = []"
  using ForLog_printable Sanitize_printable Itoa_printable by (auto simp: unprintable_def filter_empty_conv printable_def)

lemma length_clean: "length (ForLog s) \<le> 256" "length (Sanitize (Truncate s n)) \<le> n" "length (Sanitize s) \<le> length s"
  using ForLog_bounded_printable [of s] length_Sanitize [of "Truncate s n"] length_Truncate [of s n] length_Sanitize [of s] by auto

lemma Fetch_error_safe:
  assumes "snd (Fetch env c keep) = Inl e"
  shows "unprintable (scrape_error_text e) = [] \<and>
    length (scrape_error_text e) \<le> 512 + (case e of ErrStatus code _ _ \<Rightarrow> length (Itoa code) | _ \<Rightarrow> 0)"
  using assms
proof (cases rule: Fetch_error_cases)
  case (3 code phrase snippet)
  then show ?thesis
    using length_clean(2) [of phrase StatusPhraseBytes] length_clean(3) [of snippet] by (simp add: StatusPhraseBytes_def SnippetBytes_def)
qed (use length_clean(1) in \<open>auto intro: order.trans [OF length_clean(1)]\<close>)

section \<open>Witnesses\<close>

definition example_env :: scrape_env where
  "example_env = \<lparr>env_new_request = (\<lambda>_. None),
     env_send = (\<lambda>_. Inr \<lparr>StatusCode = 200, RespStatus = ''200 OK'', Location = None,
        RespBody = \<lparr>body_bytes = ''up 1'', body_error = None\<rparr>\<rparr>),
     env_quote = (\<lambda>u. u),
     env_decoder = (\<lambda>_ _. ([\<lparr>MFName = ''up'', MFType = GAUGE,
        MFMetric = [\<lparr>MLabel = [], MGauge = Some (Fin 1), MUntyped = None, MCounter = None\<rparr>]\<rparr>], None)),
     env_text_format = ''text/plain; version=0.0.4'', env_memory_limit = - 1\<rparr>"

lemma Fetch_example:
  "snd (Fetch example_env (NewClient ''http://c/metrics'' 0) {||}) =
    Inr [\<lparr>SName = ''up'', SLabels = fmempty, SValue = Fin 1, SKind = KindGauge\<rparr>]"
  unfolding Fetch_NewClient
  by (simp add: example_env_def unfollowed_simps(1) read_response_def ReadAllLimited_def readLimit_succ Let_def
      readLimit_def NewClient_def ceiling_bytes_def decode_def decode_loop_spec MaxSamples_def
      family_rows_def kindOf_def List.map_filter_simps scalarOf_def labels_of_def admitted_def)

lemma Fetch_success_complete_witness:
  "\<exists>resp. env_send example_env ''http://c/metrics'' = Inr resp \<and> StatusCode resp < 300"
  using Fetch_success_complete [OF Fetch_example] by blast

end
