(* ===== verification/K8s.thy ===== *)
theory K8s
  imports Types Fetch
begin

text \<open>
  \<open>internal/agent/k8s.go\<close>: the read-only Kubernetes surface. The API objects come from the
  Kubernetes client libraries; the records below hold the fields the agent reads. The cluster
  and its API server are parameters: what a \<open>List\<close> call answers (\<open>kube_client\<close>), and
  \<open>metav1.LabelSelectorAsSelector\<close> (\<open>as_selector\<close>), whose result is read through \<open>Empty\<close> and
  \<open>String\<close>. A quantity is read by \<open>MilliValue\<close> or \<open>Value\<close>, 64-bit integers.
\<close>

section \<open>API objects\<close>

record Pod =
  PodName :: string
  RestartCounts :: "int32 list"

record LabelSelector =
  MatchLabels :: "(string, string) fmap"
  MatchExpressions :: "(string \<times> string \<times> string list) list"

record Selector =
  sel_empty :: bool
  sel_string :: string

record Deployment =
  DName :: string
  DAnnotations :: "(string, string) fmap"
  DReplicas :: "int32 option"
  DReadyReplicas :: int32
  DSelector :: "LabelSelector option"

record ContainerUsage =
  UCpuMilli :: int64
  UMemBytes :: int64

type_synonym PodMetrics = "ContainerUsage list"

text \<open>Errors of the agent package. An API error keeps whether it is a NotFound status.\<close>

datatype agent_error =
    SourceUnavailable
  | MetricsAPIUnavailable
  | MetricsReadsAllFailed
  | ApiError bool string
  | ScrapeError scrape_error
  | OtherError string

text \<open>\<open>errors.Is(err, ErrSourceUnavailable)\<close> and \<open>errors.Is(err, ErrMetricsAPIUnavailable)\<close>: the
  first error is wrapped by both package errors.\<close>

fun is_source_unavailable :: "agent_error \<Rightarrow> bool" where
  "is_source_unavailable SourceUnavailable = True"
| "is_source_unavailable MetricsAPIUnavailable = True"
| "is_source_unavailable MetricsReadsAllFailed = True"
| "is_source_unavailable _ = False"

definition isMetricsAPIMissing :: "agent_error \<Rightarrow> bool" where
  "isMetricsAPIMissing e = (case e of ApiError not_found _ \<Rightarrow> not_found | _ \<Rightarrow> False)"

section \<open>Reading Deployments and Pods\<close>

definition AnnotationService :: string where
  "AnnotationService = ''zensu.dev/service''"

definition MapDeployment :: "Deployment \<Rightarrow> ServiceHeartbeat option" where
  "MapDeployment d =
     (let slug = fmget [] (DAnnotations d) AnnotationService in
      if slug = [] then None
      else let ready = DReadyReplicas d;
               desired = (case DReplicas d of None \<Rightarrow> 0 | Some n \<Rightarrow> n)
           in Some \<lparr>Slug = slug, Name = DName d, Status = DeriveStatus ready desired,
                ReadyReplicas = Some ready, DesiredReplicas = Some desired,
                RestartCount = None, IntervalSeconds = 0, Metrics = []\<rparr>)"

definition deploymentSelector ::
    "(LabelSelector \<Rightarrow> (string, Selector) result) \<Rightarrow> Deployment \<Rightarrow> string" where
  "deploymentSelector as_selector d =
     (case DSelector d of
        None \<Rightarrow> []
      | Some ls \<Rightarrow> (case as_selector ls of
          Inl err \<Rightarrow> []
        | Inr sel \<Rightarrow> if sel_empty sel then [] else sel_string sel))"

definition podNames :: "Pod list \<Rightarrow> string list" where
  "podNames pods = map PodName pods"

definition sumRestarts :: "Pod list \<Rightarrow> int32" where
  "sumRestarts pods = fold (\<lambda>p total. fold (\<lambda>c total. total + c) (RestartCounts p) total) pods 0"

definition sumPodMetrics :: "PodMetrics list \<Rightarrow> int64 \<times> int64" where
  "sumPodMetrics items =
     fold (\<lambda>pm acc. fold (\<lambda>u (cpu, mem). (cpu + UCpuMilli u, mem + UMemBytes u)) pm acc) items (0, 0)"

section \<open>The cluster reader\<close>

record kube_client =
  kc_deployments :: "string \<Rightarrow> (agent_error, Deployment list) result"
  kc_pods :: "string \<Rightarrow> string \<Rightarrow> (agent_error, Pod list) result"
  kc_metrics :: "(string \<Rightarrow> string \<Rightarrow> (agent_error, PodMetrics list) result) option"

definition ListDeployments :: "kube_client \<Rightarrow> string \<Rightarrow> (agent_error, Deployment list) result" where
  "ListDeployments l ns = (case kc_deployments l ns of Inl e \<Rightarrow> Inl e | Inr items \<Rightarrow> Inr items)"

definition ListPods :: "kube_client \<Rightarrow> string \<Rightarrow> string \<Rightarrow> (agent_error, Pod list) result" where
  "ListPods l ns sel = (case kc_pods l ns sel of Inl e \<Rightarrow> Inl e | Inr items \<Rightarrow> Inr items)"

type_synonym pod_metrics_reply = "int64 \<times> int64 \<times> bool \<times> agent_error option"

definition PodMetricsForSelector :: "kube_client \<Rightarrow> string \<Rightarrow> string \<Rightarrow> pod_metrics_reply" where
  "PodMetricsForSelector l ns sel =
     (case kc_metrics l of
        None \<Rightarrow> (0, 0, False, Some MetricsAPIUnavailable)
      | Some read \<Rightarrow> (case read ns sel of
          Inl e \<Rightarrow> (0, 0, False, Some (if isMetricsAPIMissing e then MetricsAPIUnavailable else e))
        | Inr items \<Rightarrow>
            if items = [] then (0, 0, False, None)
            else let (cpu, mem) = sumPodMetrics items in (cpu, mem, True, None)))"

text \<open>\<open>NewClientsetLister\<close> and \<open>NewInClusterLister\<close>: the in-cluster configuration and the two client
  constructors belong to the Kubernetes libraries, each may fail. A client is what its \<open>List\<close>
  calls answer.\<close>

type_synonym core_client =
  "(string \<Rightarrow> (agent_error, Deployment list) result) \<times> (string \<Rightarrow> string \<Rightarrow> (agent_error, Pod list) result)"

type_synonym metrics_client = "string \<Rightarrow> string \<Rightarrow> (agent_error, PodMetrics list) result"

definition NewClientsetLister :: "core_client \<Rightarrow> metrics_client option \<Rightarrow> kube_client" where
  "NewClientsetLister client metrics =
     \<lparr>kc_deployments = fst client, kc_pods = snd client, kc_metrics = metrics\<rparr>"

definition NewInClusterLister :: "(string, 'cfg) result \<Rightarrow> ('cfg \<Rightarrow> (string, core_client) result) \<Rightarrow>
    ('cfg \<Rightarrow> (string, metrics_client) result) \<Rightarrow> (string, kube_client) result" where
  "NewInClusterLister in_cluster new_client new_metrics =
     (case in_cluster of
        Inl e \<Rightarrow> Inl (''in-cluster config: '' @ e)
      | Inr c \<Rightarrow> (case new_client c of
          Inl e \<Rightarrow> Inl (''kubernetes client: '' @ e)
        | Inr client \<Rightarrow> (case new_metrics c of
            Inl e \<Rightarrow> Inl (''metrics client: '' @ e)
          | Inr metrics \<Rightarrow> Inr \<lparr>kc_deployments = fst client, kc_pods = snd client, kc_metrics = Some metrics\<rparr>)))"

section \<open>Sums\<close>

lemma sum_list_word: "word_of_int (sum_list (map sint ws)) = sum_list (ws :: 'a :: len word list)"
  by (induction ws) simp_all

lemma sumRestarts_sum: "sumRestarts pods = sum_list (concat (map RestartCounts pods))"
proof -
  have inner: "fold (+) cs t = t + sum_list cs" for cs and t :: int32
    by (induction cs arbitrary: t) (simp_all add: ac_simps)
  have "fold (\<lambda>p total. fold (\<lambda>c total. total + c) (RestartCounts p) total) pods t =
      t + sum_list (concat (map RestartCounts pods))" for t
    by (induction pods arbitrary: t) (simp_all add: inner ac_simps)
  then show ?thesis by (simp add: sumRestarts_def)
qed

text \<open>
  \<open>sumRestarts\<close> is the sum of every container's restart count in 32-bit arithmetic, for
  every number of pods and containers: the number it reports is the mathematical sum reduced into
  the signed 32-bit range, so it is that sum itself until it passes \<open>2^31 - 1\<close> and then wraps.
\<close>

theorem sumRestarts_exact:
  "let total_restarts = sum_list (map sint (concat (map RestartCounts pods)))
   in sumRestarts pods = word_of_int total_restarts \<and>
      sint (sumRestarts pods) = (total_restarts + 2 ^ 31) mod 2 ^ 32 - 2 ^ 31"
proof -
  have e: "sumRestarts pods = word_of_int (sum_list (map sint (concat (map RestartCounts pods))))"
    by (simp only: sumRestarts_sum sum_list_word)
  have "sint (word_of_int i :: int32) = (i + 2 ^ 31) mod 2 ^ 32 - 2 ^ 31" for i
    by (simp add: sint_sbintrunc' signed_take_bit_eq_take_bit_shift take_bit_eq_mod)
  then show ?thesis unfolding Let_def e by blast
qed

lemma sumPodMetrics_sum:
  "sumPodMetrics items = (sum_list (map UCpuMilli (concat items)), sum_list (map UMemBytes (concat items)))"
proof -
  have inner: "fold (\<lambda>u (cpu, mem). (cpu + UCpuMilli u, mem + UMemBytes u)) pm (c, m) =
      (c + sum_list (map UCpuMilli pm), m + sum_list (map UMemBytes pm))" for pm c m
    by (induction pm arbitrary: c m) (simp_all add: ac_simps)
  have "fold (\<lambda>pm acc. fold (\<lambda>u (cpu, mem). (cpu + UCpuMilli u, mem + UMemBytes u)) pm acc) items (c, m) =
      (c + sum_list (map UCpuMilli (concat items)), m + sum_list (map UMemBytes (concat items)))" for c m
    by (induction items arbitrary: c m) (simp_all add: inner ac_simps)
  then show ?thesis by (simp add: sumPodMetrics_def)
qed

section \<open>The reader's contract\<close>

text \<open>
  What the comment on \<open>ClusterReader\<close> promises its callers: an error and an available reading
  exclude each other, and NotFound never leaves the reader as an API error but as
  \<open>ErrMetricsAPIUnavailable\<close>.
\<close>

locale pod_metrics_reader =
  fixes read :: "string \<Rightarrow> string \<Rightarrow> pod_metrics_reply"
  assumes err_not_available: "read ns sel = (cpu, mem, avail, Some e) \<Longrightarrow> \<not> avail"
    and missing_is_unavailable: "read ns sel = (cpu, mem, avail, Some e) \<Longrightarrow> \<not> isMetricsAPIMissing e"
    and unavailable_is_zero: "read ns sel = (cpu, mem, False, err) \<Longrightarrow> cpu = 0 \<and> mem = 0"
begin

lemma available_no_error: "read ns sel = (cpu, mem, True, err) \<Longrightarrow> err = None"
  using err_not_available by (cases err) blast+

end

interpretation kube_reader: pod_metrics_reader "PodMetricsForSelector l" for l
  by unfold_locales
    (auto simp: PodMetricsForSelector_def isMetricsAPIMissing_def split: option.splits sum.splits if_splits prod.splits)

text \<open>
  \<open>PodMetricsForSelector\<close> on every branch: without a metrics client and on NotFound it
  reports \<open>ErrMetricsAPIUnavailable\<close>; any other API error is returned unchanged; an empty list
  is no error and no reading; and only a nonempty list is a reading, whose totals are the sums
  over every container of every pod.
\<close>

theorem PodMetricsForSelector_cases:
  "PodMetricsForSelector l ns sel =
     (case Option.bind (kc_metrics l) (\<lambda>read. Some (read ns sel)) of
        None \<Rightarrow> (0, 0, False, Some MetricsAPIUnavailable)
      | Some (Inl (ApiError True msg)) \<Rightarrow> (0, 0, False, Some MetricsAPIUnavailable)
      | Some (Inl e) \<Rightarrow> (0, 0, False, Some e)
      | Some (Inr []) \<Rightarrow> (0, 0, False, None)
      | Some (Inr (i # items)) \<Rightarrow>
          (sum_list (map UCpuMilli (concat (i # items))), sum_list (map UMemBytes (concat (i # items))), True, None))"
  by (auto simp: PodMetricsForSelector_def sumPodMetrics_sum isMetricsAPIMissing_def
      split: option.split sum.split list.split agent_error.split bool.split)

lemma MapDeployment_Some:
  "MapDeployment d = Some e \<longleftrightarrow>
     fmget [] (DAnnotations d) AnnotationService \<noteq> [] \<and>
     e = \<lparr>Slug = fmget [] (DAnnotations d) AnnotationService, Name = DName d,
       Status = DeriveStatus (DReadyReplicas d) (case DReplicas d of None \<Rightarrow> 0 | Some n \<Rightarrow> n),
       ReadyReplicas = Some (DReadyReplicas d),
       DesiredReplicas = Some (case DReplicas d of None \<Rightarrow> 0 | Some n \<Rightarrow> n),
       RestartCount = None, IntervalSeconds = 0, Metrics = []\<rparr>"
  by (auto simp: MapDeployment_def Let_def)

end
