(* ===== verification/SelfMetrics.thy ===== *)
theory SelfMetrics
  imports Float64
begin

text \<open>
  \<open>internal/metrics/metrics.go\<close>: the agent's own registry. A \<open>CounterVec\<close> is a finite map
  from label to count, a \<open>GaugeVec\<close> one from label to value, a histogram the list of its
  observations (latest first). The Prometheus client library is third-party: the model uses
  only that \<open>Inc\<close> adds one to the labelled counter, \<open>Set\<close> replaces the labelled gauge,
  \<open>Observe\<close> records one value and \<open>WithLabelValues\<close> creates a label at zero.
  A nil \<open>*Metrics\<close> receiver is \<open>None\<close>.
\<close>

definition SourceMetricsServer :: string where "SourceMetricsServer = ''metrics-server''"
definition SourceExposition :: string where "SourceExposition = ''exposition''"
definition SourceNone :: string where "SourceNone = ''none''"
definition SourceUnknown :: string where "SourceUnknown = ''unknown''"

lemmas source_name_defs = SourceMetricsServer_def SourceExposition_def SourceNone_def SourceUnknown_def

definition ResourceRoles :: "string list" where
  "ResourceRoles = [''cpu'', ''memory'']"

definition ResourceSources :: "string list" where
  "ResourceSources = [SourceMetricsServer, SourceExposition, SourceNone, SourceUnknown]"

record obs_metrics =
  heartbeats :: "(string, nat) fmap"
  lastSuccess :: f64
  postDuration :: "f64 list"
  servicesReported :: f64
  scrapes :: "(string, nat) fmap"
  scrapeDuration :: "f64 list"
  resourceServicesMapped :: f64
  rolesWithheld :: "(string, f64) fmap"
  resourceSamples :: "(string, f64) fmap"
  resourceSource :: "(string, f64) fmap"

definition label_init :: "'v \<Rightarrow> string list \<Rightarrow> (string, 'v) fmap" where
  "label_init z ls = fold (\<lambda>l m. fmupd l z m) ls fmempty"

definition counter_inc :: "string \<Rightarrow> (string, nat) fmap \<Rightarrow> (string, nat) fmap" where
  "counter_inc l m = fmupd l (Suc (fmget 0 m l)) m"

definition NewMetrics :: obs_metrics where
  "NewMetrics = \<lparr>heartbeats = label_init 0 [''success'', ''error''], lastSuccess = Fin 0,
     postDuration = [], servicesReported = Fin 0,
     scrapes = label_init 0 [''success'', ''error''], scrapeDuration = [],
     resourceServicesMapped = Fin 0, rolesWithheld = label_init (Fin 0) ResourceRoles,
     resourceSamples = label_init (Fin 0) ResourceRoles,
     resourceSource = label_init (Fin 0) ResourceSources\<rparr>"

text \<open>\<open>now\<close> is the Unix time \<open>SetToCurrentTime\<close> reads, \<open>d\<close> the duration in seconds.\<close>

definition RecordHeartbeat :: "bool \<Rightarrow> f64 \<Rightarrow> f64 \<Rightarrow> obs_metrics option \<Rightarrow> obs_metrics option" where
  "RecordHeartbeat success d now m = map_option (\<lambda>m.
     (if success then m\<lparr>heartbeats := counter_inc ''success'' (heartbeats m), lastSuccess := now\<rparr>
      else m\<lparr>heartbeats := counter_inc ''error'' (heartbeats m)\<rparr>)
     \<lparr>postDuration := d # postDuration m\<rparr>) m"

definition SetServicesReported :: "nat \<Rightarrow> obs_metrics option \<Rightarrow> obs_metrics option" where
  "SetServicesReported n = map_option (\<lambda>m. m\<lparr>servicesReported := f64_of_int (int n)\<rparr>)"

definition RecordScrape :: "bool \<Rightarrow> f64 \<Rightarrow> obs_metrics option \<Rightarrow> obs_metrics option" where
  "RecordScrape success d = map_option (\<lambda>m.
     (if success then m\<lparr>scrapes := counter_inc ''success'' (scrapes m)\<rparr>
      else m\<lparr>scrapes := counter_inc ''error'' (scrapes m)\<rparr>)
     \<lparr>scrapeDuration := d # scrapeDuration m\<rparr>)"

definition SetResourceServicesMapped :: "nat \<Rightarrow> obs_metrics option \<Rightarrow> obs_metrics option" where
  "SetResourceServicesMapped n = map_option (\<lambda>m. m\<lparr>resourceServicesMapped := f64_of_int (int n)\<rparr>)"

definition SetResourceSamples :: "string \<Rightarrow> nat \<Rightarrow> obs_metrics option \<Rightarrow> obs_metrics option" where
  "SetResourceSamples role n =
     map_option (\<lambda>m. m\<lparr>resourceSamples := fmupd role (f64_of_int (int n)) (resourceSamples m)\<rparr>)"

definition SetResourceSource :: "string \<Rightarrow> obs_metrics option \<Rightarrow> obs_metrics option" where
  "SetResourceSource active = map_option (\<lambda>m.
     let active = (if active \<in> set ResourceSources then active else SourceUnknown)
     in m\<lparr>resourceSource := fold (\<lambda>source g. fmupd source (if source = active then Fin 1 else Fin 0) g)
            ResourceSources (resourceSource m)\<rparr>)"

definition SetRolesWithheld :: "string \<Rightarrow> nat \<Rightarrow> obs_metrics option \<Rightarrow> obs_metrics option" where
  "SetRolesWithheld role n =
     map_option (\<lambda>m. m\<lparr>rolesWithheld := fmupd role (f64_of_int (int n)) (rolesWithheld m)\<rparr>)"

section \<open>What the registry exports\<close>

text \<open>The collectors \<open>NewWithRegistry\<close> registers, in its order: name, label name and current
  values of the agent's own, and the two collectors of the client library.\<close>

datatype metric_data =
    CounterVec string "(string, nat) fmap"
  | GaugeVec string "(string, f64) fmap"
  | Gauge f64
  | Histogram "f64 list"

datatype collector = Collector string metric_data | GoCollector | ProcessCollector

definition registered :: "obs_metrics \<Rightarrow> collector list" where
  "registered m =
     [Collector ''zensu_monitoring_agent_heartbeat_total'' (CounterVec ''result'' (heartbeats m)),
      Collector ''zensu_monitoring_agent_last_success_timestamp_seconds'' (Gauge (lastSuccess m)),
      Collector ''zensu_monitoring_agent_post_duration_seconds'' (Histogram (postDuration m)),
      Collector ''zensu_monitoring_agent_services_reported'' (Gauge (servicesReported m)),
      Collector ''zensu_monitoring_agent_scrape_total'' (CounterVec ''result'' (scrapes m)),
      Collector ''zensu_monitoring_agent_scrape_duration_seconds'' (Histogram (scrapeDuration m)),
      Collector ''zensu_monitoring_agent_resource_services_mapped'' (Gauge (resourceServicesMapped m)),
      Collector ''zensu_monitoring_agent_resource_roles_withheld'' (GaugeVec ''role'' (rolesWithheld m)),
      Collector ''zensu_monitoring_agent_resource_samples'' (GaugeVec ''role'' (resourceSamples m)),
      Collector ''zensu_monitoring_agent_resource_source'' (GaugeVec ''source'' (resourceSource m)),
      GoCollector, ProcessCollector]"

text \<open>The series of a collector: its name and, when it has a label, the values of the label.\<close>

fun collector_series :: "collector \<Rightarrow> (string \<times> string option) fset" where
  "collector_series (Collector name (CounterVec _ m)) = (\<lambda>l. (name, Some l)) |`| fmdom m"
| "collector_series (Collector name (GaugeVec _ m)) = (\<lambda>l. (name, Some l)) |`| fmdom m"
| "collector_series (Collector name _) = {|(name, None)|}"
| "collector_series _ = {||}"

section \<open>Counting\<close>

text \<open>Both outcomes are exported, and every event has been counted on one of them and timed.\<close>

definition counted :: "(string, nat) fmap \<Rightarrow> f64 list \<Rightarrow> bool" where
  "counted c ds \<longleftrightarrow> fmdom c = {|''success'', ''error''|} \<and>
     fmget 0 c ''success'' + fmget 0 c ''error'' = length ds"

lemma counted_inc:
  "counted c ds \<Longrightarrow> counted (counter_inc ''success'' c) (d # ds)"
  "counted c ds \<Longrightarrow> counted (counter_inc ''error'' c) (d # ds)"
  by (auto simp: counted_def counter_inc_def)

text \<open>The labels of the gauges.\<close>

definition labelled :: "obs_metrics \<Rightarrow> bool" where
  "labelled m \<longleftrightarrow> fmdom (rolesWithheld m) = fset_of_list ResourceRoles \<and>
     fmdom (resourceSamples m) = fset_of_list ResourceRoles \<and> fmdom (resourceSource m) = fset_of_list ResourceSources"

text \<open>What a metric source may do to the registry: count scrapes and set the withheld gauges.\<close>

definition source_step :: "obs_metrics \<Rightarrow> obs_metrics \<Rightarrow> bool" where
  "source_step m m' \<longleftrightarrow>
     heartbeats m' = heartbeats m \<and> lastSuccess m' = lastSuccess m \<and> postDuration m' = postDuration m \<and>
     servicesReported m' = servicesReported m \<and> resourceServicesMapped m' = resourceServicesMapped m \<and>
     resourceSamples m' = resourceSamples m \<and> resourceSource m' = resourceSource m \<and>
     (counted (scrapes m) (scrapeDuration m) \<longrightarrow> counted (scrapes m') (scrapeDuration m')) \<and>
     (labelled m \<longrightarrow> labelled m')"

definition source_metrics :: "obs_metrics option \<Rightarrow> obs_metrics option \<Rightarrow> bool" where
  "source_metrics m m' = rel_option source_step m m'"

lemma source_step_refl [simp]: "source_step m m"
  by (simp add: source_step_def)

lemma source_step_trans: "source_step a b \<Longrightarrow> source_step b c \<Longrightarrow> source_step a c"
  by (simp add: source_step_def)

lemma source_metrics_refl [simp]: "source_metrics m m"
  by (simp add: source_metrics_def option.rel_refl)

lemma source_metrics_trans: "source_metrics a b \<Longrightarrow> source_metrics b c \<Longrightarrow> source_metrics a c"
  by (cases a; cases b; cases c) (auto simp: source_metrics_def intro: source_step_trans)

lemma source_metrics_None: "source_metrics m m' \<Longrightarrow> m' = None \<longleftrightarrow> m = None"
  by (cases m; cases m') (simp_all add: source_metrics_def)

lemma source_metrics_scrape [simp]: "source_metrics m (RecordScrape ok d m)"
  by (cases m) (auto simp: source_metrics_def RecordScrape_def source_step_def counted_inc labelled_def)

lemma source_metrics_withheld:
  assumes "role \<in> set ResourceRoles"
  shows "source_metrics m (SetRolesWithheld role n m)"
proof -
  have "finsert role (fset_of_list ResourceRoles) = fset_of_list ResourceRoles"
    by (rule finsert_absorb) (simp add: fset_of_list_elem assms)
  then show ?thesis
    by (cases m) (simp_all add: source_metrics_def SetRolesWithheld_def source_step_def labelled_def)
qed

text \<open>A list of scrapes, each with its outcome and duration, oldest first, has been counted.\<close>

definition scrape_counts :: "(bool \<times> f64) list \<Rightarrow> obs_metrics option \<Rightarrow> obs_metrics option \<Rightarrow> bool" where
  "scrape_counts outs = rel_option (\<lambda>m m'.
     fmget 0 (scrapes m') ''success'' = fmget 0 (scrapes m) ''success'' + length (filter fst outs) \<and>
     fmget 0 (scrapes m') ''error'' = fmget 0 (scrapes m) ''error'' + length (filter (Not \<circ> fst) outs) \<and>
     scrapeDuration m' = rev (map snd outs) @ scrapeDuration m)"

lemma scrape_counts_refl [simp]: "scrape_counts [] m m"
  by (cases m) (simp_all add: scrape_counts_def)

lemma scrape_counts_trans: "scrape_counts xs a b \<Longrightarrow> scrape_counts ys b c \<Longrightarrow> scrape_counts (xs @ ys) a c"
  by (cases a; cases b; cases c) (simp_all add: scrape_counts_def)

lemma scrape_counts_none: "scrape_counts xs a b \<Longrightarrow> scrape_counts [] b c \<Longrightarrow> scrape_counts xs a c"
  using scrape_counts_trans [of xs a b "[]" c] by simp

lemma scrape_counts_simps [simp]:
  "scrape_counts [(ok, d)] m (RecordScrape ok d m)"
  "scrape_counts [] m (SetRolesWithheld role n m)"
  "scrape_counts [] m (SetResourceServicesMapped n m)"
  "scrape_counts [] m (SetResourceSamples role n m)"
  "scrape_counts [] m (SetResourceSource active m)"
  by (cases m; simp add: scrape_counts_def RecordScrape_def counter_inc_def SetRolesWithheld_def
      SetResourceServicesMapped_def SetResourceSamples_def SetResourceSource_def Let_def)+

text \<open>The registry as a whole: both counters are accounted for and no label is missing or new.\<close>

definition registry_ok :: "obs_metrics \<Rightarrow> bool" where
  "registry_ok m \<longleftrightarrow> counted (heartbeats m) (postDuration m) \<and> counted (scrapes m) (scrapeDuration m) \<and> labelled m"

lemma fmdom_label_init [simp]: "fmdom (label_init z ls) = fset_of_list ls"
proof -
  have "fmdom (fold (\<lambda>l m. fmupd l z m) ls m) = fset_of_list ls |\<union>| fmdom m" for m
    by (induction ls arbitrary: m) auto
  then show ?thesis by (simp add: label_init_def)
qed

lemma registry_ok_New [simp]: "registry_ok NewMetrics"
proof -
  have "counted (label_init 0 [''success'', ''error'']) []" by (simp add: counted_def) (simp add: label_init_def)
  then show ?thesis unfolding registry_ok_def labelled_def by (simp add: NewMetrics_def)
qed

lemma registry_ok_step: "source_step m m' \<Longrightarrow> registry_ok m \<Longrightarrow> registry_ok m'"
  by (simp add: registry_ok_def source_step_def)

lemma fmdom_fold_fmupd: "fmdom (fold (\<lambda>k m. fmupd k (f k) m) ks m) = fset_of_list ks |\<union>| fmdom m"
  by (induction ks arbitrary: m) auto

text \<open>What the agent itself sets: the registry stays in order and the heartbeats are untouched.\<close>

definition agent_step :: "obs_metrics \<Rightarrow> obs_metrics \<Rightarrow> bool" where
  "agent_step m m' \<longleftrightarrow> heartbeats m' = heartbeats m \<and> postDuration m' = postDuration m \<and> lastSuccess m' = lastSuccess m \<and>
     servicesReported m' = servicesReported m \<and> (registry_ok m \<longrightarrow> registry_ok m')"

lemma agent_step_trans: "agent_step a b \<Longrightarrow> agent_step b c \<Longrightarrow> agent_step a c"
  by (simp add: agent_step_def)

lemma source_agent_step: "source_step m m' \<Longrightarrow> agent_step m m'"
  by (simp add: agent_step_def source_step_def registry_ok_def)

lemma agent_step_mapped: "rel_option agent_step m (SetResourceServicesMapped n m)"
  by (cases m) (simp_all add: agent_step_def SetResourceServicesMapped_def registry_ok_def labelled_def)

lemma agent_step_samples:
  assumes "role \<in> set ResourceRoles"
  shows "rel_option agent_step m (SetResourceSamples role n m)"
proof -
  have "finsert role (fset_of_list ResourceRoles) = fset_of_list ResourceRoles"
    by (rule finsert_absorb) (simp add: fset_of_list_elem assms)
  then show ?thesis
    by (cases m) (simp_all add: agent_step_def SetResourceSamples_def registry_ok_def labelled_def)
qed

lemma agent_step_source: "rel_option agent_step m (SetResourceSource active m)"
  by (cases m) (simp_all add: agent_step_def SetResourceSource_def registry_ok_def labelled_def fmdom_fold_fmupd Let_def)

lemma rel_agent_step_trans: "rel_option agent_step a b \<Longrightarrow> rel_option agent_step b c \<Longrightarrow> rel_option agent_step a c"
  by (cases a; cases b; cases c) (auto intro: agent_step_trans)

lemma source_metrics_agent: "source_metrics m m' \<Longrightarrow> rel_option agent_step m m'"
  by (cases m; cases m') (auto simp: source_metrics_def intro: source_agent_step)

lemma registry_ok_heartbeat: "registry_ok m \<Longrightarrow> registry_ok (the (RecordHeartbeat ok d t (Some m)))"
  by (simp add: RecordHeartbeat_def registry_ok_def labelled_def counted_inc)

lemma registry_ok_series: "registry_ok m \<Longrightarrow> map collector_series (registered m) = map collector_series (registered NewMetrics)"
  using registry_ok_New by (simp add: registry_ok_def registered_def counted_def labelled_def)

section \<open>Properties\<close>

lemma RecordHeartbeat_None [simp]: "RecordHeartbeat ok d t None = None"
  by (simp add: RecordHeartbeat_def)

lemma ResourceSources_distinct: "distinct ResourceSources"
  by (simp add: ResourceSources_def source_name_defs)

lemma SourceUnknown_listed [simp]: "SourceUnknown \<in> set ResourceSources"
  by (simp add: ResourceSources_def)

lemma fold_fmupd_lookup:
  "fmlookup (fold (\<lambda>k m. fmupd k (f k) m) ks m) k = (if k \<in> set ks then Some (f k) else fmlookup m k)"
  by (induction ks arbitrary: m) auto

text \<open>
  After \<open>SetResourceSource\<close>, whatever name a source reports and whatever the gauges held
  before, exactly one of the exported source series reads 1, and every other one reads 0: the
  reported one when it is a known name, the \<open>unknown\<close> series otherwise.
\<close>

theorem SetResourceSource_exactly_one:
  "filter (\<lambda>src. fmlookup (resourceSource (the (SetResourceSource active (Some m)))) src = Some (Fin 1))
     ResourceSources = [if active \<in> set ResourceSources then active else SourceUnknown] \<and>
   filter (\<lambda>src. fmlookup (resourceSource (the (SetResourceSource active (Some m)))) src = Some (Fin 0))
     ResourceSources = remove1 (if active \<in> set ResourceSources then active else SourceUnknown) ResourceSources"
proof -
  let ?a = "if active \<in> set ResourceSources then active else SourceUnknown"
  have a: "?a \<in> set ResourceSources" by simp
  have l: "fmlookup (resourceSource (the (SetResourceSource active (Some m)))) src =
      Some (if src = ?a then Fin 1 else Fin 0)" if "src \<in> set ResourceSources" for src
    using that by (simp add: SetResourceSource_def Let_def fold_fmupd_lookup)
  have "filter (\<lambda>src. fmlookup (resourceSource (the (SetResourceSource active (Some m)))) src = Some (Fin 1))
      ResourceSources = filter (\<lambda>src. src = ?a) ResourceSources"
    by (intro filter_cong) (simp_all add: l)
  moreover have "filter (\<lambda>src. fmlookup (resourceSource (the (SetResourceSource active (Some m)))) src = Some (Fin 0))
      ResourceSources = filter (\<lambda>src. src \<noteq> ?a) ResourceSources"
    by (intro filter_cong) (simp_all add: l)
  ultimately show ?thesis
    by (simp only: filter_eq_singleton [OF ResourceSources_distinct a] filter_neq_remove1 [OF ResourceSources_distinct])
qed

text \<open>
  Every \<open>RecordHeartbeat\<close> moves exactly one of the two outcome counters by exactly one
  and adds one latency observation; the last-success timestamp changes only on a success.
\<close>

theorem RecordHeartbeat_accounting:
  "\<exists>m'. RecordHeartbeat ok d t (Some m) = Some m' \<and>
     fmget 0 (heartbeats m') ''success'' = fmget 0 (heartbeats m) ''success'' + (if ok then 1 else 0) \<and>
     fmget 0 (heartbeats m') ''error'' = fmget 0 (heartbeats m) ''error'' + (if ok then 0 else 1) \<and>
     postDuration m' = d # postDuration m \<and>
     lastSuccess m' = (if ok then t else lastSuccess m)"
  by (simp add: RecordHeartbeat_def counter_inc_def)

end
