(* ===== verification/Rate.thy ===== *)
theory Rate
  imports ScrapeSeries
begin

text \<open>
  \<open>internal/scrape/rate.go\<close>: the \<open>Rater\<close> that turns cumulative counters into per-second rates
  by differencing consecutive scrapes. The clock is read once per \<open>Observe\<close>, so its reading
  is the argument \<open>t\<close> (nanoseconds). \<open>RaterOptions.Now\<close> only chooses that clock. A \<open>Rater\<close>
  is a value that \<open>Observe\<close> returns updated.
\<close>

record observation =
  ob_value :: f64
  ob_at :: int

definition MaxTrackedSeries :: nat where
  "MaxTrackedSeries = 20000"

record Rater =
  maxTracked :: int
  prev :: "(string, observation) fmap"
  refused :: bool

record RaterOptions =
  MaxTracked :: int

definition NewRater :: "RaterOptions list \<Rightarrow> Rater" where
  "NewRater opts =
     fold (\<lambda>opt r. if 0 < MaxTracked opt then r\<lparr>maxTracked := MaxTracked opt\<rparr> else r) opts
       \<lparr>maxTracked = 0, prev = fmempty, refused = False\<rparr>"

definition RefusedSeries :: "Rater \<Rightarrow> bool" where
  "RefusedSeries r = refused r"

definition Tracked :: "Rater \<Rightarrow> nat" where
  "Tracked r = fmsize (prev r)"

definition ceiling_of :: "Rater \<Rightarrow> nat" where
  "ceiling_of r = (if maxTracked r \<le> 0 then MaxTrackedSeries else nat (maxTracked r))"

text \<open>First pass: established fingerprints, until the table is full (the \<open>break\<close>).\<close>

fun admit_established ::
    "nat \<Rightarrow> (string, observation) fmap \<Rightarrow> int \<Rightarrow> (string \<times> f64) list \<Rightarrow>
     (string, observation) fmap \<Rightarrow> (string, observation) fmap" where
  "admit_established ceil prv t [] nxt = nxt"
| "admit_established ceil prv t ((fp, v) # rest) nxt =
     (if ceil \<le> fmsize nxt then nxt
      else if fp |\<notin>| fmdom prv then admit_established ceil prv t rest nxt
      else admit_established ceil prv t rest (fmupd fp \<lparr>ob_value = v, ob_at = t\<rparr> nxt))"

text \<open>Second pass: new fingerprints fill what is left, the rest is refused.\<close>

fun admit_new ::
    "nat \<Rightarrow> int \<Rightarrow> (string \<times> f64) list \<Rightarrow> (string, observation) fmap \<Rightarrow> bool \<Rightarrow>
     (string, observation) fmap \<times> bool" where
  "admit_new ceil t [] nxt ref = (nxt, ref)"
| "admit_new ceil t ((fp, v) # rest) nxt ref =
     (if fp |\<in>| fmdom nxt then admit_new ceil t rest nxt ref
      else if ceil \<le> fmsize nxt then admit_new ceil t rest nxt True
      else admit_new ceil t rest (fmupd fp \<lparr>ob_value = v, ob_at = t\<rparr> nxt) ref)"

text \<open>Third pass: the rate of each admitted series that has a usable predecessor.\<close>

definition rate_of :: "observation \<Rightarrow> int \<Rightarrow> f64 \<Rightarrow> f64 option" where
  "rate_of p t v =
     (let elapsed = Seconds (time_Sub t (ob_at p))
      in if f64_le elapsed (Fin 0) \<or> f64_less v (ob_value p) then None
         else Some (f64_div (f64_sub v (ob_value p)) elapsed))"

fun emit_rates ::
    "(string, observation) fmap \<Rightarrow> (string, observation) fmap \<Rightarrow> int \<Rightarrow> (string \<times> f64) list \<Rightarrow>
     (string, f64) fmap \<Rightarrow> (string, f64) fmap" where
  "emit_rates nxt prv t [] out = out"
| "emit_rates nxt prv t ((fp, v) # rest) out =
     (if fp |\<notin>| fmdom nxt then emit_rates nxt prv t rest out
      else case fmlookup prv fp of
        None \<Rightarrow> emit_rates nxt prv t rest out
      | Some p \<Rightarrow> (case rate_of p t v of
          None \<Rightarrow> emit_rates nxt prv t rest out
        | Some rate \<Rightarrow> emit_rates nxt prv t rest (fmupd fp rate out)))"

definition Observe :: "int \<Rightarrow> Series list \<Rightarrow> Rater \<Rightarrow> (string, f64) fmap \<times> Rater" where
  "Observe t series r =
     (let ceil = ceiling_of r;
          fps = map (\<lambda>s. (Fingerprint s, SValue s)) series;
          nxt1 = admit_established ceil (prev r) t fps fmempty;
          (nxt, ref) = admit_new ceil t fps nxt1 False;
          out = emit_rates nxt (prev r) t fps fmempty
      in (out, r\<lparr>prev := nxt, refused := ref\<rparr>))"

section \<open>The table\<close>

definition fps_of :: "(string \<times> f64) list \<Rightarrow> string fset" where
  "fps_of xs = fset_of_list (map fst xs)"

lemma fps_of_simps [simp]:
  "fps_of [] = {||}" "fps_of ((fp, v) # xs) = finsert fp (fps_of xs)"
  by (simp_all add: fps_of_def)

lemma admit_established_size:
  "fmsize nxt \<le> ceil \<Longrightarrow> fmsize (admit_established ceil prv t xs nxt) \<le> ceil"
  by (induction ceil prv t xs nxt rule: admit_established.induct)
    (auto simp: fmsize_fmupd)

lemma admit_new_size:
  "fmsize nxt \<le> ceil \<Longrightarrow> fmsize (fst (admit_new ceil t xs nxt ref)) \<le> ceil"
  by (induction ceil t xs nxt ref rule: admit_new.induct) (auto simp: fmsize_fmupd)

lemma admit_established_dom:
  "fmdom (admit_established ceil prv t xs nxt) |\<subseteq>| fmdom nxt |\<union>| (fps_of xs |\<inter>| fmdom prv)"
  by (induction ceil prv t xs nxt rule: admit_established.induct) auto

lemma admit_established_mono: "fmdom nxt |\<subseteq>| fmdom (admit_established ceil prv t xs nxt)"
  by (induction ceil prv t xs nxt rule: admit_established.induct) auto

lemma admit_new_mono: "fmdom nxt |\<subseteq>| fmdom (fst (admit_new ceil t xs nxt ref))"
  by (induction ceil t xs nxt ref rule: admit_new.induct) auto

lemma admit_new_dom: "fmdom (fst (admit_new ceil t xs nxt ref)) |\<subseteq>| fmdom nxt |\<union>| fps_of xs"
  by (induction ceil t xs nxt ref rule: admit_new.induct) auto

lemma fmsize_subset: "fmdom m |\<subseteq>| A \<Longrightarrow> fmsize m \<le> fcard A"
  by (simp add: fmsize_def fcard_mono)

lemma admit_new_refused: "ref \<Longrightarrow> snd (admit_new ceil t xs nxt ref)"
  by (induction ceil t xs nxt ref rule: admit_new.induct) auto

lemma admit_new_not_refused:
  "\<not> snd (admit_new ceil t xs nxt ref) \<Longrightarrow>
     fps_of xs |\<subseteq>| fmdom (fst (admit_new ceil t xs nxt ref))"
proof (induction ceil t xs nxt ref rule: admit_new.induct)
  case (2 ceil t fp v rest nxt ref)
  have m: "fp |\<in>| fmdom nxt \<Longrightarrow> fp |\<in>| fmdom (fst (admit_new ceil t rest nxt ref))"
    using admit_new_mono by blast
  have m': "fp |\<in>| fmdom (fst (admit_new ceil t rest (fmupd fp \<lparr>ob_value = v, ob_at = t\<rparr> nxt) ref))"
    using admit_new_mono [of "fmupd fp \<lparr>ob_value = v, ob_at = t\<rparr> nxt"] by auto
  show ?case using 2 m m' admit_new_refused by (auto split: if_splits)
qed simp

lemma admit_new_room:
  "fcard (fmdom nxt |\<union>| fps_of xs) \<le> ceil \<Longrightarrow> snd (admit_new ceil t xs nxt ref) = ref"
proof (induction ceil t xs nxt ref rule: admit_new.induct)
  case (2 ceil t fp v rest nxt ref)
  show ?case
  proof (cases "fp |\<in>| fmdom nxt")
    case True
    then have "fmdom nxt |\<union>| fps_of ((fp, v) # rest) = fmdom nxt |\<union>| fps_of rest" by auto
    with 2 True show ?thesis by simp
  next
    case False
    have "fcard (finsert fp (fmdom nxt)) \<le> fcard (fmdom nxt |\<union>| fps_of ((fp, v) # rest))"
      by (rule fcard_mono) auto
    with 2 False have "\<not> ceil \<le> fmsize nxt" by (simp add: fmsize_def fcard_finsert_if)
    with 2 False show ?thesis by simp
  qed
qed simp

lemma admit_established_keeps:
  "fcard (fmdom nxt |\<union>| (fps_of xs |\<inter>| fmdom prv)) \<le> ceil \<Longrightarrow>
     fps_of xs |\<inter>| fmdom prv |\<subseteq>| fmdom (admit_established ceil prv t xs nxt)"
proof (induction ceil prv t xs nxt rule: admit_established.induct)
  case (2 ceil prv t fp v rest nxt)
  show ?case
  proof (cases "ceil \<le> fmsize nxt")
    case True
    with 2 have "fmdom nxt = fmdom nxt |\<union>| (fps_of ((fp, v) # rest) |\<inter>| fmdom prv)"
      by (intro fcard_seteq) (auto simp: fmsize_def)
    with True show ?thesis by auto
  next
    case False
    show ?thesis
    proof (cases "fp |\<in>| fmdom prv")
      case True
      let ?n = "fmupd fp \<lparr>ob_value = v, ob_at = t\<rparr> nxt"
      have "fmdom ?n |\<union>| (fps_of rest |\<inter>| fmdom prv) = fmdom nxt |\<union>| (fps_of ((fp, v) # rest) |\<inter>| fmdom prv)"
        using True by auto
      then have "fps_of rest |\<inter>| fmdom prv |\<subseteq>| fmdom (admit_established ceil prv t rest ?n)"
        using 2 False True by simp
      moreover have "fp |\<in>| fmdom (admit_established ceil prv t rest ?n)"
        using admit_established_mono [of ?n] by auto
      ultimately show ?thesis using False True by auto
    qed (use 2 False in auto)
  qed
qed simp

text \<open>Every entry of the new table is this scrape's observation of its series.\<close>

definition fresh :: "int \<Rightarrow> (string \<times> f64) list \<Rightarrow> (string, observation) fmap \<Rightarrow> bool" where
  "fresh t xs nxt \<longleftrightarrow> fmpred (\<lambda>fp ob. ob_at ob = t \<and> (fp, ob_value ob) \<in> set xs) nxt"

lemma fresh_fmupd: "fresh t xs nxt \<Longrightarrow> (fp, v) \<in> set xs \<Longrightarrow> fresh t xs (fmupd fp \<lparr>ob_value = v, ob_at = t\<rparr> nxt)"
  by (auto simp: fresh_def)

lemma admit_established_fresh:
  "set xs \<subseteq> set ys \<Longrightarrow> fresh t ys nxt \<Longrightarrow> fresh t ys (admit_established ceil prv t xs nxt)"
  by (induction ceil prv t xs nxt rule: admit_established.induct) (auto intro: fresh_fmupd)

lemma admit_new_fresh:
  "set xs \<subseteq> set ys \<Longrightarrow> fresh t ys nxt \<Longrightarrow> fresh t ys (fst (admit_new ceil t xs nxt ref))"
  by (induction ceil t xs nxt ref rule: admit_new.induct) (auto intro: fresh_fmupd)

section \<open>The rates\<close>

lemma emit_rates_distinct:
  "distinct (map fst xs) \<Longrightarrow> fmlookup (emit_rates nxt prv t xs out) fp =
     (case map_of xs fp of
        None \<Rightarrow> fmlookup out fp
      | Some v \<Rightarrow> (if fp |\<notin>| fmdom nxt then fmlookup out fp
          else case fmlookup prv fp of None \<Rightarrow> fmlookup out fp
            | Some p \<Rightarrow> (case rate_of p t v of None \<Rightarrow> fmlookup out fp | Some r \<Rightarrow> Some r)))"
proof (induction nxt prv t xs out rule: emit_rates.induct)
  case (2 nxt prv t fp' v rest out)
  then have "map_of rest fp' = None" by (simp add: map_of_eq_None_iff)
  with 2 show ?case by (auto split: option.splits)
qed simp

lemma emit_rates_origin:
  "fmlookup (emit_rates nxt prv t xs out) fp = Some rate \<Longrightarrow>
     fmlookup out fp = Some rate \<or>
     (\<exists>v p. (fp, v) \<in> set xs \<and> fp |\<in>| fmdom nxt \<and> fmlookup prv fp = Some p \<and> rate_of p t v = Some rate)"
proof (induction nxt prv t xs out rule: emit_rates.induct)
  case (2 nxt prv t fp' v rest out)
  then show ?case
    by (cases "fp' = fp"; auto split: if_split_asm option.split_asm)
qed simp

lemma rate_of_Some:
  "rate_of p t v = Some rate \<longleftrightarrow> ob_at p < t \<and> \<not> f64_less v (ob_value p) \<and>
     rate = f64_div (f64_sub v (ob_value p)) (Seconds (time_Sub t (ob_at p)))"
  by (auto simp: rate_of_def Let_def Seconds_time_Sub(1))

lemma rate_of_nonneg:
  assumes "rate_of p t v = Some rate" "IsFinite v" "IsFinite (ob_value p)"
  shows "f64_nonneg rate"
proof -
  from assms(1) have r: "ob_at p < t" "\<not> f64_less v (ob_value p)"
    "rate = f64_div (f64_sub v (ob_value p)) (Seconds (time_Sub t (ob_at p)))"
    by (auto simp: rate_of_Some)
  obtain y where "Seconds (time_Sub t (ob_at p)) = Fin y" "0 < y"
    using Seconds_time_Sub(2) [OF r(1)] by blast
  then show ?thesis unfolding r(3)
    using f64_sub_nonneg [OF assms(2,3) r(2)] by (intro f64_div_nonneg) auto
qed

section \<open>What Observe promises\<close>

definition fp_values :: "Series list \<Rightarrow> (string \<times> f64) list" where
  "fp_values series = map (\<lambda>s. (Fingerprint s, SValue s)) series"

definition fingerprints :: "Series list \<Rightarrow> string fset" where
  "fingerprints series = fset_of_list (map Fingerprint series)"

lemma fps_of_fp_values [simp]: "fps_of (fp_values series) = fingerprints series"
  by (simp add: fps_of_def fp_values_def fingerprints_def comp_def)

lemma Observe_eq:
  "Observe t series r =
     (let nxt1 = admit_established (ceiling_of r) (prev r) t (fp_values series) fmempty;
          nxtref = admit_new (ceiling_of r) t (fp_values series) nxt1 False
      in (emit_rates (fst nxtref) (prev r) t (fp_values series) fmempty,
          r\<lparr>prev := fst nxtref, refused := snd nxtref\<rparr>))"
  by (simp add: Observe_def fp_values_def Let_def split: prod.split)

lemma ceiling_of_Observe [simp]: "ceiling_of (snd (Observe t series r)) = ceiling_of r"
  by (simp add: Observe_eq Let_def ceiling_of_def)

lemma ceiling_pos: "0 < ceiling_of r"
  by (simp add: ceiling_of_def MaxTrackedSeries_def)

lemma Observe_bounded:
  "Tracked (snd (Observe t series r)) \<le> ceiling_of r \<and>
   fmdom (prev (snd (Observe t series r))) |\<subseteq>| fingerprints series"
proof
  let ?n1 = "admit_established (ceiling_of r) (prev r) t (fp_values series) fmempty"
  have "fmsize ?n1 \<le> ceiling_of r" by (rule admit_established_size) simp
  then show "Tracked (snd (Observe t series r)) \<le> ceiling_of r"
    by (simp add: Observe_eq Let_def Tracked_def admit_new_size)
  have "fmdom ?n1 |\<subseteq>| fingerprints series"
    using admit_established_dom [of "ceiling_of r" "prev r" t "fp_values series" fmempty] by auto
  then show "fmdom (prev (snd (Observe t series r))) |\<subseteq>| fingerprints series"
    using admit_new_dom [of "ceiling_of r" t "fp_values series" ?n1 False]
    by (auto simp: Observe_eq Let_def)
qed

text \<open>
  The ceiling is absolute: whatever the table held and however many series the peer sends,
  after \<open>Observe\<close> the rater remembers at most \<open>ceiling_of\<close> series, and only series of this
  very scrape (so pod churn cannot grow the table).
\<close>

theorem Observe_table_bounded:
  "Tracked (snd (Observe t series r)) \<le> ceiling_of r \<and>
   fmdom (prev (snd (Observe t series r))) |\<subseteq>| fingerprints series"
  by (rule Observe_bounded)

lemma Observe_refused: "RefusedSeries (snd (Observe t series r)) \<longleftrightarrow> ceiling_of r < fcard (fingerprints series)"
proof -
  let ?c = "ceiling_of r" and ?xs = "fp_values series"
  let ?n1 = "admit_established ?c (prev r) t ?xs fmempty"
  have d1: "fmdom ?n1 |\<subseteq>| fingerprints series"
    using admit_established_dom [of ?c "prev r" t ?xs fmempty] by auto
  have "snd (admit_new ?c t ?xs ?n1 False) \<longleftrightarrow> ?c < fcard (fingerprints series)"
  proof
    assume "snd (admit_new ?c t ?xs ?n1 False)"
    then have "\<not> fcard (fmdom ?n1 |\<union>| fingerprints series) \<le> ?c"
      using admit_new_room [of ?n1 ?xs ?c t False] by auto
    then show "?c < fcard (fingerprints series)" using d1 by (simp add: sup_absorb2)
  next
    assume big: "?c < fcard (fingerprints series)"
    show "snd (admit_new ?c t ?xs ?n1 False)"
    proof (rule ccontr)
      assume "\<not> snd (admit_new ?c t ?xs ?n1 False)"
      then have "fingerprints series |\<subseteq>| fmdom (fst (admit_new ?c t ?xs ?n1 False))"
        using admit_new_not_refused [of ?c t ?xs ?n1 False] by simp
      then have "fcard (fingerprints series) \<le> fmsize (fst (admit_new ?c t ?xs ?n1 False))"
        by (simp add: fmsize_def fcard_mono)
      also have "\<dots> \<le> ?c" by (intro admit_new_size admit_established_size) simp
      finally show False using big by simp
    qed
  qed
  then show ?thesis by (simp add: Observe_eq Let_def RefusedSeries_def)
qed

lemma Observe_complete:
  "RefusedSeries (snd (Observe t series r)) \<or> fmdom (prev (snd (Observe t series r))) = fingerprints series"
proof -
  let ?n1 = "admit_established (ceiling_of r) (prev r) t (fp_values series) fmempty"
  have "fingerprints series |\<subseteq>| fmdom (prev (snd (Observe t series r)))"
    if "\<not> RefusedSeries (snd (Observe t series r))"
    using admit_new_not_refused [of "ceiling_of r" t "fp_values series" ?n1 False] that
    by (simp add: Observe_eq Let_def RefusedSeries_def)
  then show ?thesis using Observe_bounded by (meson fsubset_antisym)
qed

text \<open>
  The refusal flag is exact: it is raised exactly when the scrape carries more distinct
  series than the ceiling, and when it is not raised the table holds every series of the
  scrape.
\<close>

theorem Observe_refused_exact:
  "(RefusedSeries (snd (Observe t series r)) \<longleftrightarrow> ceiling_of r < fcard (fingerprints series)) \<and>
   (RefusedSeries (snd (Observe t series r)) \<or> fmdom (prev (snd (Observe t series r))) = fingerprints series)"
  by (simp only: Observe_refused Observe_complete [unfolded Observe_refused] simp_thms)

text \<open>
  A flood cannot displace a reporting series: once the table respects its ceiling (as it
  does after every \<open>Observe\<close>), each series it already tracks that is present in the next scrape
  is still tracked afterwards, however many new series the peer adds.
\<close>

theorem Observe_keeps_established:
  assumes "Tracked r \<le> ceiling_of r" and "fp |\<in>| fmdom (prev r)" and "fp |\<in>| fingerprints series"
  shows "fp |\<in>| fmdom (prev (snd (Observe t series r)))"
proof -
  let ?c = "ceiling_of r" and ?xs = "fp_values series"
  let ?n1 = "admit_established ?c (prev r) t ?xs fmempty"
  have "fcard (fmdom fmempty |\<union>| (fps_of ?xs |\<inter>| fmdom (prev r))) \<le> fcard (fmdom (prev r))"
    by (rule fcard_mono) auto
  also have "\<dots> \<le> ?c" using assms(1) by (simp add: Tracked_def fmsize_def)
  finally have "fps_of ?xs |\<inter>| fmdom (prev r) |\<subseteq>| fmdom ?n1" by (rule admit_established_keeps)
  with assms(2,3) have "fp |\<in>| fmdom ?n1" by auto
  then show ?thesis using admit_new_mono [of ?n1 ?c t ?xs False] by (auto simp: Observe_eq Let_def)
qed

lemma Observe_lookup:
  assumes "distinct (map Fingerprint series)" "s \<in> set series"
  shows "fmlookup (fst (Observe t series r)) (Fingerprint s) =
    (if Fingerprint s |\<notin>| fmdom (prev (snd (Observe t series r))) then None
     else Option.bind (fmlookup (prev r) (Fingerprint s)) (\<lambda>p. rate_of p t (SValue s)))"
proof -
  have d: "distinct (map fst (fp_values series))" using assms(1) by (simp add: fp_values_def comp_def)
  have "map_of (fp_values series) (Fingerprint s) = Some (SValue s)"
    using d assms(2) by (intro map_of_is_SomeI) (auto simp: fp_values_def)
  then show ?thesis
    by (auto simp: Observe_eq Let_def emit_rates_distinct [OF d] split: option.splits)
qed

lemma Observe_fresh: "fresh t (fp_values series) (prev (snd (Observe t series r)))"
  unfolding Observe_eq Let_def
  by (simp, intro admit_new_fresh admit_established_fresh) (auto simp: fresh_def)

lemma Observe_stored:
  assumes "distinct (map Fingerprint series)" "s \<in> set series"
    "Fingerprint s |\<in>| fmdom (prev (snd (Observe t series r)))"
  shows "fmlookup (prev (snd (Observe t series r))) (Fingerprint s) = Some \<lparr>ob_value = SValue s, ob_at = t\<rparr>"
proof -
  obtain ob where ob: "fmlookup (prev (snd (Observe t series r))) (Fingerprint s) = Some ob"
    using assms(3) by (auto simp: fmlookup_dom_iff)
  with Observe_fresh have f: "ob_at ob = t" "(Fingerprint s, ob_value ob) \<in> set (fp_values series)"
    unfolding fresh_def by (auto dest: fmpredD)
  moreover have "(Fingerprint s, SValue s) \<in> set (fp_values series)" using assms(2) by (auto simp: fp_values_def)
  moreover have "distinct (map fst (fp_values series))" using assms(1) by (simp add: fp_values_def comp_def)
  ultimately have "ob_value ob = SValue s" by (metis map_of_eq_Some_iff option.inject)
  with f(1) ob show ?thesis by (cases ob) simp
qed

text \<open>
  C12. Two consecutive scrapes give the rate the counter really had: if both scrapes list their
  series without repetition and fit under the ceiling, then for every series of the second the
  second \<open>Observe\<close> yields a rate exactly when the first scrape carried the same series, the clock
  advanced and the counter was not reset, and the rate is then the increase over the seconds
  between the two readings.
\<close>

theorem Observe_twice_rates:
  assumes "distinct (map Fingerprint s1)" and "distinct (map Fingerprint s2)"
    and "fcard (fingerprints s1) \<le> ceiling_of r" and "fcard (fingerprints s2) \<le> ceiling_of r"
    and "b \<in> set s2"
  shows "fmlookup (fst (Observe t2 s2 (snd (Observe t1 s1 r)))) (Fingerprint b) =
    (case filter (\<lambda>a. Fingerprint a = Fingerprint b) s1 of
       [] \<Rightarrow> None
     | a # _ \<Rightarrow> (if t1 < t2 \<and> \<not> f64_less (SValue b) (SValue a)
         then Some (f64_div (f64_sub (SValue b) (SValue a)) (Seconds (time_Sub t2 t1))) else None))"
proof -
  let ?r1 = "snd (Observe t1 s1 r)"
  have d1: "fmdom (prev ?r1) = fingerprints s1"
    using Observe_complete [of t1 s1 r] assms(3) by (auto simp: Observe_refused)
  have d2: "fmdom (prev (snd (Observe t2 s2 ?r1))) = fingerprints s2"
    using Observe_complete [of t2 s2 ?r1] assms(4) by (auto simp: Observe_refused)
  have "Fingerprint b |\<in>| fingerprints s2" using assms(5) by (auto simp: fingerprints_def fset_of_list_elem)
  then have lk: "fmlookup (fst (Observe t2 s2 ?r1)) (Fingerprint b) =
      Option.bind (fmlookup (prev ?r1) (Fingerprint b)) (\<lambda>p. rate_of p t2 (SValue b))"
    using Observe_lookup [OF assms(2,5), of t2 ?r1] d2 by simp
  show ?thesis
  proof (cases "filter (\<lambda>a. Fingerprint a = Fingerprint b) s1")
    case Nil
    then have "Fingerprint b |\<notin>| fingerprints s1"
      by (auto simp: fingerprints_def fset_of_list_elem filter_empty_conv)
    then have "fmlookup (prev ?r1) (Fingerprint b) = None" using d1 by (simp add: fmdom_notD)
    with lk Nil show ?thesis by simp
  next
    case (Cons a as)
    have "a \<in> set (filter (\<lambda>a. Fingerprint a = Fingerprint b) s1)" unfolding Cons by simp
    then have a: "a \<in> set s1" "Fingerprint a = Fingerprint b" by simp_all
    have "Fingerprint a |\<in>| fmdom (prev ?r1)"
      using a(1) d1 by (auto simp: fingerprints_def fset_of_list_elem)
    then have "fmlookup (prev ?r1) (Fingerprint b) = Some \<lparr>ob_value = SValue a, ob_at = t1\<rparr>"
      using Observe_stored [OF assms(1) a(1)] a(2) by simp
    with lk Cons show ?thesis by (simp add: rate_of_def Let_def Seconds_time_Sub(1) not_le)
  qed
qed

definition finite_table :: "Rater \<Rightarrow> bool" where
  "finite_table r \<longleftrightarrow> fmpred (\<lambda>fp ob. IsFinite (ob_value ob)) (prev r)"

text \<open>
  Rates are physical: while every counter value is finite (as decoding guarantees), the
  table stays finite from scrape to scrape and no rate \<open>Observe\<close> yields is negative or NaN; a
  reset or a clock that stands still yields no rate instead.
\<close>

theorem Observe_rates_nonneg:
  assumes "finite_table r" and "list_all (\<lambda>s. IsFinite (SValue s)) series"
  shows "finite_table (snd (Observe t series r)) \<and>
    fmpred (\<lambda>fp rate. f64_nonneg rate) (fst (Observe t series r))"
proof
  have fin: "IsFinite v" if "(fp, v) \<in> set (fp_values series)" for fp v
    using that assms(2) by (auto simp: fp_values_def list_all_iff)
  show "finite_table (snd (Observe t series r))"
    using Observe_fresh [of t series r] fin unfolding finite_table_def fresh_def fmpred_iff
    by blast
  show "fmpred (\<lambda>fp rate. f64_nonneg rate) (fst (Observe t series r))"
  proof
    fix fp rate assume "fmlookup (fst (Observe t series r)) fp = Some rate"
    then obtain v p where "(fp, v) \<in> set (fp_values series)" "fmlookup (prev r) fp = Some p"
      "rate_of p t v = Some rate"
      using emit_rates_origin by (force simp: Observe_eq Let_def)
    then show "f64_nonneg rate"
      using fin assms(1) by (auto simp: finite_table_def intro: rate_of_nonneg dest: fmpredD)
  qed
qed

section \<open>Witnesses\<close>

text \<open>A counter of one pod, read as 10 and then, two seconds later, as 14.\<close>

definition counter_row :: "f64 \<Rightarrow> Series" where
  "counter_row v = \<lparr>SName = ''cpu_seconds'', SLabels = fmempty, SValue = v, SKind = KindCounter\<rparr>"

definition counter_fp :: string where
  "counter_fp = Fingerprint (counter_row (Fin 0))"

definition example_rater :: Rater where
  "example_rater = \<lparr>maxTracked = 1, prev = fmupd counter_fp \<lparr>ob_value = Fin 10, ob_at = 0\<rparr> fmempty, refused = False\<rparr>"

lemma counter_row_simps [simp]:
  "Fingerprint (counter_row v) = counter_fp" "SValue (counter_row v) = v"
  "fingerprints [counter_row v] = {|counter_fp|}"
  by (simp_all add: counter_fp_def counter_row_def Fingerprint_def fingerprints_def)

lemma Observe_keeps_established_witness:
  "counter_fp |\<in>| fmdom (prev (snd (Observe 2000000000 [counter_row (Fin 14)] example_rater)))"
  by (rule Observe_keeps_established) (simp_all add: example_rater_def Tracked_def ceiling_of_def fmsize_fmupd)

lemma Observe_twice_rates_witness:
  "fmlookup (fst (Observe 2000000000 [counter_row (Fin 14)] (snd (Observe 0 [counter_row (Fin 10)] (NewRater [])))))
     counter_fp = Some (Fin 2)"
proof -
  have "ceiling_of (NewRater []) = 20000"
    by (simp add: NewRater_def ceiling_of_def MaxTrackedSeries_def)
  then have "fmlookup (fst (Observe 2000000000 [counter_row (Fin 14)] (snd (Observe 0 [counter_row (Fin 10)] (NewRater [])))))
     counter_fp = Some (f64_div (f64_sub (Fin 14) (Fin 10)) (Seconds (time_Sub 2000000000 0)))"
    using Observe_twice_rates [of "[counter_row (Fin 10)]" "[counter_row (Fin 14)]" "NewRater []"
        "counter_row (Fin 14)" 2000000000 0]
    by (simp add: fcard_finsert_if fcard_fempty)
  also have "\<dots> = Some (Fin 2)"
    by (simp add: f64_sub_def Seconds_def time_Sub_def)
  finally show ?thesis .
qed

lemma Observe_rates_nonneg_witness:
  "fmpred (\<lambda>fp rate. f64_nonneg rate) (fst (Observe 2000000000 [counter_row (Fin 14)] example_rater))"
  by (rule conjunct2 [OF Observe_rates_nonneg]) (auto simp: example_rater_def finite_table_def fmpred_iff)

end
