(* ===== verification/GoParse.thy ===== *)
theory GoParse
  imports Float64 GoStrings
begin

text \<open>
  The parsers of the Go standard library that startup uses, as Go 1.23 has them:
  \<open>strconv.ParseInt\<close> for base 10 and 64 bits, \<open>strconv.Atoi\<close> and \<open>time.ParseDuration\<close>. A result
  \<open>None\<close> is an error; its text is never used by the program. A duration is a number of
  nanoseconds.
\<close>

section \<open>Integers\<close>

definition digit_of :: "char \<Rightarrow> nat" where
  "digit_of c = of_char c - 48"

text \<open>The loop of \<open>strconv.ParseUint\<close>, in 64-bit words.\<close>

fun ParseUint_loop :: "string \<Rightarrow> 64 word \<Rightarrow> 64 word option" where
  "ParseUint_loop [] n = Some n"
| "ParseUint_loop (c # cs) n =
     (if \<not> IsDigit c then None
      else if 1844674407370955162 \<le> n then None
      else let n = n * 10; n1 = n + of_nat (digit_of c)
           in if n1 < n then None else ParseUint_loop cs n1)"

definition ParseInt :: "string \<Rightarrow> int64 option" where
  "ParseInt s =
     (if s = [] then None
      else let neg = (hd s = CHR ''-'');
               digits = (if hd s = CHR ''-'' \<or> hd s = CHR ''+'' then tl s else s)
           in if digits = [] then None
              else case ParseUint_loop digits 0 of
                None \<Rightarrow> None
              | Some un \<Rightarrow>
                  if \<not> neg \<and> 2 ^ 63 \<le> un then None
                  else if neg \<and> 2 ^ 63 < un then None
                  else Some (if neg then - un else un))"

lemma digit_of_le: "IsDigit c \<Longrightarrow> digit_of c \<le> 9"
  unfolding IsDigit_def digit_of_def by linarith

lemma digits_value_snoc: "digits_value (s @ [c]) = 10 * digits_value s + digit_of c"
  by (simp add: digits_value_def digit_of_def)

lemma digits_foldl: "foldl (\<lambda>n c. 10 * n + (of_char c - 48)) k s = k * 10 ^ length s + digits_value s"
proof (induction s arbitrary: k)
  case (Cons c s)
  from Cons [of "10 * k + (of_char c - 48)"] Cons [of "of_char c - 48"] show ?case
    by (simp add: digits_value_def algebra_simps)
qed (simp add: digits_value_def)

lemma digits_value_Cons: "digits_value (c # s) = digit_of c * 10 ^ length s + digits_value s"
  using digits_foldl [of "digit_of c" s] by (simp add: digits_value_def digit_of_def)

lemma ParseUint_step:
  fixes n :: "64 word"
  assumes "unat n < 1844674407370955162" "d \<le> 9"
  shows "(n * 10 + of_nat d < n * 10) = (2 ^ 64 \<le> unat n * 10 + d)"
    and "unat n * 10 + d < 2 ^ 64 \<Longrightarrow> unat (n * 10 + of_nat d) = unat n * 10 + d"
proof -
  have t: "unat (n * 10) = unat n * 10" using assms(1) by (simp add: unat_word_ariths)
  have d: "unat (of_nat d :: 64 word) = d" using assms(2) by (simp add: unat_of_nat)
  have s: "unat (n * 10 + of_nat d) = (unat n * 10 + d) mod 2 ^ 64" using unat_word_ariths(1) [of "n * 10" "of_nat d"] by (simp only: t d word_size) simp
  have "unat n * 10 < 2 ^ 64" using assms(1) by simp
  then have "(unat n * 10 + d) mod 2 ^ 64 = (if unat n * 10 + d < 2 ^ 64 then unat n * 10 + d else unat n * 10 + d - 2 ^ 64)"
    using assms(2) by (auto simp: mod_if)
  with s t show "(n * 10 + of_nat d < n * 10) = (2 ^ 64 \<le> unat n * 10 + d)"
    and "unat n * 10 + d < 2 ^ 64 \<Longrightarrow> unat (n * 10 + of_nat d) = unat n * 10 + d"
    using assms(2) by (auto simp: word_less_nat_alt)
qed

text \<open>The loop computes the mathematical value and fails exactly when it does not fit.\<close>

lemma ParseUint_loop_spec:
  "ParseUint_loop s n =
     (if list_all IsDigit s \<and> unat n * 10 ^ length s + digits_value s < 2 ^ 64
      then Some (of_nat (unat n * 10 ^ length s + digits_value s)) else None)"
proof (induction s arbitrary: n)
  case Nil
  then show ?case using unsigned_less [of n] by (simp add: digits_value_def)
next
  case (Cons c s)
  show ?case
  proof (cases "IsDigit c")
    case dig: True
    let ?d = "digit_of c"
    have d: "?d \<le> 9" by (rule digit_of_le [OF dig])
    have v: "unat n * 10 ^ length (c # s) + digits_value (c # s) = (unat n * 10 + ?d) * 10 ^ length s + digits_value s"
      by (simp add: digits_value_Cons algebra_simps)
    have mono: "unat n * 10 + ?d \<le> (unat n * 10 + ?d) * 10 ^ length s + digits_value s"
      by (rule trans_le_add1) simp
    show ?thesis
    proof (cases "unat n < 1844674407370955162")
      case lt: True
      then have "\<not> 1844674407370955162 \<le> n" by (simp add: word_le_nat_alt)
      with ParseUint_step [OF lt d] mono dig Cons.IH [of "n * 10 + of_nat ?d"] show ?thesis
        unfolding v by (cases "unat n * 10 + ?d < 2 ^ 64") (simp_all add: Let_def not_less)
    next
      case False
      then have "1844674407370955162 \<le> n" by (simp add: word_le_nat_alt)
      moreover have "2 ^ 64 \<le> unat n * 10 + ?d" using False by simp
      ultimately show ?thesis using mono unfolding v by simp
    qed
  qed simp
qed

definition int_of_digits :: "bool \<Rightarrow> string \<Rightarrow> int" where
  "int_of_digits neg s = (if neg then - int (digits_value s) else int (digits_value s))"

lemma ParseInt_magnitude:
  "(case ParseUint_loop ds 0 of None \<Rightarrow> None
    | Some un \<Rightarrow> if \<not> neg \<and> 2 ^ 63 \<le> un then None else if neg \<and> 2 ^ 63 < un then None
        else Some (if neg then - un else un)) =
   (if list_all IsDigit ds \<and> - (2 ^ 63) \<le> int_of_digits neg ds \<and> int_of_digits neg ds < 2 ^ 63
    then Some (word_of_int (int_of_digits neg ds)) else None)"
proof (cases "list_all IsDigit ds \<and> digits_value ds < 2 ^ 64")
  case True
  then have "ParseUint_loop ds 0 = Some (of_nat (digits_value ds))" by (simp add: ParseUint_loop_spec)
  moreover have "unat (of_nat (digits_value ds) :: 64 word) = digits_value ds" using True by (simp add: unat_of_nat)
  then have "(2 ^ 63 \<le> (of_nat (digits_value ds) :: 64 word)) = (2 ^ 63 \<le> digits_value ds)"
    "(2 ^ 63 < (of_nat (digits_value ds) :: 64 word)) = (2 ^ 63 < digits_value ds)"
    by (simp_all add: word_le_nat_alt word_less_nat_alt)
  ultimately show ?thesis using True by (cases neg) (simp_all add: int_of_digits_def not_less not_le)
next
  case False
  then have "ParseUint_loop ds 0 = None" by (auto simp: ParseUint_loop_spec)
  with False show ?thesis by (cases neg) (auto simp: int_of_digits_def)
qed

text \<open>\<open>ParseInt\<close> on every input: an optional sign, then digits whose value fits.\<close>

lemma ParseInt_spec:
  "ParseInt s =
     (let neg = (s \<noteq> [] \<and> hd s = CHR ''-'');
          digits = (if s \<noteq> [] \<and> (hd s = CHR ''-'' \<or> hd s = CHR ''+'') then tl s else s)
      in if digits \<noteq> [] \<and> list_all IsDigit digits \<and>
            - (2 ^ 63) \<le> int_of_digits neg digits \<and> int_of_digits neg digits < 2 ^ 63
         then Some (word_of_int (int_of_digits neg digits)) else None)"
  unfolding ParseInt_def Let_def ParseInt_magnitude by (cases s) simp_all

lemma digit_not_sign [simp]: "IsDigit c \<Longrightarrow> c \<noteq> CHR ''-''" "IsDigit c \<Longrightarrow> c \<noteq> CHR ''+''" "IsDigit c \<Longrightarrow> c \<noteq> CHR ''.''"
  by (auto simp: IsDigit_def)

lemma Itoa_all_digits: "list_all IsDigit (Itoa n)"
  using Itoa_digits [of n] by (simp add: list_all_iff)

lemma IsDigit_hd_Itoa: "IsDigit (hd (Itoa n))"
  using Itoa_digits [of n] by (metis Itoa_nonempty hd_in_set)

lemma ParseInt_Itoa: "ParseInt (Itoa n) = (if n < 2 ^ 63 then Some (of_nat n) else None)"
  using IsDigit_hd_Itoa [of n] digit_not_sign [of "hd (Itoa n)"]
  by (auto simp: ParseInt_spec Let_def Itoa_all_digits int_of_digits_def)

lemma ParseInt_Itoa_minus: "ParseInt (CHR ''-'' # Itoa n) = (if n \<le> 2 ^ 63 then Some (- of_nat n) else None)"
  by (auto simp: ParseInt_spec Let_def Itoa_all_digits int_of_digits_def)

section \<open>Durations\<close>

text \<open>\<open>leadingInt\<close>: the leading digits, or an error as soon as they pass \<open>2^63\<close>.\<close>

fun leadingInt :: "string \<Rightarrow> nat \<Rightarrow> (nat \<times> string) option" where
  "leadingInt [] x = Some (x, [])"
| "leadingInt (c # cs) x =
     (if \<not> IsDigit c then Some (x, c # cs)
      else if 2 ^ 63 div 10 < x then None
      else let x = x * 10 + digit_of c in if 2 ^ 63 < x then None else leadingInt cs x)"

text \<open>\<open>leadingFraction\<close>: the fraction digits as a number and its power of ten, cut off where they
  would overflow.\<close>

fun leadingFraction :: "string \<Rightarrow> nat \<Rightarrow> f64 \<Rightarrow> bool \<Rightarrow> nat \<times> f64 \<times> string" where
  "leadingFraction [] x scale overflow = (x, scale, [])"
| "leadingFraction (c # cs) x scale overflow =
     (if \<not> IsDigit c then (x, scale, c # cs)
      else if overflow then leadingFraction cs x scale True
      else if (2 ^ 63 - 1) div 10 < x then leadingFraction cs x scale True
      else let y = x * 10 + digit_of c
           in if 2 ^ 63 < y then leadingFraction cs x scale True
              else leadingFraction cs y (f64_mul scale (Fin 10)) False)"

text \<open>\<open>unitMap\<close>; the micro sign and the Greek letter mu are two bytes each in UTF-8.\<close>

definition unitMap :: "string \<Rightarrow> nat option" where
  "unitMap = map_of
     [(''ns'', 1), (''us'', 1000), ([CHR 0xC2, CHR 0xB5, CHR ''s''], 1000), ([CHR 0xCE, CHR 0xBC, CHR ''s''], 1000),
      (''ms'', 1000000), (''s'', 1000000000), (''m'', 60000000000), (''h'', 3600000000000)]"

text \<open>The conversion \<open>uint64(x)\<close> of a float between 0 and \<open>2^63\<close>.\<close>

definition uint64_of_f64 :: "f64 \<Rightarrow> nat" where
  "uint64_of_f64 v = (case v of Fin x \<Rightarrow> nat \<lfloor>x\<rfloor> | _ \<Rightarrow> 0)"

definition unit_char :: "char \<Rightarrow> bool" where
  "unit_char c \<longleftrightarrow> c \<noteq> CHR ''.'' \<and> \<not> IsDigit c"

lemma leadingInt_length: "leadingInt s x = Some (v, r) \<Longrightarrow> length r \<le> length s"
  by (induction s x rule: leadingInt.induct) (auto simp: Let_def split: if_splits)

lemma leadingFraction_length: "leadingFraction s x sc ov = (f, sc', r) \<Longrightarrow> length r \<le> length s"
  by (induction s x sc ov rule: leadingFraction.induct) (auto simp: Let_def le_SucI split: if_splits)

text \<open>The optional fraction after the integer part, and whether it had digits.\<close>

definition fraction_part :: "string \<Rightarrow> nat \<times> f64 \<times> string \<times> bool" where
  "fraction_part s =
     (if s \<noteq> [] \<and> hd s = CHR ''.'' then
        (let (f, scale, rest) = leadingFraction (tl s) 0 (Fin 1) False
         in (f, scale, rest, length (tl s) \<noteq> length rest))
      else (0, Fin 1, s, False))"

lemma fraction_part_length: "fraction_part s = (f, sc, r, post) \<Longrightarrow> length r \<le> length s"
  by (cases s) (auto simp: fraction_part_def le_SucI split: if_splits prod.splits dest!: leadingFraction_length)

text \<open>One round of the loop of \<open>ParseDuration\<close>: a number and its unit, in nanoseconds, with what
  follows them.\<close>

definition parse_round :: "string \<Rightarrow> (nat \<times> string) option" where
  "parse_round s =
     (if \<not> (hd s = CHR ''.'' \<or> IsDigit (hd s)) then None
      else case leadingInt s 0 of
        None \<Rightarrow> None
      | Some (v, s1) \<Rightarrow>
          (case fraction_part s1 of (f, scale, s2, post) \<Rightarrow>
             let pre = (length s \<noteq> length s1);
                 u = takeWhile unit_char s2
             in if \<not> pre \<and> \<not> post then None
                else if u = [] then None
                else case unitMap u of
                  None \<Rightarrow> None
                | Some unit \<Rightarrow>
                    if 2 ^ 63 div unit < v then None
                    else let v = v * unit;
                             v = (if 0 < f then v + uint64_of_f64 (f64_mul (f64_of_int (int f)) (f64_div (f64_of_int (int unit)) scale)) else v)
                         in if 0 < f \<and> 2 ^ 63 < v then None
                            else Some (v, dropWhile unit_char s2)))"

lemma dropWhile_shorter: "takeWhile P s \<noteq> [] \<Longrightarrow> length (dropWhile P s) < length s"
  by (cases s) (auto simp: le_imp_less_Suc length_dropWhile_le split: if_splits)

lemma parse_round_shorter: "parse_round s = Some (v, rest) \<Longrightarrow> length rest < length s"
  by (auto simp: parse_round_def Let_def split: if_splits option.splits prod.splits
      dest!: leadingInt_length fraction_part_length dropWhile_shorter)

function parse_units :: "string \<Rightarrow> nat \<Rightarrow> nat option" where
  "parse_units s d =
     (if s = [] then Some d
      else case parse_round s of
        None \<Rightarrow> None
      | Some (v, rest) \<Rightarrow>
          (let d = (d + v) mod 2 ^ 64 in if 2 ^ 63 < d then None else parse_units rest d))"
  by pat_completeness auto

termination parse_units
  by (relation "measure (\<lambda>(s, d). length s)") (auto dest: parse_round_shorter)

declare parse_units.simps [simp del]

definition ParseDuration :: "string \<Rightarrow> int option" where
  "ParseDuration s =
     (let neg = (s \<noteq> [] \<and> hd s = CHR ''-'');
          s = (if s \<noteq> [] \<and> (hd s = CHR ''-'' \<or> hd s = CHR ''+'') then tl s else s)
      in if s = ''0'' then Some 0
         else if s = [] then None
         else case parse_units s 0 of
           None \<Rightarrow> None
         | Some d \<Rightarrow> if neg then Some (- int d) else if 2 ^ 63 - 1 < d then None else Some (int d))"

lemma parse_units_bound: "parse_units s d = Some r \<Longrightarrow> d \<le> 2 ^ 63 \<Longrightarrow> r \<le> 2 ^ 63"
proof (induction s d rule: parse_units.induct)
  case (1 s d)
  show ?case
  proof (cases "s = []")
    case False
    with 1(2) obtain v rest where v: "parse_round s = Some (v, rest)" "(d + v) mod 2 ^ 64 \<le> 2 ^ 63"
      "parse_units rest ((d + v) mod 2 ^ 64) = Some r"
      by (subst (asm) parse_units.simps) (auto simp: Let_def not_less split: if_splits option.splits prod.splits)
    from 1(1) [OF False v(1) refl refl _ v(3) v(2)] v(2) show ?thesis by (simp add: not_less)
  qed (use 1 in \<open>simp add: parse_units.simps\<close>)
qed

text \<open>A duration fits 64 bits.\<close>

lemma ParseDuration_range: "ParseDuration s = Some d \<Longrightarrow> - (2 ^ 63) \<le> d \<and> d < 2 ^ 63"
  by (auto simp: ParseDuration_def Let_def split: if_splits option.splits dest!: parse_units_bound)

text \<open>Digits are read to their value as long as it fits.\<close>

lemma leadingInt_digits:
  assumes "list_all IsDigit ds" "rest = [] \<or> \<not> IsDigit (hd rest)" "x * 10 ^ length ds + digits_value ds \<le> 2 ^ 63"
  shows "leadingInt (ds @ rest) x = Some (x * 10 ^ length ds + digits_value ds, rest)"
  using assms
proof (induction ds arbitrary: x)
  case Nil
  then show ?case by (cases rest) (auto simp: digits_value_def)
next
  case (Cons c ds)
  let ?y = "x * 10 + digit_of c"
  have v: "x * 10 ^ length (c # ds) + digits_value (c # ds) = ?y * 10 ^ length ds + digits_value ds"
    by (simp add: digits_value_Cons algebra_simps)
  have "?y \<le> ?y * 10 ^ length ds + digits_value ds" by (rule trans_le_add1) simp
  with Cons.prems(3) have y: "?y \<le> 2 ^ 63" unfolding v by linarith
  then have "x \<le> 2 ^ 63 div 10" by simp
  with y Cons.prems Cons.IH [of ?y] show ?case unfolding v by (simp add: Let_def not_less)
qed

text \<open>What the Helm chart renders, a number of whole seconds, is read back exactly.\<close>

lemma leadingInt_overflow:
  assumes "list_all IsDigit ds" "2 ^ 63 < x * 10 ^ length ds + digits_value ds" "x \<le> 2 ^ 63"
  shows "leadingInt (ds @ rest) x = None"
  using assms
proof (induction ds arbitrary: x)
  case (Cons c ds)
  let ?y = "x * 10 + digit_of c"
  have v: "x * 10 ^ length (c # ds) + digits_value (c # ds) = ?y * 10 ^ length ds + digits_value ds"
    by (simp add: digits_value_Cons algebra_simps)
  from Cons.prems(1,2) Cons.IH [of ?y] show ?case unfolding v by (simp add: Let_def not_less)
qed (simp add: digits_value_def)

lemma parse_round_seconds:
  "parse_round (Itoa n @ ''s'') = (if n \<le> 2 ^ 63 div 1000000000 then Some (n * 1000000000, []) else None)"
proof (cases "n \<le> 2 ^ 63")
  case True
  have "leadingInt (Itoa n @ ''s'') 0 = Some (n, ''s'')"
    using leadingInt_digits [of "Itoa n" "''s''" 0] True by (simp add: Itoa_all_digits IsDigit_def)
  moreover have "unit_char (CHR ''s'')" by (simp add: unit_char_def IsDigit_def)
  ultimately show ?thesis
    using IsDigit_hd_Itoa [of n] by (simp add: parse_round_def fraction_part_def unitMap_def Let_def)
next
  case False
  then have "leadingInt (Itoa n @ ''s'') 0 = None"
    using leadingInt_overflow [of "Itoa n" 0 "''s''"] by (simp add: Itoa_all_digits)
  with False show ?thesis by (simp add: parse_round_def)
qed

lemma ParseDuration_seconds:
  "ParseDuration (Itoa n @ ''s'') = (if n * 1000000000 < 2 ^ 63 then Some (int n * 1000000000) else None)"
proof -
  have hd: "hd (Itoa n @ ''s'') = hd (Itoa n)" by simp
  have "length (Itoa n @ ''s'') \<noteq> 1" by simp
  then have "Itoa n @ ''s'' \<noteq> ''0''" by (metis One_nat_def length_Cons list.size(3))
  then show ?thesis
    using IsDigit_hd_Itoa [of n] unfolding ParseDuration_def Let_def hd
    by (auto simp: parse_units.simps [of "Itoa n @ ''s''"] parse_units.simps [of "[]"] parse_round_seconds Let_def)
qed

end
