(* ===== verification/FloatText.thy ===== *)
theory FloatText
  imports GoParse
begin

text \<open>
  Numbers as text: \<open>strconv.AppendInt\<close> in base 10, and \<open>strconv.AppendFloat\<close> with the shortest
  decimal that reads back as the same \<open>float64\<close>, in the layout \<open>encoding/json\<close> chooses. The
  reader of a decimal gives the rational it denotes; \<open>strconv.ParseFloat\<close> rounds it.
\<close>

section \<open>The values of \<open>float64\<close>\<close>

definition representable :: "rat \<Rightarrow> bool" where
  "representable x \<longleftrightarrow> round_f64 x = Fin x"

definition is_float64 :: "f64 \<Rightarrow> bool" where
  "is_float64 v = (case v of Fin x \<Rightarrow> representable x | _ \<Rightarrow> False)"

lemma round_f64_dyadic_result:
  assumes "round_f64 x = Fin y"
  shows "\<exists>m j. y = of_int m * 2 powi j \<and> \<bar>m\<bar> \<le> 2 ^ 53 \<and> - 1074 \<le> j \<and> \<bar>y\<bar> < 2 ^ 1024"
proof (cases "x = 0")
  case True
  then show ?thesis using assms by (intro exI [of _ 0]) (simp add: round_f64_def)
next
  case False
  let ?k = "max (ilog2 \<bar>x\<bar>) (- 1022)"
  let ?m = "round_half_even (x / ulp x)"
  have y: "y = of_int ?m * ulp x" "\<bar>y\<bar> < 2 ^ 1024"
    using assms False by (simp_all add: round_f64_def Let_def split: if_splits)
  have "\<bar>x\<bar> < 2 powi (ilog2 \<bar>x\<bar> + 1)" using False by (intro ilog2_bounds(2)) simp
  also have "\<dots> \<le> 2 powi (?k + 1)" by (rule power_int_increasing) auto
  also have "\<dots> = 2 ^ 53 * ulp x" by (simp add: ulp_def power_int_diff [symmetric] power_int_add power_int_diff)
  finally have "\<bar>x / ulp x\<bar> < 2 ^ 53" by (simp add: abs_mult divide_less_eq)
  then have "x / ulp x < 2 ^ 53" "- (x / ulp x) < 2 ^ 53" by (simp_all only: abs_less_iff)
  then have "?m \<le> 2 ^ 53" "- (2 ^ 53) \<le> ?m"
    by (intro round_half_even_le round_half_even_ge; simp)+
  then have m: "\<bar>?m\<bar> \<le> 2 ^ 53" by simp
  have "y = of_int ?m * 2 powi (?k - 52)" using y(1) unfolding ulp_def .
  moreover have "- 1074 \<le> ?k - 52" by simp
  ultimately show ?thesis using m y(2) by blast
qed

lemma representable_round: "round_f64 x = Fin y \<Longrightarrow> representable y"
  using round_f64_dyadic_result round_f64_dyadic unfolding representable_def by blast

lemma representable_dyadic:
  "representable y \<Longrightarrow> \<exists>m j. y = of_int m * 2 powi j \<and> \<bar>m\<bar> \<le> 2 ^ 53 \<and> - 1074 \<le> j \<and> \<bar>y\<bar> < 2 ^ 1024"
  unfolding representable_def by (rule round_f64_dyadic_result)

lemma round_half_even_minus: "round_half_even (- r) = - round_half_even r"
proof -
  let ?f = "\<lfloor>r\<rfloor>"
  show ?thesis
  proof (cases "r = of_int ?f")
    case True
    then show ?thesis by (metis of_int_minus round_half_even_of_int)
  next
    case False
    then have g: "\<lfloor>- r\<rfloor> = - ?f - 1" by linarith
    show ?thesis by (auto simp: round_half_even_def g Let_def field_simps)
  qed
qed

lemma round_f64_minus: "round_f64 (- x) = f64_neg (round_f64 x)"
  by (auto simp: round_f64_def ulp_def round_half_even_minus Let_def)

lemma representable_minus [simp]: "representable (- x) \<longleftrightarrow> representable x"
proof -
  have "representable (- y)" if r: "representable y" for y
  proof -
    obtain m j where "y = of_int m * 2 powi j" "\<bar>m\<bar> \<le> 2 ^ 53" "- 1074 \<le> j" "\<bar>y\<bar> < 2 ^ 1024"
      using representable_dyadic [OF r] by blast
    then show ?thesis unfolding representable_def by (intro round_f64_dyadic [of _ "- m" j]) simp_all
  qed
  from this [of x] this [of "- x"] show ?thesis by auto
qed

lemma is_float64_round: "round_f64 x = v \<Longrightarrow> IsFinite v \<Longrightarrow> is_float64 v"
  by (auto simp: is_float64_def IsFinite_iff representable_round)

lemma is_float64_mul: "IsFinite (f64_mul a b) \<Longrightarrow> is_float64 (f64_mul a b)"
  by (cases a; cases b) (auto simp: f64_inf_def IsFinite_def is_float64_def representable_round split: if_splits f64.splits)

lemma is_float64_of_int: "IsFinite (f64_of_int n) \<Longrightarrow> is_float64 (f64_of_int n)"
  unfolding f64_of_int_def by (rule is_float64_round [OF refl])

lemma is_float64_finite: "is_float64 v \<Longrightarrow> IsFinite v"
  by (cases v) (simp_all add: is_float64_def IsFinite_def)

text \<open>Every value has finitely many decimals, at most 1074 after the point.\<close>

lemma representable_decimals:
  assumes "representable x" and "1074 \<le> k"
  shows "\<exists>n. x * 10 ^ k = of_int n"
proof -
  obtain m j where x: "x = of_int m * 2 powi j" and j: "- 1074 \<le> j" using representable_dyadic [OF assms(1)] by blast
  have "(10::rat) ^ k = 2 ^ k * 5 ^ k" by (simp flip: power_mult_distrib)
  moreover have "(2::rat) powi j * 2 ^ k = of_int (2 ^ nat (j + int k))"
  proof -
    have "(2::rat) powi j * 2 ^ k = 2 powi (j + int k)" by (simp add: power_int_add)
    also have "\<dots> = 2 ^ nat (j + int k)" unfolding power_int_def using j assms(2) by simp
    finally show ?thesis by simp
  qed
  ultimately have "x * 10 ^ k = of_int (m * 2 ^ nat (j + int k) * 5 ^ k)" by (simp add: x mult_ac)
  then show ?thesis by blast
qed

section \<open>Integers\<close>

definition FormatInt :: "int \<Rightarrow> string" where
  "FormatInt n = (if n < 0 then CHR ''-'' # Itoa (nat (- n)) else Itoa (nat n))"

section \<open>The shortest decimal\<close>

text \<open>The decimal exponent \<open>p\<close> of a positive value, \<open>10^(p-1) \<le> x < 10^p\<close>, and the digits of \<open>x\<close>
  cut after \<open>n\<close> places.\<close>

definition decimal_exponent :: "rat \<Rightarrow> int" where
  "decimal_exponent x = int (length (Itoa (nat \<lfloor>x * 10 ^ 400\<rfloor>))) - 400"

definition decimal :: "nat \<Rightarrow> int \<Rightarrow> rat" where
  "decimal d k = of_nat d * 10 powi (- k)"

text \<open>With \<open>k\<close> places after the point, the truncated digits and the next ones up are candidates;
  a candidate is good when it reads back as \<open>x\<close>. The first \<open>k\<close> with a good candidate gives the
  shortest text; when both are good the nearer one is taken.\<close>

fun shortest :: "nat \<Rightarrow> rat \<Rightarrow> int \<Rightarrow> nat \<times> int" where
  "shortest fuel x k =
     (let y = x * 10 powi k; lo = nat \<lfloor>y\<rfloor>;
          down = (round_f64 (decimal lo k) = Fin x); up = (round_f64 (decimal (Suc lo) k) = Fin x)
      in if down \<and> up then (nat (round_half_even y), k)
         else if down then (lo, k)
         else if up then (Suc lo, k)
         else case fuel of 0 \<Rightarrow> (lo, k) | Suc fuel \<Rightarrow> shortest fuel x (k + 1))"

declare shortest.simps [simp del]

definition MaxPlaces :: nat where
  "MaxPlaces = 1500"

text \<open>The digits and the position of the decimal point (\<open>0.d1d2\<dots> * 10^p\<close>), without trailing zeros.\<close>

definition shortest_digits :: "rat \<Rightarrow> string \<times> int" where
  "shortest_digits x =
     (let (d, k) = shortest MaxPlaces x (1 - decimal_exponent x)
      in (TrimRight (Itoa d) (CHR ''0''), int (length (Itoa d)) - k))"

definition zeros :: "int \<Rightarrow> string" where
  "zeros n = replicate (nat n) (CHR ''0'')"

definition format_f :: "string \<Rightarrow> int \<Rightarrow> string" where
  "format_f ds p =
     (if 0 < p then take (nat p) ds @ zeros (p - int (length ds)) else ''0'') @
     (if p < int (length ds) then CHR ''.'' # zeros (- p) @ drop (nat p) ds else [])"

definition format_e :: "string \<Rightarrow> int \<Rightarrow> string" where
  "format_e ds p = take 1 ds @ (if 1 < length ds then CHR ''.'' # drop 1 ds else []) @
     CHR ''e'' # (if p - 1 < 0 then CHR ''-'' # Itoa (nat (1 - p)) else CHR ''+'' # Itoa (nat (p - 1)))"

definition FormatFloat :: "rat \<Rightarrow> string" where
  "FormatFloat x =
     (if x = 0 then ''0''
      else (if x < 0 then ''-'' else []) @
        (let (ds, p) = shortest_digits \<bar>x\<bar>
         in if \<bar>x\<bar> < 1 / 10 ^ 6 \<or> 10 ^ 21 \<le> \<bar>x\<bar> then format_e ds p else format_f ds p))"

section \<open>Reading a number\<close>

fun read_exponent :: "string \<Rightarrow> int option" where
  "read_exponent [] = Some 0"
| "read_exponent (c # cs) =
     (if c \<noteq> CHR ''e'' \<and> c \<noteq> CHR ''E'' then None
      else let sign = (case cs of d # _ \<Rightarrow> d = CHR ''-'' | [] \<Rightarrow> False);
               ds = (case cs of d # ds \<Rightarrow> if d = CHR ''-'' \<or> d = CHR ''+'' then ds else cs | [] \<Rightarrow> [])
           in if ds = [] \<or> \<not> list_all IsDigit ds then None
              else Some (if sign then - int (digits_value ds) else int (digits_value ds)))"

definition read_unsigned :: "string \<Rightarrow> rat option" where
  "read_unsigned s =
     (let ip = takeWhile IsDigit s; r = dropWhile IsDigit s;
          point = (case r of c # _ \<Rightarrow> c = CHR ''.'' | [] \<Rightarrow> False);
          fp = (if point then takeWhile IsDigit (tl r) else []);
          r = (if point then dropWhile IsDigit (tl r) else r)
      in if ip = [] \<or> point \<and> fp = [] then None
         else map_option (\<lambda>e. decimal (digits_value (ip @ fp)) (int (length fp) - e)) (read_exponent r))"

definition read_number :: "string \<Rightarrow> rat option" where
  "read_number s = (case s of
     c # cs \<Rightarrow> if c = CHR ''-'' then map_option uminus (read_unsigned cs) else read_unsigned s
   | [] \<Rightarrow> None)"

definition ParseFloat :: "string \<Rightarrow> f64 option" where
  "ParseFloat s = map_option round_f64 (read_number s)"

section \<open>The text of a value reads back\<close>

lemma round_half_even_near: "round_half_even y = \<lfloor>y\<rfloor> \<or> round_half_even y = \<lfloor>y\<rfloor> + 1"
  by (auto simp: round_half_even_def Let_def)

lemma decimal_shift: "decimal (d * 10 ^ m) (k + int m) = decimal d k"
  by (simp add: decimal_def power_int_add power_int_diff power_int_minus field_simps)

lemma shortest_reads_back:
  assumes "representable x" "0 \<le> x" "1074 \<le> int fuel + k" "shortest fuel x k = (d, j)"
  shows "round_f64 (decimal d j) = Fin x"
  using assms(3,4)
proof (induction fuel arbitrary: k)
  case (0 k)
  define y where "y = x * 10 powi k"
  have "y = x * 10 ^ nat k" unfolding y_def power_int_def using 0 by simp
  moreover have "1074 \<le> nat k" using 0 by simp
  ultimately obtain n where n: "y = of_int n" using representable_decimals [OF assms(1)] by metis
  have "0 \<le> y" using assms(2) by (simp add: y_def)
  then have "of_nat (nat n) = y" using n by simp
  then have "decimal (nat n) k = x" by (simp add: decimal_def y_def power_int_minus)
  moreover have "d = nat n \<and> j = k"
    using 0 calculation assms(1) n by (auto simp: shortest.simps [of 0] y_def [symmetric] representable_def Let_def split: if_splits)
  ultimately show ?case using assms(1) by (simp add: representable_def)
next
  case (Suc fuel k)
  define y where "y = x * 10 powi k"
  have "nat (\<lfloor>y\<rfloor> + 1) = Suc (nat \<lfloor>y\<rfloor>)" using assms(2) by (simp add: y_def Suc_nat_eq_nat_zadd1)
  then have r: "nat (round_half_even y) = nat \<lfloor>y\<rfloor> \<or> nat (round_half_even y) = Suc (nat \<lfloor>y\<rfloor>)"
    using round_half_even_near [of y] by auto
  have "shortest fuel x (k + 1) = (d, j) \<or> round_f64 (decimal d j) = Fin x"
    using Suc.prems(2) r by (auto simp: shortest.simps [of "Suc fuel"] y_def [symmetric] Let_def split: if_splits)
  then show ?case using Suc.IH [of "k + 1"] Suc.prems(1) by auto
qed

lemma length_Itoa_le: "0 < k \<Longrightarrow> n < 10 ^ k \<Longrightarrow> length (Itoa n) \<le> k"
proof (induction k arbitrary: n)
  case (Suc k)
  show ?case
  proof (cases "n < 10")
    case True
    then show ?thesis by (subst length_Itoa) simp
  next
    case False
    then have "0 < k" using Suc.prems by (cases k) auto
    moreover have "n div 10 < 10 ^ k" using Suc.prems(2) by (simp add: less_mult_imp_div_less mult.commute)
    ultimately show ?thesis using Suc.IH [of "n div 10"] False by (subst length_Itoa) simp
  qed
qed simp

lemma nat_floor_less_power:
  assumes "0 \<le> (y :: rat)" "y < 10 ^ k"
  shows "nat \<lfloor>y\<rfloor> < 10 ^ k"
proof -
  have "(of_nat (nat \<lfloor>y\<rfloor>) :: rat) \<le> y" using assms(1) by simp
  also note assms(2)
  finally have "(of_nat (nat \<lfloor>y\<rfloor>) :: rat) < of_nat (10 ^ k)" by simp
  then show ?thesis by (simp only: of_nat_less_iff)
qed

lemma decimal_exponent_le:
  assumes "representable x" "0 < x"
  shows "decimal_exponent x \<le> 309"
proof -
  have "\<bar>x\<bar> < 2 ^ 1024" using representable_dyadic [OF assms(1)] by blast
  moreover have "(2::rat) ^ 1024 \<le> 10 ^ 309" by simp
  ultimately have "x < 10 ^ 309" using assms(2) by linarith
  then have "x * 10 ^ 400 < 10 ^ 309 * 10 ^ 400" by (rule mult_strict_right_mono) simp
  then have b: "x * 10 ^ 400 < 10 ^ (309 + 400)" by (simp only: power_add)
  have "0 \<le> x * 10 ^ 400" by (rule mult_nonneg_nonneg) (use assms(2) in simp_all)
  from nat_floor_less_power [OF this b] have "length (Itoa (nat \<lfloor>x * 10 ^ 400\<rfloor>)) \<le> 309 + 400"
    by (rule length_Itoa_le [rotated]) simp
  then show ?thesis unfolding decimal_exponent_def by linarith
qed

lemma IsDigit_zero [simp]: "IsDigit (CHR ''0'')"
  by (simp add: IsDigit_def)

lemma digit_of_zero [simp]: "digit_of (CHR ''0'') = 0"
  by (simp add: digit_of_def)

lemma digits_value_Nil [simp]: "digits_value [] = 0"
  by (simp add: digits_value_def)

lemma digits_value_append: "digits_value (a @ b) = digits_value a * 10 ^ length b + digits_value b"
  by (induction a) (simp_all add: digits_value_Cons algebra_simps power_add)

lemma digits_value_replicate [simp]: "digits_value (replicate n (CHR ''0'')) = 0"
  by (induction n) (simp_all add: digits_value_Cons)

lemma digits_value_zeros [simp]: "digits_value (zeros n) = 0"
  by (simp add: zeros_def)

lemma zeros_digits [simp]: "list_all IsDigit (zeros n)"
  by (simp add: zeros_def list_all_length)

lemma length_zeros [simp]: "length (zeros n) = nat n"
  by (simp add: zeros_def)

lemma zeros_nonpos [simp]: "n \<le> 0 \<Longrightarrow> zeros n = []"
  by (simp add: zeros_def)

declare Itoa_all_digits [simp]

definition point_part :: "string \<Rightarrow> string" where
  "point_part fp = (if fp = [] then [] else CHR ''.'' # fp)"

text \<open>The layout a reader accepts: integer digits, an optional fraction, an optional exponent.\<close>

lemma read_unsigned_layout:
  assumes "list_all IsDigit ip" "ip \<noteq> []" "list_all IsDigit fp"
    and "read_exponent ex = Some e"
  shows "read_unsigned (ip @ point_part fp @ ex) = Some (decimal (digits_value (ip @ fp)) (int (length fp) - e))"
proof -
  have nd: "\<not> IsDigit (CHR ''.'')" "\<not> IsDigit (CHR ''e'')" "\<not> IsDigit (CHR ''E'')" by (simp_all add: IsDigit_def)
  have ex: "takeWhile IsDigit ex = [] \<and> dropWhile IsDigit ex = ex \<and> (case ex of c # _ \<Rightarrow> c \<noteq> CHR ''.'' | [] \<Rightarrow> True)"
    using assms(4) nd by (cases ex) (auto split: if_splits)
  have d: "takeWhile IsDigit (ds @ r) = ds @ takeWhile IsDigit r \<and> dropWhile IsDigit (ds @ r) = dropWhile IsDigit r"
    if "list_all IsDigit ds" for ds r using that by (induction ds) simp_all
  have w: "takeWhile IsDigit ds = ds" "dropWhile IsDigit ds = []" if "list_all IsDigit ds" for ds
    using d [OF that, of "[]"] by simp_all
  show ?thesis
    using assms ex nd d [OF assms(1)] d [OF assms(3)]
    by (cases ex) (auto simp: read_unsigned_def point_part_def Let_def w split: list.splits)
qed

lemma read_format_f:
  assumes "list_all IsDigit ds" "ds \<noteq> []"
  shows "read_unsigned (format_f ds p) = Some (decimal (digits_value ds) (int (length ds) - p))"
proof -
  consider (big) "int (length ds) \<le> p" | (mid) "0 < p" "p < int (length ds)" | (small) "p \<le> 0" by linarith
  then show ?thesis
  proof cases
    case big
    then have "format_f ds p = (ds @ zeros (p - int (length ds))) @ point_part [] @ []"
      using assms(2) by (cases ds) (auto simp: format_f_def point_part_def take_all)
    moreover have "decimal (digits_value ds * 10 ^ nat (p - int (length ds))) 0 = decimal (digits_value ds) (int (length ds) - p)"
      using decimal_shift [of "digits_value ds" "nat (p - int (length ds))" "int (length ds) - p"] big by simp
    ultimately show ?thesis
      using read_unsigned_layout [of "ds @ zeros (p - int (length ds))" "[]" "[]" 0] assms by (simp add: digits_value_append)
  next
    case mid
    then have "format_f ds p = take (nat p) ds @ point_part (drop (nat p) ds) @ []"
      by (auto simp: format_f_def point_part_def)
    moreover have "list_all IsDigit (take (nat p) ds)" "list_all IsDigit (drop (nat p) ds)"
      using assms(1) by (auto simp: list_all_iff dest: in_set_takeD in_set_dropD)
    ultimately show ?thesis
      using read_unsigned_layout [of "take (nat p) ds" "drop (nat p) ds" "[]" 0] mid assms(2) by (simp add: of_nat_diff)
  next
    case small
    then have "format_f ds p = ''0'' @ point_part (zeros (- p) @ ds) @ []"
      using assms(2) by (cases ds) (auto simp: format_f_def point_part_def)
    then show ?thesis
      using read_unsigned_layout [of "''0''" "zeros (- p) @ ds" "[]" 0] assms small by (simp add: digits_value_append digits_value_Cons)
  qed
qed

lemma read_format_e:
  assumes "list_all IsDigit ds" "ds \<noteq> []"
  shows "read_unsigned (format_e ds p) = Some (decimal (digits_value ds) (int (length ds) - p))"
proof -
  let ?ex = "CHR ''e'' # (if p - 1 < 0 then CHR ''-'' # Itoa (nat (1 - p)) else CHR ''+'' # Itoa (nat (p - 1)))"
  have "format_e ds p = take 1 ds @ point_part (drop 1 ds) @ ?ex"
    using assms(2) by (cases ds) (auto simp: format_e_def point_part_def)
  moreover have "read_exponent ?ex = Some (p - 1)" by simp
  moreover have "list_all IsDigit (take 1 ds)" "list_all IsDigit (drop 1 ds)" "take 1 ds \<noteq> []"
    using assms by (auto simp: list_all_iff dest: in_set_takeD in_set_dropD)
  ultimately show ?thesis
    using read_unsigned_layout [of "take 1 ds" "drop 1 ds" ?ex "p - 1"] by (cases ds) (auto simp: algebra_simps)
qed

lemma shortest_digits_value:
  assumes "representable x" "0 < x" "shortest_digits x = (ds, p)"
  shows "list_all IsDigit ds \<and> ds \<noteq> [] \<and> round_f64 (decimal (digits_value ds) (int (length ds) - p)) = Fin x"
proof -
  obtain d k where dk: "shortest MaxPlaces x (1 - decimal_exponent x) = (d, k)" by (metis surj_pair)
  have "1074 \<le> int MaxPlaces + (1 - decimal_exponent x)"
    using decimal_exponent_le [OF assms(1,2)] by (simp add: MaxPlaces_def)
  with dk assms(1,2) have r: "round_f64 (decimal d k) = Fin x" by (intro shortest_reads_back) simp_all
  have ds: "ds = TrimRight (Itoa d) (CHR ''0'')" and p: "p = int (length (Itoa d)) - k"
    using assms(3) dk by (simp_all add: shortest_digits_def)
  obtain j where j: "Itoa d = ds @ replicate j (CHR ''0'')"
    unfolding ds using TrimRight_split [of "Itoa d" "CHR ''0''"] by blast
  have v: "d = digits_value ds * 10 ^ j" using digits_value_Itoa [of d] unfolding j digits_value_append by simp
  have "int (length ds) - p = k - int j" unfolding p j by simp
  with decimal_shift [of "digits_value ds" j "k - int j"] have "decimal (digits_value ds) (int (length ds) - p) = decimal d k"
    by (simp add: v)
  moreover have "ds \<noteq> []"
  proof
    assume "ds = []"
    then have "d = 0" using v by simp
    with r assms(2) show False by (simp add: decimal_def round_f64_def)
  qed
  moreover have "list_all IsDigit ds" using Itoa_all_digits [of d] unfolding j by simp
  ultimately show ?thesis using r by simp
qed

lemma FormatFloat_unsigned:
  assumes "representable x" "0 < x"
  shows "map_option round_f64 (read_unsigned (FormatFloat x)) = Some (Fin x) \<and>
    IsDigit (hd (FormatFloat x)) \<and> FormatFloat x \<noteq> []"
proof -
  obtain ds p where d: "shortest_digits x = (ds, p)" by (metis surj_pair)
  note v = shortest_digits_value [OF assms d]
  have h: "IsDigit (hd (format_e ds p)) \<and> format_e ds p \<noteq> []" "IsDigit (hd (format_f ds p)) \<and> format_f ds p \<noteq> []"
    using v by (cases ds; simp add: format_e_def format_f_def take_Cons' nat_le_eq_zle)+
  then show ?thesis using v assms(2) d by (auto simp: FormatFloat_def read_format_e read_format_f)
qed

text \<open>The text of every \<open>float64\<close> reads back as that value.\<close>

lemma ParseFloat_FormatFloat: "representable x \<Longrightarrow> ParseFloat (FormatFloat x) = Some (Fin x)"
proof -
  assume r: "representable x"
  have m: "\<not> IsDigit (CHR ''-'')" by (simp add: IsDigit_def)
  consider "x = 0" | "0 < x" | "x < 0" by linarith
  then show ?thesis
  proof cases
    case 1
    have "read_number ''0'' = Some (decimal 0 0)" by (simp add: read_number_def read_unsigned_def digits_value_Cons)
    then show ?thesis using 1 by (simp add: ParseFloat_def FormatFloat_def decimal_def round_f64_def)
  next
    case 2
    with FormatFloat_unsigned [OF r] m show ?thesis
      by (cases "FormatFloat x") (auto simp: ParseFloat_def read_number_def)
  next
    case 3
    then have u: "map_option round_f64 (read_unsigned (FormatFloat (- x))) = Some (Fin (- x))"
      using FormatFloat_unsigned [of "- x"] r by simp
    have "FormatFloat x = CHR ''-'' # FormatFloat (- x)" using 3 by (simp add: FormatFloat_def)
    moreover obtain y where y: "read_unsigned (FormatFloat (- x)) = Some y" "round_f64 y = Fin (- x)" using u by auto
    moreover have "round_f64 (- y) = Fin x" using round_f64_minus [of y] y(2) by simp
    ultimately show ?thesis by (simp add: ParseFloat_def read_number_def)
  qed
qed

end
