(* ===== verification/MetricSource.thy ===== *)
theory MetricSource
  imports K8s SelfMetrics Rate FloatText
begin

text \<open>
  What the metric sources of \<open>internal/agent\<close> share: the targets of a tick, the log records, the
  surroundings of one tick, and the \<open>MetricSource\<close> interface as a locale. A source is a value of
  its own state type; \<open>Samples\<close> returns the samples map and the error of the Go function, and
  the state and the world (log and self-metrics) updated. A nil samples map is the empty map.
\<close>

record ServiceTarget =
  TSlug :: string
  TNamespace :: string
  TSelector :: string
  TPodNames :: "string list"

type_synonym samples = "(string, MetricSample list) fmap"

section \<open>The log\<close>

datatype level = LevelDebug | LevelInfo | LevelWarn | LevelError

text \<open>One constructor per log call of the program, with its attributes.\<close>

datatype log_event =
    LogMetricsAPIMissing
  | LogPodMetricsFailed string agent_error
  | LogPrimaryBack string string
  | LogPrimaryUnavailable string string
  | LogScrapeCapRefused int64 int64
  | LogUnmatched nat
  | LogOverrideUnmatched Role string
  | LogRoleUnresolved Role
  | LogRaterFull nat
  | LogUnrateable Role string
  | LogDroppedRows string nat
  | LogAllDropped string Role nat string
  | LogExcludedRows string nat
  | LogAmbiguous string Role "string list"
  | LogWithheld Role string "string list"
  | LogNonFinite string string
  | LogListPodsFailed string agent_error
  | LogDuplicateSlug string string string
  | LogTooManyDuplicates nat
  | LogSourceFailed string agent_error
  | LogNoWorkloads string
  | LogHeartbeatSent nat
  | LogTickFailed string
  | LogSourceConfigured string
  | LogOneShotCounter string
  | LogMetricsEndpoint string
  | LogMetricsServerStopped string
  | LogAgentStopped string

definition event_level :: "log_event \<Rightarrow> level" where
  "event_level e = (case e of
     LogDroppedRows _ _ \<Rightarrow> LevelDebug | LogExcludedRows _ _ \<Rightarrow> LevelDebug
   | LogPrimaryBack _ _ \<Rightarrow> LevelInfo | LogPrimaryUnavailable _ _ \<Rightarrow> LevelInfo
   | LogNoWorkloads _ \<Rightarrow> LevelInfo | LogHeartbeatSent _ \<Rightarrow> LevelInfo
   | LogSourceConfigured _ \<Rightarrow> LevelInfo | LogMetricsEndpoint _ \<Rightarrow> LevelInfo
   | LogTickFailed _ \<Rightarrow> LevelError | LogMetricsServerStopped _ \<Rightarrow> LevelError
   | LogAgentStopped _ \<Rightarrow> LevelError
   | _ \<Rightarrow> LevelWarn)"

fun is_LogUnmatched :: "log_event \<Rightarrow> bool" where
  "is_LogUnmatched (LogUnmatched n) = True"
| "is_LogUnmatched e = False"

text \<open>The records a metric source writes during a tick; the others come from the agent and from
  startup.\<close>

fun source_event :: "log_event \<Rightarrow> bool" where
  "source_event (LogScrapeCapRefused a b) = False"
| "source_event (LogListPodsFailed d e) = False"
| "source_event (LogDuplicateSlug s r h) = False"
| "source_event (LogTooManyDuplicates n) = False"
| "source_event (LogSourceFailed n e) = False"
| "source_event (LogNoWorkloads n) = False"
| "source_event (LogHeartbeatSent n) = False"
| "source_event (LogTickFailed e) = False"
| "source_event (LogSourceConfigured n) = False"
| "source_event (LogOneShotCounter n) = False"
| "source_event (LogMetricsEndpoint n) = False"
| "source_event (LogMetricsServerStopped e) = False"
| "source_event (LogAgentStopped e) = False"
| "source_event e = True"

record world =
  w_log :: "log_event list"
  w_metrics :: "obs_metrics option"

definition log :: "log_event \<Rightarrow> world \<Rightarrow> world" where
  "log e w = w\<lparr>w_log := w_log w @ [e]\<rparr>"

definition on_metrics :: "(obs_metrics option \<Rightarrow> obs_metrics option) \<Rightarrow> world \<Rightarrow> world" where
  "on_metrics f w = w\<lparr>w_metrics := f (w_metrics w)\<rparr>"

lemma log_simps [simp]:
  "w_log (log e w) = w_log w @ [e]" "w_metrics (log e w) = w_metrics w"
  "w_log (on_metrics f w) = w_log w" "w_metrics (on_metrics f w) = f (w_metrics w)"
  by (simp_all add: log_def on_metrics_def)

text \<open>The log of a source only grows, by records of its own.\<close>

definition log_extends :: "world \<Rightarrow> world \<Rightarrow> bool" where
  "log_extends w w' \<longleftrightarrow> (\<exists>evs. w_log w' = w_log w @ evs \<and> list_all source_event evs)"

lemma log_extends_refl [simp]: "log_extends w w"
  by (simp add: log_extends_def)

lemma log_extends_trans: "log_extends a b \<Longrightarrow> log_extends b c \<Longrightarrow> log_extends a c"
  unfolding log_extends_def by (elim exE conjE) (auto intro: exI [of _ "_ @ _"])

lemma log_extends_log: "log_extends a w \<Longrightarrow> source_event e \<Longrightarrow> log_extends a (log e w)"
  by (auto simp: log_extends_def)

lemma log_extends_metrics [simp]: "log_extends (on_metrics f w) w' = log_extends w w'" "log_extends w (on_metrics f w') = log_extends w w'"
  by (simp_all add: log_extends_def)

section \<open>One tick\<close>

text \<open>
  What the surroundings answer during one tick: pod metrics per namespace and selector, the
  scrape, the clock of the rater (nanoseconds), the duration of the scrape, and the two readings
  \<open>autoSource\<close> may take of its clock (\<open>UnixNano\<close>): the one of \<open>dueForRetry\<close> and the one stored
  on a switch.
\<close>

record tick_env =
  te_pod_metrics :: "string \<Rightarrow> string \<Rightarrow> pod_metrics_reply"
  te_scrape :: scrape_env
  te_rater_clock :: int
  te_scrape_seconds :: f64
  te_retry_clock :: int64
  te_switch_clock :: int64

section \<open>The interface\<close>

definition slugs_of :: "ServiceTarget list \<Rightarrow> string fset" where
  "slugs_of targets = fset_of_list (map TSlug targets)"

definition sample_keys :: "string list" where
  "sample_keys = [MetricCPUMillicores, MetricMemoryBytes]"

text \<open>A list of samples a heartbeat may carry: registry keys, none twice, values that are
  finite and of the format of a \<open>float64\<close>.\<close>

definition good_samples :: "MetricSample list \<Rightarrow> bool" where
  "good_samples ms \<longleftrightarrow>
     ms \<noteq> [] \<and> distinct (map Key ms) \<and> set (map Key ms) \<subseteq> set sample_keys \<and>
     list_all (\<lambda>m. is_float64 (Value m)) ms"

definition good_map :: "ServiceTarget list \<Rightarrow> samples \<Rightarrow> bool" where
  "good_map targets out \<longleftrightarrow> fmdom out |\<subseteq>| slugs_of targets \<and> fmpred (\<lambda>_ ms. good_samples ms) out"

type_synonym 's samples_op =
  "tick_env \<Rightarrow> ServiceTarget list \<Rightarrow> 's \<times> world \<Rightarrow> (samples \<times> agent_error option) \<times> ('s \<times> world)"

text \<open>
  The contract of \<open>MetricSource\<close>: samples are given only for targets of the tick and are fit for
  a heartbeat, an error comes without samples, the name is one of the exported source names, and
  the world only grows: log records of the sources are appended, and of
  the self-metrics only those of the sources change, in step with their labels and counts.
\<close>

locale metric_source =
  fixes Samples :: "'s samples_op" and SourceName :: "'s \<Rightarrow> string"
  assumes samples_good: "Samples env targets st = ((out, err), st') \<Longrightarrow> good_map targets out"
    and error_empty: "Samples env targets st = ((out, Some e), st') \<Longrightarrow> out = fmempty"
    and name_listed: "SourceName s \<in> {SourceMetricsServer, SourceExposition, SourceNone}"
    and log_grows: "Samples env targets (s, w) = (r, (s', w')) \<Longrightarrow> log_extends w w'"
    and metrics_framed: "Samples env targets (s, w) = (r, (s', w')) \<Longrightarrow> source_metrics (w_metrics w) (w_metrics w')"
begin

lemma lookup_good:
  assumes "Samples env targets st = ((out, err), st')" "fmlookup out slug = Some ms"
  shows "slug |\<in>| slugs_of targets \<and> good_samples ms"
proof -
  have "good_map targets out" by (rule samples_good [OF assms(1)])
  moreover have "slug |\<in>| fmdom out" using assms(2) by (rule fmdomI)
  ultimately show ?thesis using assms(2) by (auto simp: good_map_def dest: fmpredD)
qed

lemma name_exported: "SourceName s \<in> set ResourceSources"
  using name_listed [of s] by (auto simp: ResourceSources_def)

lemma no_targets: "Samples env [] st = ((out, err), st') \<Longrightarrow> out = fmempty"
  using samples_good [of env "[]" st out err st'] by (auto simp: good_map_def slugs_of_def fmdom_empty_iff)

end

text \<open>
  A source that also promises which scrapes it makes in a tick, with their outcomes and durations:
  the self-metrics count exactly these.
\<close>

locale counting_source = metric_source Samples SourceName
  for Samples :: "'s samples_op" and SourceName :: "'s \<Rightarrow> string" +
  fixes Scrapes :: "tick_env \<Rightarrow> ServiceTarget list \<Rightarrow> 's \<Rightarrow> (bool \<times> f64) list"
  assumes scrapes_counted: "Samples env targets (s, w) = (r, (s', w')) \<Longrightarrow>
    scrape_counts (Scrapes env targets s) (w_metrics w) (w_metrics w')"

lemma good_map_empty [simp]: "good_map targets fmempty"
  by (simp add: good_map_def)

lemma good_map_upd:
  "good_map targets out \<Longrightarrow> slug |\<in>| slugs_of targets \<Longrightarrow> good_samples ms \<Longrightarrow> good_map targets (fmupd slug ms out)"
  by (auto simp: good_map_def)

lemma slugs_of_member: "t \<in> set targets \<Longrightarrow> TSlug t |\<in>| slugs_of targets"
  by (auto simp: slugs_of_def fset_of_list_elem)

lemma sample_keys_mem [simp]: "MetricCPUMillicores \<in> set sample_keys" "MetricMemoryBytes \<in> set sample_keys"
  by (simp_all add: sample_keys_def)

end
