(* ===== verification/Latch.thy ===== *)
theory Latch
  imports Prelude
begin

text \<open>
  One-shot warnings. Many components report a standing condition once instead of on every tick:
  an \<open>atomic.Bool\<close> is set with the report and cleared when the condition ends. The locale states
  what such a component does on one input, which raises the condition, clears it or says
  nothing about it; its lemmas count the reports of a whole run.
\<close>

datatype latch_input = Raise | Clear | Hold

text \<open>The rising edges of a condition: how often it is raised while not standing.\<close>

fun rising :: "bool \<Rightarrow> latch_input list \<Rightarrow> nat" where
  "rising b [] = 0"
| "rising b (Raise # is) = (if b then 0 else 1) + rising True is"
| "rising b (Clear # is) = rising False is"
| "rising b (Hold # is) = rising b is"

fun standing :: "bool \<Rightarrow> latch_input list \<Rightarrow> bool" where
  "standing b [] = b"
| "standing b (Raise # is) = standing True is"
| "standing b (Clear # is) = standing False is"
| "standing b (Hold # is) = standing b is"

lemma rising_standing: "rising True is \<le> length (filter (\<lambda>i. i = Clear) is)"
  "rising False is \<le> Suc (length (filter (\<lambda>i. i = Clear) is))"
proof (induction "is")
  case (Cons i "is")
  {
    case 1 show ?case using Cons by (cases i) auto
  next
    case 2 show ?case using Cons by (cases i) auto
  }
qed simp_all

lemma rising_le: "rising b is \<le> Suc (length (filter (\<lambda>i. i = Clear) is))"
  using rising_standing [of "is"] by (cases b) auto

locale latch =
  fixes ok :: "'s \<Rightarrow> bool" and classify :: "'i \<Rightarrow> latch_input" and observe :: "'i \<Rightarrow> 's \<Rightarrow> 's"
    and reported :: "'s \<Rightarrow> bool" and reports :: "'s \<Rightarrow> nat"
  assumes ok_observe: "ok s \<Longrightarrow> ok (observe i s)"
    and raise: "ok s \<Longrightarrow> classify i = Raise \<Longrightarrow>
      reported (observe i s) \<and> reports (observe i s) = reports s + (if reported s then 0 else 1)"
    and clear: "ok s \<Longrightarrow> classify i = Clear \<Longrightarrow> \<not> reported (observe i s) \<and> reports (observe i s) = reports s"
    and hold: "ok s \<Longrightarrow> classify i = Hold \<Longrightarrow>
      reported (observe i s) = reported s \<and> reports (observe i s) = reports s"
begin

lemma run:
  "ok s \<Longrightarrow> reports (fold observe is s) = reports s + rising (reported s) (map classify is) \<and>
     reported (fold observe is s) = standing (reported s) (map classify is) \<and> ok (fold observe is s)"
proof (induction "is" arbitrary: s)
  case (Cons i "is")
  then have ok: "ok (observe i s)" by (simp add: ok_observe)
  show ?case
    using Cons.IH [OF ok] raise [OF Cons.prems] clear [OF Cons.prems] hold [OF Cons.prems]
    by (cases "classify i") auto
qed simp

lemma run_reports: "ok s \<Longrightarrow> reports (fold observe is s) = reports s + rising (reported s) (map classify is)"
  using run by blast

lemma run_bounded:
  "ok s \<Longrightarrow> reports (fold observe is s) \<le> reports s + Suc (length (filter (\<lambda>i. classify i = Clear) is))"
  using rising_le [of "reported s" "map classify is"] by (simp add: run_reports filter_map comp_def)

end

end
