(* ===== verification/MetricsServer.thy ===== *)
theory MetricsServer
  imports MetricSource Latch
begin

text \<open>
  The metrics-server source and the source that disables resource metrics, from
  \<open>internal/agent/source.go\<close>.
\<close>

record metricsServerSource =
  warned :: bool

definition newMetricsServerSource :: metricsServerSource where
  "newMetricsServerSource = \<lparr>warned = False\<rparr>"

definition metricsServer_Name :: "metricsServerSource \<Rightarrow> string" where
  "metricsServer_Name s = SourceMetricsServer"

definition reading_samples :: "int64 \<Rightarrow> int64 \<Rightarrow> MetricSample list" where
  "reading_samples cpu mem =
     [\<lparr>Key = MetricCPUMillicores, Value = f64_of_int (sint cpu)\<rparr>,
      \<lparr>Key = MetricMemoryBytes, Value = f64_of_int (sint mem)\<rparr>]"

text \<open>The loop over the targets; \<open>Inl\<close> is its early return.\<close>

fun read_loop :: "(string \<Rightarrow> string \<Rightarrow> pod_metrics_reply) \<Rightarrow> ServiceTarget list \<Rightarrow>
    samples \<times> bool \<times> bool \<Rightarrow> metricsServerSource \<times> world \<Rightarrow>
    (metricsServerSource \<times> world) + (samples \<times> bool \<times> bool) \<times> (metricsServerSource \<times> world)" where
  "read_loop read [] acc sw = Inr (acc, sw)"
| "read_loop read (t # ts) (out, attempted, answered) (s, w) =
     (if TSelector t = [] then read_loop read ts (out, attempted, answered) (s, w)
      else case read (TNamespace t) (TSelector t) of (cpu, mem, available, err) \<Rightarrow>
        (case err of
           Some e \<Rightarrow>
             if e = MetricsAPIUnavailable then
               Inl (if warned s then (s, w) else (s\<lparr>warned := True\<rparr>, log LogMetricsAPIMissing w))
             else read_loop read ts (out, True, answered) (s, log (LogPodMetricsFailed (TSlug t) e) w)
         | None \<Rightarrow>
             if \<not> available then read_loop read ts (out, True, True) (s, w)
             else read_loop read ts (fmupd (TSlug t) (reading_samples cpu mem) out, True, True) (s, w)))"

definition metricsServer_Samples :: "metricsServerSource samples_op" where
  "metricsServer_Samples env targets sw =
     (case read_loop (te_pod_metrics env) targets (fmempty, False, False) sw of
        Inl sw' \<Rightarrow> ((fmempty, Some MetricsAPIUnavailable), sw')
      | Inr ((out, attempted, answered), (s, w)) \<Rightarrow>
          (let s = (if answered then s\<lparr>warned := False\<rparr> else s)
           in if attempted \<and> \<not> answered then ((fmempty, Some MetricsReadsAllFailed), (s, w))
              else ((out, None), (s, w))))"

text \<open>\<open>noneSource\<close>.\<close>

definition none_Name :: "unit \<Rightarrow> string" where
  "none_Name s = SourceNone"

definition none_Samples :: "unit samples_op" where
  "none_Samples env targets sw = ((fmempty, None), sw)"

section \<open>The loop as a function of the reads\<close>

text \<open>The reads a tick makes, in order: one per target with a selector.\<close>

definition reads :: "(string \<Rightarrow> string \<Rightarrow> pod_metrics_reply) \<Rightarrow> ServiceTarget list \<Rightarrow>
    (ServiceTarget \<times> pod_metrics_reply) list" where
  "reads read targets = map (\<lambda>t. (t, read (TNamespace t) (TSelector t))) (filter (\<lambda>t. TSelector t \<noteq> []) targets)"

definition api_missing :: "ServiceTarget \<times> pod_metrics_reply \<Rightarrow> bool" where
  "api_missing r = (snd (snd (snd (snd r))) = Some MetricsAPIUnavailable)"

definition answered_read :: "ServiceTarget \<times> pod_metrics_reply \<Rightarrow> bool" where
  "answered_read r = (snd (snd (snd (snd r))) = None)"

definition reading_of :: "ServiceTarget \<times> pod_metrics_reply \<Rightarrow> samples \<Rightarrow> samples" where
  "reading_of r out = (case r of (t, cpu, mem, available, err) \<Rightarrow>
     if err = None \<and> available then fmupd (TSlug t) (reading_samples cpu mem) out else out)"

lemma reads_simps [simp]:
  "reads read [] = []"
  "reads read (t # ts) = (if TSelector t = [] then reads read ts
     else (t, read (TNamespace t) (TSelector t)) # reads read ts)"
  by (simp_all add: reads_def)

text \<open>What the loop leaves, from the reads it makes: the early return with its one-time warning, or
  the accumulated readings.\<close>

definition loop_post :: "(ServiceTarget \<times> pod_metrics_reply) list \<Rightarrow> samples \<times> bool \<times> bool \<Rightarrow>
    metricsServerSource \<times> world \<Rightarrow>
    (metricsServerSource \<times> world) + (samples \<times> bool \<times> bool) \<times> (metricsServerSource \<times> world) \<Rightarrow> bool" where
  "loop_post rs acc sw res = (case res of
      Inl sw' \<Rightarrow> list_ex api_missing rs \<and> warned (fst sw') \<and> w_metrics (snd sw') = w_metrics (snd sw) \<and>
        (\<exists>evs. LogMetricsAPIMissing \<notin> set evs \<and> list_all source_event evs \<and>
           w_log (snd sw') = w_log (snd sw) @ evs @ (if warned (fst sw) then [] else [LogMetricsAPIMissing]))
    | Inr (acc', sw') \<Rightarrow> \<not> list_ex api_missing rs \<and>
        acc' = (fold reading_of rs (fst acc), fst (snd acc) \<or> rs \<noteq> [], snd (snd acc) \<or> list_ex answered_read rs) \<and>
        fst sw' = fst sw \<and> w_metrics (snd sw') = w_metrics (snd sw) \<and>
        (\<exists>evs. LogMetricsAPIMissing \<notin> set evs \<and> list_all source_event evs \<and> w_log (snd sw') = w_log (snd sw) @ evs))"

lemma loop_post_read:
  assumes "\<not> api_missing r" "answered_read r"
    and "loop_post rs (reading_of r out, True, True) sw res"
  shows "loop_post (r # rs) (out, att, ans) sw res"
  using assms by (cases res) (auto simp: loop_post_def)

lemma loop_post_failed:
  assumes "\<not> api_missing r" "\<not> answered_read r" "reading_of r out = out" "e \<noteq> LogMetricsAPIMissing" "source_event e"
    and "loop_post rs (out, True, ans) (s, log e w) res"
  shows "loop_post (r # rs) (out, att, ans) (s, w) res"
proof (cases res)
  case (Inl sw')
  then obtain evs where "LogMetricsAPIMissing \<notin> set evs" "list_all source_event evs"
    "w_log (snd sw') = w_log (log e w) @ evs @ (if warned s then [] else [LogMetricsAPIMissing])"
    using assms(6) by (auto simp: loop_post_def)
  with Inl assms show ?thesis by (auto simp: loop_post_def intro!: exI [of _ "e # evs"])
next
  case (Inr x)
  then obtain evs where "LogMetricsAPIMissing \<notin> set evs" "list_all source_event evs" "w_log (snd (snd x)) = w_log (log e w) @ evs"
    using assms(6) by (cases x) (auto simp: loop_post_def)
  with Inr assms show ?thesis by (cases x) (auto simp: loop_post_def intro!: exI [of _ "e # evs"])
qed

lemma read_loop_spec: "loop_post (reads read ts) (out, att, ans) (s, w) (read_loop read ts (out, att, ans) (s, w))"
proof (induction ts arbitrary: out att ans s w)
  case Nil
  show ?case by (simp add: loop_post_def)
next
  case (Cons t ts)
  show ?case
  proof (cases "TSelector t = []")
    case True
    then show ?thesis using Cons by simp
  next
    case False
    obtain cpu mem available err where r: "read (TNamespace t) (TSelector t) = (cpu, mem, available, err)"
      by (cases "read (TNamespace t) (TSelector t)")
    consider "err = None" | "err = Some MetricsAPIUnavailable"
      | e where "err = Some e" "e \<noteq> MetricsAPIUnavailable" by (cases err) auto
    then show ?thesis
    proof cases
      case 1
      then show ?thesis
        using False r Cons
        by (auto simp: api_missing_def answered_read_def reading_of_def intro!: loop_post_read)
    next
      case 2
      then show ?thesis using False r by (auto simp: loop_post_def api_missing_def)
    next
      case 3
      then show ?thesis
        using False r Cons
        by (auto simp: api_missing_def answered_read_def reading_of_def
            intro!: loop_post_failed [where e = "LogPodMetricsFailed (TSlug t) e"])
    qed
  qed
qed

lemma metricsServer_cases:
  "let rs = reads (te_pod_metrics env) targets; r = metricsServer_Samples env targets (s, w);
       s' = fst (snd r); w' = snd (snd r)
   in fst r = (if list_ex api_missing rs then (fmempty, Some MetricsAPIUnavailable)
        else if rs \<noteq> [] \<and> \<not> list_ex answered_read rs then (fmempty, Some MetricsReadsAllFailed)
        else (fold reading_of rs fmempty, None)) \<and>
      warned s' = (if list_ex api_missing rs then True else if list_ex answered_read rs then False else warned s) \<and>
      w_metrics w' = w_metrics w \<and>
      (\<exists>evs. LogMetricsAPIMissing \<notin> set evs \<and> list_all source_event evs \<and>
         w_log w' = w_log w @ evs @ (if list_ex api_missing rs \<and> \<not> warned s then [LogMetricsAPIMissing] else []))"
proof -
  note l = read_loop_spec [of "te_pod_metrics env" targets fmempty False False s w]
  show ?thesis
  proof (cases "read_loop (te_pod_metrics env) targets (fmempty, False, False) (s, w)")
    case (Inl sw')
    with l show ?thesis by (cases sw') (auto simp: loop_post_def metricsServer_Samples_def Let_def)
  next
    case (Inr x)
    with l show ?thesis
      by (cases x) (auto simp: loop_post_def metricsServer_Samples_def Let_def split: prod.splits)
  qed
qed

section \<open>The contract\<close>

lemma good_reading: "good_samples (reading_samples cpu mem)"
  by (simp add: good_samples_def reading_samples_def sample_keys_def is_float64_of_int f64_of_int64_finite)

lemma reading_of_good:
  "good_map targets out \<Longrightarrow> fst r \<in> set targets \<Longrightarrow> good_map targets (reading_of r out)"
  by (cases r) (auto simp: reading_of_def intro: good_map_upd slugs_of_member good_reading)

lemma fold_reading_good: "good_map targets (fold reading_of (reads read targets) fmempty)"
  by (rule fold_invariant) (auto simp: reads_def intro: reading_of_good)

interpretation metrics_server: metric_source metricsServer_Samples metricsServer_Name
proof
  fix env targets st out err st'
  assume "metricsServer_Samples env targets st = ((out, err), st')"
  then show "good_map targets out"
    using metricsServer_cases [of env targets "fst st" "snd st"] fold_reading_good [of targets]
    by (auto simp: Let_def split: if_splits)
next
  fix env targets st out e st'
  assume "metricsServer_Samples env targets st = ((out, Some e), st')"
  then show "out = fmempty"
    using metricsServer_cases [of env targets "fst st" "snd st"] by (auto simp: Let_def split: if_splits)
next
  fix s show "metricsServer_Name s \<in> {SourceMetricsServer, SourceExposition, SourceNone}"
    by (simp add: metricsServer_Name_def)
next
  fix env targets s w r s' w'
  assume "metricsServer_Samples env targets (s, w) = (r, (s', w'))"
  then show "log_extends w w'" "source_metrics (w_metrics w) (w_metrics w')"
    using metricsServer_cases [of env targets s w] by (auto simp: Let_def log_extends_def)
qed

interpretation none_source: metric_source none_Samples none_Name
  by unfold_locales (auto simp: none_Samples_def none_Name_def)

text \<open>Neither source scrapes.\<close>

lemma metricsServer_metrics:
  "metricsServer_Samples env targets (s, w) = (r, (s', w')) \<Longrightarrow> w_metrics w' = w_metrics w"
  using metricsServer_cases [of env targets s w] by (simp add: Let_def)

interpretation metrics_server: counting_source metricsServer_Samples metricsServer_Name "\<lambda>_ _ _. []"
  by unfold_locales (simp add: metricsServer_metrics)

interpretation none_source: counting_source none_Samples none_Name "\<lambda>_ _ _. []"
  by unfold_locales (simp add: none_Samples_def)

section \<open>Properties\<close>

text \<open>
  What a tick of the metrics-server source answers, from the reads it makes (one per target
  with a selector): \<open>ErrMetricsAPIUnavailable\<close> as soon as one read says the API is missing;
  \<open>ErrMetricsReadsAllFailed\<close> when there were reads and every one failed otherwise; and in every
  other case no error and, for each target whose read was available, its CPU and memory, a
  failed read costing only its own target.
\<close>

theorem metricsServer_tick:
  "fst (metricsServer_Samples env targets (s, w)) =
     (let rs = reads (te_pod_metrics env) targets
      in if list_ex api_missing rs then (fmempty, Some MetricsAPIUnavailable)
         else if rs \<noteq> [] \<and> filter answered_read rs = [] then (fmempty, Some MetricsReadsAllFailed)
         else (fold reading_of rs fmempty, None))"
proof -
  have "list_ex answered_read rs \<longleftrightarrow> filter answered_read rs \<noteq> []" for rs
    by (auto simp: list_ex_iff filter_empty_conv)
  then show ?thesis using metricsServer_cases [of env targets s w] by (simp add: Let_def)
qed

definition outage_input :: "tick_env \<times> ServiceTarget list \<Rightarrow> latch_input" where
  "outage_input tick =
     (let rs = reads (te_pod_metrics (fst tick)) (snd tick)
      in if list_ex api_missing rs then Raise else if list_ex answered_read rs then Clear else Hold)"

definition metricsServer_step :: "tick_env \<times> ServiceTarget list \<Rightarrow> metricsServerSource \<times> world \<Rightarrow> metricsServerSource \<times> world" where
  "metricsServer_step tick sw = snd (metricsServer_Samples (fst tick) (snd tick) sw)"

definition outage_reports :: "metricsServerSource \<times> world \<Rightarrow> nat" where
  "outage_reports sw = length (filter (\<lambda>e. e = LogMetricsAPIMissing) (w_log (snd sw)))"

lemma metricsServer_step_latch:
  "warned (fst (metricsServer_step tick sw)) =
     (case outage_input tick of Raise \<Rightarrow> True | Clear \<Rightarrow> False | Hold \<Rightarrow> warned (fst sw)) \<and>
   outage_reports (metricsServer_step tick sw) = outage_reports sw +
     (case outage_input tick of Raise \<Rightarrow> (if warned (fst sw) then 0 else 1) | _ \<Rightarrow> 0)"
proof -
  have nil: "filter (\<lambda>e. e = LogMetricsAPIMissing) evs = []" if "LogMetricsAPIMissing \<notin> set evs \<and> list_all source_event evs" for evs
    using that by (auto simp: filter_empty_conv)
  show ?thesis
    using metricsServer_cases [of "fst tick" "snd tick" "fst sw" "snd sw"] nil
    by (auto simp: metricsServer_step_def outage_input_def outage_reports_def Let_def)
qed

interpretation outage: latch "\<lambda>_. True" outage_input metricsServer_step "\<lambda>sw. warned (fst sw)" outage_reports
  by unfold_locales (simp_all add: metricsServer_step_latch)

text \<open>
  C21. One line per outage: over any run of ticks, the warning that the metrics API is missing is
  logged exactly once for every outage, where an outage begins with a read that finds the API
  missing and ends only with a tick in which some read succeeded; ticks that read nothing or
  whose reads all failed otherwise neither end nor begin one.
\<close>

theorem outage_reported_once:
  "outage_reports (fold metricsServer_step ticks (s, w)) =
     outage_reports (s, w) + rising (warned s) (map outage_input ticks) \<and>
   outage_reports (fold metricsServer_step ticks (s, w)) \<le>
     outage_reports (s, w) + Suc (length (filter (\<lambda>t. outage_input t = Clear) ticks))"
  using outage.run_reports [of ticks "(s, w)"] outage.run_bounded [of ticks "(s, w)"]
  by simp

end
