(* ===== verification/Exposition.thy ===== *)
theory Exposition
  imports MetricSource
begin

text \<open>
  \<open>internal/agent/exposition.go\<close>: the source that scrapes a Prometheus exposition once per tick,
  selects one family per role, rates the counter families and sums the rows of each service.
  Every method is one definition; \<open>atomic.Bool\<close> latches are boolean fields and a
  \<open>CompareAndSwap\<close> from false to true is a test of the field followed by setting it. Go's
  iteration order over the map \<open>contributed\<close> is not fixed; the model iterates in sorted order
  and \<open>emit_samples_order\<close> below shows that the samples do not depend on it.
\<close>

section \<open>Attribution of rows to services\<close>

definition DefaultSlugLabel :: string where
  "DefaultSlugLabel = ''zensu_service''"

record slugIndex =
  known :: "string fset"
  byNamespacedPod :: "(string, string) fmap"
  byPod :: "(string, string) fmap"

definition index_pod :: "ServiceTarget \<Rightarrow> string \<Rightarrow> slugIndex \<Rightarrow> slugIndex" where
  "index_pod t name idx =
     (let idx = (case PodKey (TNamespace t) name of
          Some key \<Rightarrow> idx\<lparr>byNamespacedPod := fmupd key (TSlug t) (byNamespacedPod idx)\<rparr>
        | None \<Rightarrow> idx)
      in case fmlookup (byPod idx) name of
           Some existing \<Rightarrow>
             if existing \<noteq> TSlug t then idx\<lparr>byPod := fmupd name [] (byPod idx)\<rparr>
             else idx\<lparr>byPod := fmupd name (TSlug t) (byPod idx)\<rparr>
         | None \<Rightarrow> idx\<lparr>byPod := fmupd name (TSlug t) (byPod idx)\<rparr>)"

definition index_target :: "ServiceTarget \<Rightarrow> slugIndex \<Rightarrow> slugIndex" where
  "index_target t idx = fold (index_pod t) (TPodNames t) (idx\<lparr>known := finsert (TSlug t) (known idx)\<rparr>)"

definition newSlugIndex :: "ServiceTarget list \<Rightarrow> slugIndex" where
  "newSlugIndex targets =
     fold index_target targets \<lparr>known = {||}, byNamespacedPod = fmempty, byPod = fmempty\<rparr>"

definition nonempty_slug :: "string option \<Rightarrow> string option" where
  "nonempty_slug s = (case s of Some slug \<Rightarrow> if slug = [] then None else Some slug | None \<Rightarrow> None)"

definition resolve :: "slugIndex \<Rightarrow> Series \<Rightarrow> string \<Rightarrow> string option" where
  "resolve i row slugLabel =
     (let slug = fmget [] (SLabels row) slugLabel in
      if slug \<noteq> [] then (if slug |\<in>| known i then Some slug else None)
      else let pod = PodLabel (SLabels row) in
        if pod = [] then None
        else case PodKey (NamespaceLabel (SLabels row)) pod of
          Some key \<Rightarrow> nonempty_slug (fmlookup (byNamespacedPod i) key)
        | None \<Rightarrow> nonempty_slug (fmlookup (byPod i) pod))"

section \<open>The state of the source\<close>

record ExpositionConfig =
  XURL :: string
  XSlugLabel :: string
  XCPUMetric :: string
  XMemoryMetric :: string
  XTimeout :: int
  XMaxBytes :: int64
  XRater :: RaterOptions

record expositionSource =
  client :: Client
  rater :: Rater
  resolver :: Resolver
  slugLabel :: string
  unmatchedWarned :: bool
  cpuUnresolved :: bool
  memoryUnresolved :: bool
  cpuUnrateable :: bool
  memoryUnrateable :: bool
  cpuAmbiguous :: bool
  memoryAmbiguous :: bool
  cpuAllDropped :: bool
  memoryAllDropped :: bool
  cpuWithheld :: "string option"
  memoryWithheld :: "string option"
  raterFullWarned :: bool

definition newExpositionSource ::
    "int64 \<Rightarrow> ExpositionConfig \<Rightarrow> world \<Rightarrow> expositionSource \<times> world" where
  "newExpositionSource runtime_limit cfg w =
     (let label = (if XSlugLabel cfg = [] then DefaultSlugLabel else XSlugLabel cfg);
          c = NewClient (XURL cfg) (XTimeout cfg);
          (c, w) =
            (if 0 < sint (XMaxBytes cfg) then
               (let c = c\<lparr>MaxBytes := XMaxBytes cfg\<rparr>;
                    effective = EffectiveMaxBytes runtime_limit c
                in (c, if effective \<noteq> XMaxBytes cfg
                       then log (LogScrapeCapRefused (XMaxBytes cfg) effective) w else w))
             else (c, w))
      in (\<lparr>client = c, rater = NewRater [XRater cfg],
           resolver = \<lparr>CPUOverride = XCPUMetric cfg, MemoryOverride = XMemoryMetric cfg\<rparr>,
           slugLabel = label, unmatchedWarned = False, cpuUnresolved = False, memoryUnresolved = False,
           cpuUnrateable = False, memoryUnrateable = False, cpuAmbiguous = False, memoryAmbiguous = False,
           cpuAllDropped = False, memoryAllDropped = False, cpuWithheld = None, memoryWithheld = None,
           raterFullWarned = False\<rparr>, w))"

definition exposition_Name :: "expositionSource \<Rightarrow> string" where
  "exposition_Name s = SourceExposition"

section \<open>Latches\<close>

datatype latchKind = LatchUnrateable | LatchAmbiguous | LatchAllDropped

definition roleLatch :: "Role \<Rightarrow> latchKind \<Rightarrow> expositionSource \<Rightarrow> bool" where
  "roleLatch role kind s =
     (let memory = (role = RoleMemory) in case kind of
        LatchAmbiguous \<Rightarrow> if memory then memoryAmbiguous s else cpuAmbiguous s
      | LatchAllDropped \<Rightarrow> if memory then memoryAllDropped s else cpuAllDropped s
      | LatchUnrateable \<Rightarrow> if memory then memoryUnrateable s else cpuUnrateable s)"

definition store_roleLatch :: "Role \<Rightarrow> latchKind \<Rightarrow> bool \<Rightarrow> expositionSource \<Rightarrow> expositionSource" where
  "store_roleLatch role kind b s =
     (let memory = (role = RoleMemory) in case kind of
        LatchAmbiguous \<Rightarrow> if memory then s\<lparr>memoryAmbiguous := b\<rparr> else s\<lparr>cpuAmbiguous := b\<rparr>
      | LatchAllDropped \<Rightarrow> if memory then s\<lparr>memoryAllDropped := b\<rparr> else s\<lparr>cpuAllDropped := b\<rparr>
      | LatchUnrateable \<Rightarrow> if memory then s\<lparr>memoryUnrateable := b\<rparr> else s\<lparr>cpuUnrateable := b\<rparr>)"

definition withheldReport :: "Role \<Rightarrow> expositionSource \<Rightarrow> string option" where
  "withheldReport role s = (if role = RoleMemory then memoryWithheld s else cpuWithheld s)"

definition store_withheldReport :: "Role \<Rightarrow> string option \<Rightarrow> expositionSource \<Rightarrow> expositionSource" where
  "store_withheldReport role v s =
     (if role = RoleMemory then s\<lparr>memoryWithheld := v\<rparr> else s\<lparr>cpuWithheld := v\<rparr>)"

text \<open>\<open>latch.CompareAndSwap(false, true)\<close> guarding one log record.\<close>

definition warn_latched :: "Role \<Rightarrow> latchKind \<Rightarrow> log_event \<Rightarrow> expositionSource \<times> world \<Rightarrow> expositionSource \<times> world" where
  "warn_latched role kind e sw =
     (let (s, w) = sw in
      if roleLatch role kind s then (s, w) else (store_roleLatch role kind True s, log e w))"

definition metricKeyFor :: "Role \<Rightarrow> string" where
  "metricKeyFor role = (if role = RoleMemory then MetricMemoryBytes else MetricCPUMillicores)"

definition join_comma :: "string list \<Rightarrow> string" where
  "join_comma xs = (case xs of [] \<Rightarrow> [] | x # rest \<Rightarrow> x @ concat (map (\<lambda>y. CHR '','' # y) rest))"

section \<open>Reporting\<close>

definition warnRoleUnresolved :: "Role \<Rightarrow> string \<Rightarrow> expositionSource \<times> world \<Rightarrow> expositionSource \<times> world" where
  "warnRoleUnresolved role override sw =
     (let (s, w) = sw;
          latched = (if role = RoleMemory then memoryUnresolved s else cpuUnresolved s)
      in if latched then (s, w)
         else let s = (if role = RoleMemory then s\<lparr>memoryUnresolved := True\<rparr> else s\<lparr>cpuUnresolved := True\<rparr>)
              in if override \<noteq> [] then (s, log (LogOverrideUnmatched role override) w)
                 else (s, log (LogRoleUnresolved role) w))"

definition reportWithheld :: "Role \<Rightarrow> string \<Rightarrow> string fset \<Rightarrow> bool \<Rightarrow>
    expositionSource \<times> world \<Rightarrow> expositionSource \<times> world" where
  "reportWithheld role metric incomplete firstObservation sw =
     (let (s, w) = sw;
          slugs = sorted_list_of_fset incomplete;
          w = on_metrics (SetRolesWithheld (Role_String role) (length slugs)) w
      in if slugs = [] then (store_withheldReport role None s, w)
         else if firstObservation then (s, w)
         else let signature = join_comma slugs
              in if withheldReport role s = Some signature then (s, w)
                 else (store_withheldReport role (Some signature) s, log (LogWithheld role metric slugs) w))"

section \<open>Rating\<close>

definition rateCounters :: "int \<Rightarrow> Selection list \<Rightarrow> expositionSource \<times> world \<Rightarrow>
    (string, f64) fmap \<times> (expositionSource \<times> world)" where
  "rateCounters t selections sw =
     (let (s, w) = sw;
          counters = concat (map SelSeries (filter Rateable selections));
          rateable = list_ex Rateable selections
      in if \<not> rateable then (fmempty, (s, w))
         else let (rated, r) = Observe t counters (rater s);
                  s = s\<lparr>rater := r\<rparr>
              in if RefusedSeries r then
                   (rated, if raterFullWarned s then (s, w)
                           else (s\<lparr>raterFullWarned := True\<rparr>, log (LogRaterFull MaxTrackedSeries) w))
                 else (rated, (s\<lparr>raterFullWarned := False\<rparr>, w)))"

section \<open>Summing per service\<close>

record attribution =
  totals :: "(string, f64) fmap"
  contributed :: "string fset"
  incomplete :: "string fset"
  dropped :: nat

definition attribute_row :: "slugIndex \<Rightarrow> string \<Rightarrow> bool \<Rightarrow> (string, f64) fmap \<Rightarrow> Series \<Rightarrow> attribution \<Rightarrow> attribution" where
  "attribute_row index label rateable rated row a =
     (case resolve index row label of
        None \<Rightarrow> a\<lparr>dropped := Suc (dropped a)\<rparr>
      | Some slug \<Rightarrow>
          (case (if rateable then fmlookup rated (Fingerprint row) else Some (SValue row)) of
             None \<Rightarrow> a\<lparr>incomplete := finsert slug (incomplete a)\<rparr>
           | Some v \<Rightarrow> a\<lparr>totals := fmupd slug (f64_add (fmget (Fin 0) (totals a) slug) v) (totals a),
                         contributed := finsert slug (contributed a)\<rparr>))"

definition attribute :: "slugIndex \<Rightarrow> string \<Rightarrow> bool \<Rightarrow> (string, f64) fmap \<Rightarrow> Series list \<Rightarrow> attribution" where
  "attribute index label rateable rated rows =
     fold (attribute_row index label rateable rated) rows
       \<lparr>totals = fmempty, contributed = {||}, incomplete = {||}, dropped = 0\<rparr>"

text \<open>The final loop of \<open>reduce\<close> over the contributing services.\<close>

definition emit_sample :: "string \<Rightarrow> f64 \<Rightarrow> attribution \<Rightarrow> string \<Rightarrow> samples \<times> world \<Rightarrow> samples \<times> world" where
  "emit_sample key scale a slug ow =
     (let (out, w) = ow in
      if slug |\<in>| incomplete a then (out, w)
      else let value = f64_mul (fmget (Fin 0) (totals a) slug) scale
           in if \<not> IsFinite value then (out, log (LogNonFinite slug key) w)
              else (fmupd slug (fmget [] out slug @ [\<lparr>Key = key, Value = value\<rparr>]) out, w))"

definition emit_samples :: "string \<Rightarrow> f64 \<Rightarrow> attribution \<Rightarrow> string list \<Rightarrow> samples \<times> world \<Rightarrow> samples \<times> world" where
  "emit_samples key scale a slugs ow = fold (emit_sample key scale a) slugs ow"

text \<open>The reports between the two loops of \<open>reduce\<close>: rows that map nowhere, excluded rows,
  ambiguous totals, withheld services.\<close>

definition reduce_reports :: "Selection \<Rightarrow> attribution \<Rightarrow> bool \<Rightarrow> expositionSource \<times> world \<Rightarrow> expositionSource \<times> world" where
  "reduce_reports sel a firstObservation sw =
     (let (s, w) = sw;
          role = SelRole sel; name = CName (SelCandidate sel);
          (s, w) = (if dropped a = 0 \<or> contributed a \<noteq> {||} then
                   (store_roleLatch role LatchAllDropped False s,
                    if 0 < dropped a then log (LogDroppedRows name (dropped a)) w else w)
                 else warn_latched role LatchAllDropped (LogAllDropped name role (dropped a) (slugLabel s)) (s, w));
          w = (if 0 < Excluded sel then log (LogExcludedRows name (Excluded sel)) w else w);
          (s, w) = (if Ambiguous sel = [] then (store_roleLatch role LatchAmbiguous False s, w)
                 else warn_latched role LatchAmbiguous (LogAmbiguous name role (Ambiguous sel)) (s, w))
      in reportWithheld role name (incomplete a) firstObservation (s, w))"

definition reduce :: "Selection \<Rightarrow> (string, f64) fmap \<Rightarrow> slugIndex \<Rightarrow> bool \<Rightarrow>
    samples \<times> (expositionSource \<times> world) \<Rightarrow> samples \<times> (expositionSource \<times> world)" where
  "reduce sel rated index firstObservation osw =
     (let (out, s, w) = osw;
          role = SelRole sel; key = metricKeyFor role
      in if SelKind sel = KindCounter \<and> \<not> Rateable sel then
           (out, warn_latched role LatchUnrateable (LogUnrateable role (CName (SelCandidate sel))) (s, w))
         else
           let s = store_roleLatch role LatchUnrateable False s;
               a = attribute index (slugLabel s) (Rateable sel) rated (SelSeries sel);
               (s, w) = reduce_reports sel a firstObservation (s, w);
               (out, w) = emit_samples key (Scale (SelCandidate sel)) a
                 (sorted_list_of_fset (contributed a)) (out, w)
           in (out, s, w))"

section \<open>Samples\<close>

definition select_role :: "Role \<Rightarrow> string \<Rightarrow> Series list \<Rightarrow> expositionSource \<times> world \<Rightarrow>
    Selection list \<times> (expositionSource \<times> world)" where
  "select_role role override series sw =
     (case Select (resolver (fst sw)) role series of
        Some sel \<Rightarrow> ([sel], (if role = RoleMemory then (fst sw)\<lparr>memoryUnresolved := False\<rparr>
                             else (fst sw)\<lparr>cpuUnresolved := False\<rparr>), snd sw)
      | None \<Rightarrow> ([], warnRoleUnresolved role override sw))"

definition map_series :: "int \<Rightarrow> ServiceTarget list \<Rightarrow> Series list \<Rightarrow> expositionSource \<times> world \<Rightarrow>
    samples \<times> (expositionSource \<times> world)" where
  "map_series t targets series sw =
     (let (cpu, sw) = select_role RoleCPU (CPUOverride (resolver (fst sw))) series sw;
          (memory, sw) = select_role RoleMemory (MemoryOverride (resolver (fst sw))) series sw;
          selections = cpu @ memory;
          (s, w) = sw
      in if selections = [] then
           (fmempty, if unmatchedWarned s then (s, w)
                     else (s\<lparr>unmatchedWarned := True\<rparr>, log (LogUnmatched (length series)) w))
         else let s = s\<lparr>unmatchedWarned := False\<rparr>;
                  index = newSlugIndex targets;
                  firstObservation = (Tracked (rater s) = 0);
                  (rated, sw) = rateCounters t selections (s, w)
              in fold (\<lambda>sel. reduce sel rated index firstObservation) selections (fmempty, sw))"

definition exposition_Samples :: "expositionSource samples_op" where
  "exposition_Samples env targets sw =
     (let (s, w) = sw;
          r = snd (Fetch (te_scrape env) (client s) (CandidateNames (resolver s)));
          w = on_metrics (RecordScrape (case r of Inl _ \<Rightarrow> False | Inr _ \<Rightarrow> True) (te_scrape_seconds env)) w
      in case r of
           Inl e \<Rightarrow> ((fmempty, Some (ScrapeError e)), (s, w))
         | Inr series \<Rightarrow>
             (let (out, sw) = map_series (te_rater_clock env) targets series (s, w)
              in ((out, None), sw)))"

end
