(* ===== verification/Attribution.thy ===== *)
theory Attribution
  imports Exposition
begin

text \<open>
  The facts behind \<open>reduce\<close>: what the slug index answers, what the row loop accumulates per
  service, and what the final loop emits, each stated per service instead of per loop step.
\<close>

section \<open>The slug index\<close>

definition pods_of :: "ServiceTarget list \<Rightarrow> (ServiceTarget \<times> string) list" where
  "pods_of targets = concat (map (\<lambda>t. map (Pair t) (TPodNames t)) targets)"

definition pod_step :: "ServiceTarget \<Rightarrow> string \<Rightarrow> (string, string) fmap \<Rightarrow> (string, string) fmap" where
  "pod_step t name m = fmupd name
     (case fmlookup m name of Some existing \<Rightarrow> if existing \<noteq> TSlug t then [] else TSlug t | None \<Rightarrow> TSlug t) m"

definition ns_step :: "ServiceTarget \<Rightarrow> string \<Rightarrow> (string, string) fmap \<Rightarrow> (string, string) fmap" where
  "ns_step t name m = (case PodKey (TNamespace t) name of Some key \<Rightarrow> fmupd key (TSlug t) m | None \<Rightarrow> m)"

lemma index_pod_simps [simp]:
  "byPod (index_pod t name idx) = pod_step t name (byPod idx)"
  "byNamespacedPod (index_pod t name idx) = ns_step t name (byNamespacedPod idx)"
  "known (index_pod t name idx) = known idx"
  by (auto simp: index_pod_def pod_step_def ns_step_def Let_def split: option.split)

lemma fold_index_pod:
  "byPod (fold (index_pod t) names idx) = fold (pod_step t) names (byPod idx)"
  "byNamespacedPod (fold (index_pod t) names idx) = fold (ns_step t) names (byNamespacedPod idx)"
  "known (fold (index_pod t) names idx) = known idx"
  by (induction names arbitrary: idx) simp_all

lemma fold_index_target:
  "byPod (fold index_target ts idx) = fold (\<lambda>(t, n). pod_step t n) (pods_of ts) (byPod idx)"
  "byNamespacedPod (fold index_target ts idx) = fold (\<lambda>(t, n). ns_step t n) (pods_of ts) (byNamespacedPod idx)"
  "known (fold index_target ts idx) = slugs_of ts |\<union>| known idx"
  by (induction ts arbitrary: idx)
    (auto simp: index_target_def fold_index_pod pods_of_def slugs_of_def fold_map comp_def)

definition pod_claims :: "ServiceTarget list \<Rightarrow> string \<Rightarrow> string list" where
  "pod_claims ts name = map (\<lambda>(t, n). TSlug t) (filter (\<lambda>(t, n). n = name) (pods_of ts))"

definition ns_claims :: "ServiceTarget list \<Rightarrow> string \<Rightarrow> string list" where
  "ns_claims ts key = map (\<lambda>(t, n). TSlug t) (filter (\<lambda>(t, n). PodKey (TNamespace t) n = Some key) (pods_of ts))"

definition agree :: "string list \<Rightarrow> string option" where
  "agree xs = (case xs of [] \<Rightarrow> None | x # rest \<Rightarrow> if list_all (\<lambda>y. y = x) rest then Some x else Some [])"

lemma agree_snoc:
  "agree (xs @ [s]) = Some (case agree xs of Some e \<Rightarrow> if e \<noteq> s then [] else s | None \<Rightarrow> s)"
  by (cases xs) (auto simp: agree_def)

lemma fold_pod_step:
  "fmlookup (fold (\<lambda>(t, n). pod_step t n) ps fmempty) name =
     agree (map (\<lambda>(t, n). TSlug t) (filter (\<lambda>(t, n). n = name) ps))"
proof (induction ps rule: rev_induct)
  case Nil
  then show ?case by (simp add: agree_def)
next
  case (snoc p ps)
  then show ?case by (cases p) (auto simp: pod_step_def agree_snoc)
qed

lemma fold_ns_step:
  "fmlookup (fold (\<lambda>(t, n). ns_step t n) ps fmempty) key =
     (let cs = map (\<lambda>(t, n). TSlug t) (filter (\<lambda>(t, n). PodKey (TNamespace t) n = Some key) ps)
      in if cs = [] then None else Some (last cs))"
proof (induction ps rule: rev_induct)
  case (snoc p ps)
  then show ?case by (cases p) (auto simp: ns_step_def Let_def split: option.split)
qed simp

lemma newSlugIndex_simps:
  "fmlookup (byPod (newSlugIndex ts)) name = agree (pod_claims ts name)"
  "fmlookup (byNamespacedPod (newSlugIndex ts)) key =
     (if ns_claims ts key = [] then None else Some (last (ns_claims ts key)))"
  "known (newSlugIndex ts) = slugs_of ts"
  by (simp_all add: newSlugIndex_def fold_index_target fold_pod_step fold_ns_step pod_claims_def
      ns_claims_def Let_def)

lemma pods_of_mem: "(t, n) \<in> set (pods_of ts) \<longleftrightarrow> t \<in> set ts \<and> n \<in> set (TPodNames t)"
  by (auto simp: pods_of_def)

lemma pod_claims_mem: "slug \<in> set (pod_claims ts name) \<longleftrightarrow> (\<exists>t \<in> set ts. name \<in> set (TPodNames t) \<and> TSlug t = slug)"
  by (auto simp: pod_claims_def pods_of_mem image_iff Bex_def)

lemma ns_claims_mem:
  "slug \<in> set (ns_claims ts key) \<longleftrightarrow>
     (\<exists>t \<in> set ts. \<exists>n \<in> set (TPodNames t). PodKey (TNamespace t) n = Some key \<and> TSlug t = slug)"
  by (auto simp: ns_claims_def pods_of_mem image_iff Bex_def)

lemma nonempty_slug_Some: "nonempty_slug s = Some slug \<longleftrightarrow> s = Some slug \<and> slug \<noteq> []"
  by (auto simp: nonempty_slug_def split: option.splits if_splits)

lemma agree_Some_nonempty: "agree xs = Some s \<and> s \<noteq> [] \<longleftrightarrow> xs \<noteq> [] \<and> list_all (\<lambda>y. y = s) xs \<and> s \<noteq> []"
  by (cases xs) (auto simp: agree_def list_all_iff)

lemma resolve_podRef:
  "resolve i row label =
     (if fmget [] (SLabels row) label \<noteq> []
      then if fmget [] (SLabels row) label |\<in>| known i then Some (fmget [] (SLabels row) label) else None
      else if PodLabel (SLabels row) = [] then None
      else case podRef row of
        Some key \<Rightarrow> nonempty_slug (fmlookup (byNamespacedPod i) key)
      | None \<Rightarrow> nonempty_slug (fmlookup (byPod i) (PodLabel (SLabels row))))"
  by (simp add: resolve_def Let_def podRef_def)

section \<open>What attribution means\<close>

text \<open>
  The service of a row without the index: the one its slug label names, when the tick has it; else
  the one that runs the pod the row names in the namespace it names (the last target wins where
  selectors overlap); else, for a row that names no namespace, the one service that runs pods of
  that name.
\<close>

definition named_slug :: "string list \<Rightarrow> string option" where
  "named_slug slugs = (if slugs = [] then None else if last slugs = [] then None else Some (last slugs))"

definition only_slug :: "string list \<Rightarrow> string option" where
  "only_slug slugs = (case remdups slugs of [slug] \<Rightarrow> if slug = [] then None else Some slug | _ \<Rightarrow> None)"

definition resolve_reference :: "ServiceTarget list \<Rightarrow> Series \<Rightarrow> string \<Rightarrow> string option" where
  "resolve_reference ts row label =
     (let own = fmget [] (SLabels row) label; ns = NamespaceLabel (SLabels row); pod = PodLabel (SLabels row)
      in if own \<noteq> [] then (if own \<in> TSlug ` set ts then Some own else None)
         else if pod = [] then None
         else if ns \<noteq> [] then
           named_slug (map TSlug (filter (\<lambda>t. TNamespace t = ns \<and> pod \<in> set (TPodNames t)) ts))
         else only_slug (map TSlug (filter (\<lambda>t. pod \<in> set (TPodNames t)) ts)))"

text \<open>Namespaces and pod names as Kubernetes has them: without the separator of \<open>PodKey\<close>.\<close>

definition kubernetes_names :: "ServiceTarget list \<Rightarrow> bool" where
  "kubernetes_names ts \<longleftrightarrow>
     list_all (\<lambda>t. unitSep \<notin> set (TNamespace t) \<and> list_all (\<lambda>n. unitSep \<notin> set n) (TPodNames t)) ts"

lemma named_slug_append: "named_slug (xs @ ys) = (if ys = [] then named_slug xs else named_slug ys)"
  by (simp add: named_slug_def)

lemma named_slug_const: "set xs = {slug} \<Longrightarrow> named_slug xs = named_slug [slug]"
  using last_in_set [of xs] by (cases "xs = []") (auto simp: named_slug_def)

lemma remdups_single: "remdups xs = [x] \<longleftrightarrow> set xs = {x}"
proof
  assume "set xs = {x}"
  then have "set (remdups xs) = {x}" "distinct (remdups xs)" by simp_all
  then show "remdups xs = [x]" by (cases "remdups xs"; cases "tl (remdups xs)") auto
next
  assume "remdups xs = [x]"
  then have "set (remdups xs) = {x}" by simp
  then show "set xs = {x}" by simp
qed

lemma only_slug_Some: "only_slug xs = Some slug \<longleftrightarrow> set xs = {slug} \<and> slug \<noteq> []"
proof -
  have "only_slug xs = Some slug \<longleftrightarrow> remdups xs = [slug] \<and> slug \<noteq> []"
    by (auto simp: only_slug_def split: list.splits)
  then show ?thesis by (simp add: remdups_single)
qed

lemma nonempty_agree: "nonempty_slug (agree xs) = only_slug xs"
proof -
  have "nonempty_slug (agree xs) = Some slug \<longleftrightarrow> only_slug xs = Some slug" for slug
    unfolding nonempty_slug_Some only_slug_Some agree_Some_nonempty by (cases xs) (auto simp: list_all_iff)
  then show ?thesis by (metis option.exhaust)
qed

lemma pod_claims_only:
  "nonempty_slug (fmlookup (byPod (newSlugIndex ts)) name) =
     only_slug (map TSlug (filter (\<lambda>t. name \<in> set (TPodNames t)) ts))"
proof -
  have "set (pod_claims ts name) = set (map TSlug (filter (\<lambda>t. name \<in> set (TPodNames t)) ts))"
    by (auto simp: pod_claims_mem)
  then have "only_slug (pod_claims ts name) = Some slug \<longleftrightarrow>
      only_slug (map TSlug (filter (\<lambda>t. name \<in> set (TPodNames t)) ts)) = Some slug" for slug
    by (simp only: only_slug_Some)
  then show ?thesis unfolding newSlugIndex_simps nonempty_agree by (metis option.exhaust)
qed

lemma ns_claims_named:
  assumes "kubernetes_names ts" "ns \<noteq> []" "pod \<noteq> []"
  shows "named_slug (ns_claims ts (ns @ unitSep # pod)) =
    named_slug (map TSlug (filter (\<lambda>t. TNamespace t = ns \<and> pod \<in> set (TPodNames t)) ts))"
  using assms(1)
proof (induction ts rule: rev_induct)
  case (snoc t ts)
  let ?mine = "filter (\<lambda>n. PodKey (TNamespace t) n = Some (ns @ unitSep # pod)) (TPodNames t)"
  have sep: "unitSep \<notin> set (TNamespace t)" "\<And>n. n \<in> set (TPodNames t) \<Longrightarrow> unitSep \<notin> set n"
    using snoc.prems by (auto simp: kubernetes_names_def list_all_iff)
  have key: "PodKey (TNamespace t) n = Some (ns @ unitSep # pod) \<longleftrightarrow> TNamespace t = ns \<and> n = pod"
    if "n \<in> set (TPodNames t)" for n
  proof
    assume "PodKey (TNamespace t) n = Some (ns @ unitSep # pod)"
    then have "ns @ unitSep # pod = TNamespace t @ unitSep # n" by simp
    from sep_split_unique [OF this sep(1) sep(2) [OF that]] show "TNamespace t = ns \<and> n = pod" by simp
  qed (use assms(2,3) in simp)
  have c: "ns_claims (ts @ [t]) (ns @ unitSep # pod) = ns_claims ts (ns @ unitSep # pod) @ map (\<lambda>n. TSlug t) ?mine"
    by (simp add: ns_claims_def pods_of_def filter_map comp_def)
  have ih: "named_slug (ns_claims ts (ns @ unitSep # pod)) =
      named_slug (map TSlug (filter (\<lambda>t. TNamespace t = ns \<and> pod \<in> set (TPodNames t)) ts))"
    using snoc by (simp add: kubernetes_names_def)
  show ?case
  proof (cases "TNamespace t = ns \<and> pod \<in> set (TPodNames t)")
    case True
    then have "pod \<in> set ?mine" using key by auto
    then have "?mine \<noteq> []" by (metis empty_iff list.set(1))
    have c1: "set (map (\<lambda>n. TSlug t) xs) = {TSlug t}" if "xs \<noteq> []" for xs :: "string list"
      using that by (cases xs) auto
    have "set (map (\<lambda>n. TSlug t) ?mine) = {TSlug t}" by (rule c1) fact
    then have "named_slug (map (\<lambda>n. TSlug t) ?mine) = named_slug [TSlug t]" by (rule named_slug_const)
    moreover have "map (\<lambda>n. TSlug t) ?mine \<noteq> []" using \<open>?mine \<noteq> []\<close> by (simp only: map_is_Nil_conv not_False_eq_True)
    ultimately show ?thesis using True unfolding c named_slug_append [of "ns_claims ts (ns @ unitSep # pod)"]
      by (simp only: if_False) (simp add: named_slug_append)
  next
    case False
    then have "?mine = []" using key by (auto simp: filter_empty_conv)
    then show ?thesis using False ih unfolding c by auto
  qed
qed (simp add: ns_claims_def pods_of_def)

lemma resolve_by_pods:
  assumes "kubernetes_names ts"
  shows "resolve (newSlugIndex ts) row label = resolve_reference ts row label"
proof -
  let ?ns = "NamespaceLabel (SLabels row)" and ?pod = "PodLabel (SLabels row)"
  have k: "slug |\<in>| slugs_of ts \<longleftrightarrow> slug \<in> TSlug ` set ts" for slug
    by (auto simp: slugs_of_def fset_of_list_elem)
  have n: "nonempty_slug (fmlookup (byNamespacedPod (newSlugIndex ts)) key) = named_slug (ns_claims ts key)" for key
    by (simp add: newSlugIndex_simps nonempty_slug_def named_slug_def)
  show ?thesis
    using ns_claims_named [OF assms, of ?ns ?pod]
    by (simp add: resolve_podRef resolve_reference_def podRef_def PodKey_def Let_def n pod_claims_only
        newSlugIndex_simps(3) k)
qed

text \<open>
  C25. Attribution against its meaning: for targets whose namespaces and pod names contain no unit
  separator, as Kubernetes names do not, and for every row a peer can send, the index gives exactly
  the service \<open>resolve_reference\<close> names: the slug label when the tick has that service; else, for a row
  that names namespace and pod, the service of the last target that runs that pod in that namespace;
  else the one service all targets that run pods of that name belong to; and none otherwise. In
  particular, where the selectors of two workloads of a namespace overlap, the later one gets the row.
\<close>

theorem resolve_complete:
  assumes "kubernetes_names ts"
  shows "resolve (newSlugIndex ts) row label = resolve_reference ts row label"
  by (rule resolve_by_pods [OF assms])

text \<open>
  C24. Attribution is sound: when \<open>resolve\<close> gives a row to a service, the service belongs to the tick and
  either the row carries its slug in the slug label; or the row names a namespace and a pod, and a
  target of that service in that very namespace runs a pod of that very name; or the row names only
  a pod, a target of that service runs a pod of that name, and no target of another service does. The
  targets' namespaces and pod names contain no unit separator, as Kubernetes names do not; the labels
  of the row are arbitrary.
\<close>

theorem resolve_sound:
  assumes "kubernetes_names ts" and "resolve (newSlugIndex ts) row label = Some slug"
  shows "slug \<noteq> [] \<and> slug \<in> set (map TSlug ts) \<and>
    (if fmget [] (SLabels row) label \<noteq> [] then slug = fmget [] (SLabels row) label
     else if NamespaceLabel (SLabels row) \<noteq> [] then
       list_ex (\<lambda>t. TSlug t = slug \<and> TNamespace t = NamespaceLabel (SLabels row) \<and>
         PodLabel (SLabels row) \<in> set (TPodNames t)) ts
     else list_ex (\<lambda>t. TSlug t = slug \<and> PodLabel (SLabels row) \<in> set (TPodNames t)) ts \<and>
       filter (\<lambda>t. TSlug t \<noteq> slug \<and> PodLabel (SLabels row) \<in> set (TPodNames t)) ts = [])"
proof -
  have named: "slug \<noteq> [] \<and> slug \<in> set xs" if "named_slug xs = Some slug" for xs
    using that last_in_set [of xs] by (auto simp: named_slug_def split: if_splits)
  have r: "resolve_reference ts row label = Some slug" using assms(2) unfolding resolve_by_pods [OF assms(1)] .
  show ?thesis
  proof (cases "fmget [] (SLabels row) label = []")
    case False
    then show ?thesis using r by (auto simp: resolve_reference_def Let_def split: if_splits)
  next
    case unlabelled: True
    show ?thesis
    proof (cases "NamespaceLabel (SLabels row) = []")
      case False
      then show ?thesis using r unlabelled
        by (auto simp: resolve_reference_def list_ex_iff Let_def split: if_splits dest!: named)
    next
      case True
      then have "TSlug ` {t \<in> set ts. PodLabel (SLabels row) \<in> set (TPodNames t)} = {slug}" "slug \<noteq> []"
        using r unlabelled by (auto simp: resolve_reference_def only_slug_Some Let_def split: if_splits)
      moreover from this(1) obtain t where "t \<in> set ts" "PodLabel (SLabels row) \<in> set (TPodNames t)" "TSlug t = slug"
        by blast
      ultimately show ?thesis using unlabelled True by (auto simp: list_ex_iff filter_empty_conv)
    qed
  qed
qed

text \<open>Two workloads of one namespace that list the same pod, and a pod of that name elsewhere.\<close>

definition shared_targets :: "ServiceTarget list" where
  "shared_targets =
    [\<lparr>TSlug = ''api'', TNamespace = ''prod'', TSelector = ''app=api'', TPodNames = [''api-1'', ''web-1'']\<rparr>,
     \<lparr>TSlug = ''web'', TNamespace = ''prod'', TSelector = ''tier=front'', TPodNames = [''web-1'']\<rparr>,
     \<lparr>TSlug = ''db'', TNamespace = ''data'', TSelector = ''app=db'', TPodNames = [''api-1'']\<rparr>]"

definition pod_row :: "(string \<times> string) list \<Rightarrow> Series" where
  "pod_row ls = \<lparr>SName = ''k8s_pod_memory_working_set'', SLabels = fmap_of_list ls, SValue = Fin 1, SKind = KindGauge\<rparr>"

lemmas pod_row_simps =
  pod_row_def shared_targets_def kubernetes_names_def unitSep_def resolve_reference_def named_slug_def only_slug_def
  fmget_def PodLabel_def NamespaceLabel_def podLabelNames_def namespaceLabelNames_def

text \<open>The two rows of \<open>split_rows\<close>, which \<open>summable\<close> keeps, belong to one service: its pod is counted twice.\<close>

lemma split_rows_one_service:
  "map (\<lambda>row. resolve (newSlugIndex [\<lparr>TSlug = ''shop'', TNamespace = ''prod'', TSelector = ''app=shop'', TPodNames = [''api'']\<rparr>])
      row ''zensu_service'') (fst (summable split_rows)) = [Some ''shop'', Some ''shop'']"
  unfolding summable_counts_twice fst_conv
  by (simp add: resolve_by_pods kubernetes_names_def unitSep_def split_rows_def row_of_def resolve_reference_def
    named_slug_def only_slug_def fmget_def PodLabel_def NamespaceLabel_def podLabelNames_def namespaceLabelNames_def Let_def)

lemma resolve_complete_witness:
  "resolve (newSlugIndex shared_targets) (pod_row [(''namespace'', ''prod''), (''pod'', ''web-1'')]) ''zensu_service'' = Some ''web'' \<and>
   resolve (newSlugIndex shared_targets) (pod_row [(''pod'', ''api-1'')]) ''zensu_service'' = None"
proof -
  have "kubernetes_names shared_targets" by (simp add: pod_row_simps)
  note r = resolve_complete [OF this]
  show ?thesis unfolding r by (simp add: pod_row_simps Let_def)
qed

lemma resolve_sound_witness:
  "list_ex (\<lambda>t. TSlug t = ''api'' \<and> TNamespace t = ''prod'' \<and> ''api-1'' \<in> set (TPodNames t)) shared_targets"
proof -
  have k: "kubernetes_names shared_targets" by (simp add: pod_row_simps)
  have "resolve (newSlugIndex shared_targets) (pod_row [(''namespace'', ''prod''), (''pod'', ''api-1'')]) ''zensu_service'' = Some ''api''"
    unfolding resolve_by_pods [OF k] by (simp add: pod_row_simps Let_def)
  from resolve_sound [OF k this] show ?thesis by (simp add: pod_row_simps)
qed

lemma resolve_known: "resolve (newSlugIndex ts) row label = Some slug \<Longrightarrow> slug |\<in>| slugs_of ts"
proof -
  assume r: "resolve (newSlugIndex ts) row label = Some slug"
  consider "slug |\<in>| slugs_of ts" | key where "ns_claims ts key \<noteq> [] \<and> slug = last (ns_claims ts key)"
    | "agree (pod_claims ts (PodLabel (SLabels row))) = Some slug \<and> slug \<noteq> []"
    using r by (auto simp: resolve_podRef newSlugIndex_simps nonempty_slug_Some split: if_splits option.splits)
  then show ?thesis
  proof cases
    case 2
    then have "slug \<in> set (ns_claims ts key)" by simp
    then show ?thesis unfolding ns_claims_mem by (blast intro: slugs_of_member)
  next
    case 3
    then have "pod_claims ts (PodLabel (SLabels row)) \<noteq> []"
      "list_all (\<lambda>y. y = slug) (pod_claims ts (PodLabel (SLabels row)))"
      unfolding agree_Some_nonempty by simp_all
    then have "slug \<in> set (pod_claims ts (PodLabel (SLabels row)))"
      by (cases "pod_claims ts (PodLabel (SLabels row))") simp_all
    then show ?thesis unfolding pod_claims_mem by (blast intro: slugs_of_member)
  qed
qed

section \<open>The row loop\<close>

text \<open>What one row adds to its service: its own value, or its rate; \<open>None\<close> when it has none.\<close>

definition row_value :: "bool \<Rightarrow> (string, f64) fmap \<Rightarrow> Series \<Rightarrow> f64 option" where
  "row_value rateable rated row = (if rateable then fmlookup rated (Fingerprint row) else Some (SValue row))"

definition service_rows :: "slugIndex \<Rightarrow> string \<Rightarrow> string \<Rightarrow> Series list \<Rightarrow> Series list" where
  "service_rows index label slug rows = filter (\<lambda>row. resolve index row label = Some slug) rows"

definition sum_values :: "f64 option list \<Rightarrow> f64" where
  "sum_values vs = fold (\<lambda>v t. case v of None \<Rightarrow> t | Some v \<Rightarrow> f64_add t v) vs (Fin 0)"

lemma sum_values_snoc [simp]:
  "sum_values (vs @ [v]) = (case v of None \<Rightarrow> sum_values vs | Some v \<Rightarrow> f64_add (sum_values vs) v)"
  by (simp add: sum_values_def split: option.split)

lemma sum_values_Nil [simp]: "sum_values [] = Fin 0"
  by (simp add: sum_values_def)

lemma attribute_snoc:
  "attribute index label rateable rated (rows @ [row]) =
     attribute_row index label rateable rated row (attribute index label rateable rated rows)"
  by (simp add: attribute_def)

lemma attribute_row_value:
  "attribute_row index label rateable rated row a =
     (case resolve index row label of
        None \<Rightarrow> a\<lparr>dropped := Suc (dropped a)\<rparr>
      | Some slug \<Rightarrow>
          (case row_value rateable rated row of
             None \<Rightarrow> a\<lparr>incomplete := finsert slug (incomplete a)\<rparr>
           | Some v \<Rightarrow> a\<lparr>totals := fmupd slug (f64_add (fmget (Fin 0) (totals a) slug) v) (totals a),
                         contributed := finsert slug (contributed a)\<rparr>))"
  by (simp add: attribute_row_def row_value_def split: option.split)

text \<open>
  The row loop per service: which services contributed, which are incomplete, how many rows map
  nowhere, and the total of each service as the sum, in row order, of its rows' values.
\<close>

lemma attribute_spec:
  "slug |\<in>| contributed (attribute index label rateable rated rows) \<longleftrightarrow>
     list_ex (\<lambda>row. row_value rateable rated row \<noteq> None) (service_rows index label slug rows)"
  "slug |\<in>| incomplete (attribute index label rateable rated rows) \<longleftrightarrow>
     list_ex (\<lambda>row. row_value rateable rated row = None) (service_rows index label slug rows)"
  "dropped (attribute index label rateable rated rows) =
     length (filter (\<lambda>row. resolve index row label = None) rows)"
  "fmget (Fin 0) (totals (attribute index label rateable rated rows)) slug =
     sum_values (map (row_value rateable rated) (service_rows index label slug rows))"
proof (induction rows rule: rev_induct)
  case Nil
  case 1 show ?case by (simp add: attribute_def service_rows_def)
  case 2 show ?case by (simp add: attribute_def service_rows_def)
  case 3 show ?case by (simp add: attribute_def)
  case 4 show ?case by (simp add: attribute_def service_rows_def)
next
  case (snoc row rows)
  case 1 show ?case using snoc
    by (auto simp: attribute_snoc attribute_row_value service_rows_def split: option.splits)
  case 2 show ?case using snoc
    by (auto simp: attribute_snoc attribute_row_value service_rows_def split: option.splits)
  case 3 show ?case using snoc
    by (auto simp: attribute_snoc attribute_row_value split: option.splits)
  case 4 show ?case using snoc
    by (auto simp: attribute_snoc attribute_row_value service_rows_def split: option.splits)
qed

section \<open>The final loop\<close>

definition emitted :: "f64 \<Rightarrow> attribution \<Rightarrow> string \<Rightarrow> f64 option" where
  "emitted scale a slug =
     (let v = f64_mul (fmget (Fin 0) (totals a) slug) scale
      in if slug |\<in>| incomplete a \<or> \<not> IsFinite v then None else Some v)"

lemma emit_samples_lookup:
  "distinct slugs \<Longrightarrow> fmlookup (fst (emit_samples key scale a slugs (out, w))) slug =
     (case (if slug \<in> set slugs then emitted scale a slug else None) of
        None \<Rightarrow> fmlookup out slug
      | Some v \<Rightarrow> Some (fmget [] out slug @ [\<lparr>Key = key, Value = v\<rparr>]))"
proof (induction slugs arbitrary: out w)
  case (Cons x slugs)
  obtain o1 o2 where o12: "emit_sample key scale a x (out, w) = (o1, o2)" by fastforce
  have o: "fmlookup o1 slug = (case (if slug = x then emitted scale a slug else None) of
        None \<Rightarrow> fmlookup out slug
      | Some v \<Rightarrow> Some (fmget [] out slug @ [\<lparr>Key = key, Value = v\<rparr>]))"
    using o12 by (auto simp: emit_sample_def emitted_def Let_def split: if_splits)
  have "emit_samples key scale a (x # slugs) (out, w) = emit_samples key scale a slugs (o1, o2)"
    by (simp add: emit_samples_def o12)
  with Cons o show ?case by (cases "slug = x") (simp_all add: fmget_def split: option.split)
qed (simp add: emit_samples_def)

text \<open>
  The samples do not depend on the order in which Go ranges over the contributing services:
  any two orders of the same services give the same samples map.
\<close>

theorem emit_samples_order:
  assumes "distinct xs" and "distinct ys" and "set xs = set ys"
  shows "fst (emit_samples key scale a xs (out, w)) = fst (emit_samples key scale a ys (out, w'))"
  by (rule fmap_eqI) (simp add: emit_samples_lookup assms)

lemma emit_sample_log:
  "\<exists>evs. w_log (snd (emit_sample key scale a slug ow)) = w_log (snd ow) @ evs \<and> set evs \<subseteq> range (\<lambda>s. LogNonFinite s key)"
  "w_metrics (snd (emit_sample key scale a slug ow)) = w_metrics (snd ow)"
  by (auto simp: emit_sample_def Let_def split: prod.split)

lemma emit_samples_log:
  "\<exists>evs. w_log (snd (emit_samples key scale a slugs ow)) = w_log (snd ow) @ evs \<and> set evs \<subseteq> range (\<lambda>s. LogNonFinite s key)"
proof (induction slugs arbitrary: ow)
  case (Cons x slugs)
  obtain e1 where "w_log (snd (emit_sample key scale a x ow)) = w_log (snd ow) @ e1" "set e1 \<subseteq> range (\<lambda>s. LogNonFinite s key)"
    using emit_sample_log(1) [of key scale a x ow] by auto
  moreover obtain e2 where "w_log (snd (emit_samples key scale a slugs (emit_sample key scale a x ow))) =
      w_log (snd (emit_sample key scale a x ow)) @ e2" "set e2 \<subseteq> range (\<lambda>s. LogNonFinite s key)"
    using Cons [of "emit_sample key scale a x ow"] by auto
  ultimately show ?case by (intro exI [of _ "e1 @ e2"]) (simp add: emit_samples_def)
qed (simp add: emit_samples_def)

lemma emit_samples_metrics: "w_metrics (snd (emit_samples key scale a slugs ow)) = w_metrics (snd ow)"
  by (induction slugs arbitrary: ow) (simp_all add: emit_samples_def emit_sample_log(2))

end
