(* ===== verification/ExpositionFacts.thy ===== *)
theory ExpositionFacts
  imports Attribution
begin

text \<open>
  What the exposition source promises: the samples of a tick stated per service (which samples
  a service gets, and their values), the contract of \<open>MetricSource\<close>, what happens to the rater's
  predecessors, and the reports.
\<close>

section \<open>Frames\<close>

lemma store_roleLatch_frame [latch_simps]:
  "slugLabel (store_roleLatch role kind b s) = slugLabel s"
  "client (store_roleLatch role kind b s) = client s"
  "resolver (store_roleLatch role kind b s) = resolver s"
  "rater (store_roleLatch role kind b s) = rater s"
  "unmatchedWarned (store_roleLatch role kind b s) = unmatchedWarned s"
  "withheldReport role' (store_roleLatch role kind b s) = withheldReport role' s"
  by (auto simp: store_roleLatch_def withheldReport_def Let_def split: latchKind.split)

lemma roleLatch_store [latch_simps]:
  "roleLatch role kind (store_roleLatch role' kind' b s) =
     (if role = role' \<and> kind = kind' then b else roleLatch role kind s)"
  by (cases role; cases role'; cases kind; cases kind') (simp_all add: store_roleLatch_def roleLatch_def Let_def)

lemma store_withheldReport_frame [latch_simps]:
  "slugLabel (store_withheldReport role v s) = slugLabel s"
  "client (store_withheldReport role v s) = client s"
  "resolver (store_withheldReport role v s) = resolver s"
  "rater (store_withheldReport role v s) = rater s"
  "unmatchedWarned (store_withheldReport role v s) = unmatchedWarned s"
  "roleLatch role' kind (store_withheldReport role v s) = roleLatch role' kind s"
  "withheldReport role' (store_withheldReport role v s) = (if role' = role then v else withheldReport role' s)"
  by (cases role'; cases role; cases kind; simp add: store_withheldReport_def withheldReport_def roleLatch_def Let_def)+

text \<open>What every reporting step keeps: configuration, rater and the unmatched latch of the source,
  the labels and scrape counts of the self-metrics, and the log so far, to which it adds no \<open>LogUnmatched\<close>.\<close>

definition keeps :: "expositionSource \<times> world \<Rightarrow> expositionSource \<times> world \<Rightarrow> bool" where
  "keeps sw sw' \<longleftrightarrow>
     slugLabel (fst sw') = slugLabel (fst sw) \<and> client (fst sw') = client (fst sw) \<and>
     resolver (fst sw') = resolver (fst sw) \<and> rater (fst sw') = rater (fst sw) \<and>
     unmatchedWarned (fst sw') = unmatchedWarned (fst sw) \<and>
     source_metrics (w_metrics (snd sw)) (w_metrics (snd sw')) \<and>
     scrape_counts [] (w_metrics (snd sw)) (w_metrics (snd sw')) \<and>
     (\<exists>evs. w_log (snd sw') = w_log (snd sw) @ evs \<and> list_all (\<lambda>e. \<not> is_LogUnmatched e \<and> source_event e) evs)"

lemma keeps_refl [simp]: "keeps sw sw"
  by (simp add: keeps_def)

lemma keeps_trans [trans]: "keeps a b \<Longrightarrow> keeps b c \<Longrightarrow> keeps a c"
  unfolding keeps_def by (elim conjE exE, intro conjI) (auto intro: exI [of _ "_ @ _"] source_metrics_trans scrape_counts_none)

lemma keeps_log: "\<not> is_LogUnmatched e \<Longrightarrow> source_event e \<Longrightarrow> keeps (s, w) (s, log e w)"
  by (simp add: keeps_def)

lemma keeps_store: "keeps (s, w) (store_roleLatch role kind b s, w)" "keeps (s, w) (store_withheldReport role v s, w)"
  by (simp_all add: keeps_def latch_simps)

lemma keeps_warn_latched: "\<not> is_LogUnmatched e \<Longrightarrow> source_event e \<Longrightarrow> keeps sw (warn_latched role kind e sw)"
  by (cases sw) (auto simp: warn_latched_def keeps_def latch_simps)

lemma Role_String_listed: "Role_String role \<in> set ResourceRoles"
  by (cases role) (simp_all add: ResourceRoles_def Role_String_def)

lemma keeps_reportWithheld: "keeps sw (reportWithheld role metric inc fo sw)"
  by (cases sw) (auto simp: reportWithheld_def keeps_def latch_simps Let_def Role_String_listed source_metrics_withheld)

lemma keeps_reduce_reports: "keeps sw (reduce_reports sel a fo sw)"
proof -
  obtain s w where sw: "sw = (s, w)" by fastforce
  let ?role = "SelRole sel" and ?name = "CName (SelCandidate sel)"
  define sw1 where "sw1 = (if dropped a = 0 \<or> contributed a \<noteq> {||} then
      (store_roleLatch ?role LatchAllDropped False s, if 0 < dropped a then log (LogDroppedRows ?name (dropped a)) w else w)
    else warn_latched ?role LatchAllDropped (LogAllDropped ?name ?role (dropped a) (slugLabel s)) (s, w))"
  define sw2 where "sw2 = (fst sw1, if 0 < Excluded sel then log (LogExcludedRows ?name (Excluded sel)) (snd sw1) else snd sw1)"
  define sw3 where "sw3 = (if Ambiguous sel = [] then (store_roleLatch ?role LatchAmbiguous False (fst sw2), snd sw2)
    else warn_latched ?role LatchAmbiguous (LogAmbiguous ?name ?role (Ambiguous sel)) (fst sw2, snd sw2))"
  have 1: "keeps (s, w) sw1"
    using keeps_warn_latched [of "LogAllDropped ?name ?role (dropped a) (slugLabel s)" "(s, w)"]
    by (auto simp: keeps_def latch_simps sw1_def)
  have 2: "keeps sw1 sw2" using keeps_log [of "LogExcludedRows ?name (Excluded sel)" "fst sw1" "snd sw1"]
    by (simp add: sw2_def)
  have 3: "keeps sw2 sw3"
    using keeps_warn_latched [of "LogAmbiguous ?name ?role (Ambiguous sel)" sw2] keeps_store(1) [of "fst sw2" "snd sw2"]
    by (simp add: sw3_def)
  have "reduce_reports sel a fo sw = reportWithheld ?role ?name (incomplete a) fo sw3"
    unfolding reduce_reports_def sw Let_def sw3_def sw2_def sw1_def by (simp only: split_beta prod.case fst_conv snd_conv prod.collapse)
  with keeps_trans [OF 1 keeps_trans [OF 2 keeps_trans [OF 3 keeps_reportWithheld]]] show ?thesis
    by (simp only: sw)
qed

lemma keeps_emit:
  "keeps (s, w) (s, snd (emit_samples key scale a slugs (out, w)))"
proof -
  obtain evs where "w_log (snd (emit_samples key scale a slugs (out, w))) = w_log w @ evs"
    "set evs \<subseteq> range (\<lambda>s. LogNonFinite s key)"
    using emit_samples_log [of key scale a slugs "(out, w)"] by auto
  moreover from this(2) have "list_all (\<lambda>e. \<not> is_LogUnmatched e \<and> source_event e) evs" by (auto simp: list_all_iff)
  ultimately show ?thesis by (simp add: keeps_def emit_samples_metrics)
qed

section \<open>The samples of one service\<close>

text \<open>
  The specification: the sample a selection gives a service, from the rows attributed to it. A
  cumulative family of a role that cannot be rated gives none; otherwise every row of the
  service must have a value, and the sample is their scaled sum when it is finite.
\<close>

definition service_sample ::
    "Selection \<Rightarrow> (string, f64) fmap \<Rightarrow> slugIndex \<Rightarrow> string \<Rightarrow> string \<Rightarrow> MetricSample option" where
  "service_sample sel rated index label slug =
     (let vs = map (row_value (Rateable sel) rated) (service_rows index label slug (SelSeries sel));
          v = f64_mul (sum_values vs) (Scale (SelCandidate sel))
      in if (SelKind sel = KindCounter \<and> \<not> Rateable sel) \<or> vs = [] \<or> None \<in> set vs \<or> \<not> IsFinite v
         then None else Some \<lparr>Key = metricKeyFor (SelRole sel), Value = v\<rparr>)"

lemma list_ex_None: "list_ex (\<lambda>row. f row = None) xs \<longleftrightarrow> None \<in> set (map f xs)"
  by (induction xs) auto

lemma list_ex_not_None: "list_ex (\<lambda>row. f row = None) xs \<or> list_ex (\<lambda>row. f row \<noteq> None) xs \<longleftrightarrow> xs \<noteq> []"
  by (cases xs) auto

lemma emitted_attribute:
  "(if slug |\<in>| contributed (attribute index label rateable rated rows)
    then emitted scale (attribute index label rateable rated rows) slug else None) =
   (let vs = map (row_value rateable rated) (service_rows index label slug rows);
        v = f64_mul (sum_values vs) scale
    in if vs = [] \<or> None \<in> set vs \<or> \<not> IsFinite v then None else Some v)"
proof -
  let ?rs = "service_rows index label slug rows"
  have e: "slug |\<in>| incomplete (attribute index label rateable rated rows) \<longleftrightarrow>
      None \<in> set (map (row_value rateable rated) ?rs)"
    using attribute_spec(2) [of slug] list_ex_None [of "row_value rateable rated" ?rs] by simp
  have c: "slug |\<in>| contributed (attribute index label rateable rated rows) \<or>
      None \<in> set (map (row_value rateable rated) ?rs) \<longleftrightarrow> ?rs \<noteq> []"
    using attribute_spec(1) [of slug] list_ex_None [of "row_value rateable rated" ?rs]
      list_ex_not_None [of "row_value rateable rated" ?rs] by blast
  have n: "?rs = [] \<Longrightarrow> \<not> slug |\<in>| contributed (attribute index label rateable rated rows)"
    using attribute_spec(1) [of slug index label rateable rated rows] by simp
  show ?thesis
    unfolding emitted_def Let_def e attribute_spec(4) map_is_Nil_conv using c n by auto
qed

lemma reduce_eq:
  "reduce sel rated index fo (out, s, w) =
     (if SelKind sel = KindCounter \<and> \<not> Rateable sel then
        (out, warn_latched (SelRole sel) LatchUnrateable (LogUnrateable (SelRole sel) (CName (SelCandidate sel))) (s, w))
      else let a = attribute index (slugLabel s) (Rateable sel) rated (SelSeries sel);
               sw = reduce_reports sel a fo (store_roleLatch (SelRole sel) LatchUnrateable False s, w);
               e = emit_samples (metricKeyFor (SelRole sel)) (Scale (SelCandidate sel)) a
                 (sorted_list_of_fset (contributed a)) (out, snd sw)
           in (fst e, fst sw, snd e))"
  by (simp add: reduce_def Let_def latch_simps split_beta)

lemma keeps_reduce: "keeps sw (snd (reduce sel rated index fo (out, sw)))"
proof -
  obtain s w where sw: "sw = (s, w)" by fastforce
  show ?thesis
  proof (cases "SelKind sel = KindCounter \<and> \<not> Rateable sel")
    case True
    then show ?thesis by (simp add: sw reduce_eq keeps_warn_latched)
  next
    case False
    let ?a = "attribute index (slugLabel s) (Rateable sel) rated (SelSeries sel)"
    let ?s1 = "store_roleLatch (SelRole sel) LatchUnrateable False s"
    define sw2 where "sw2 = reduce_reports sel ?a fo (?s1, w)"
    have "keeps (s, w) (?s1, w)" by (rule keeps_store)
    also have "keeps \<dots> sw2" unfolding sw2_def by (rule keeps_reduce_reports)
    also have "keeps \<dots> (fst sw2, snd (emit_samples (metricKeyFor (SelRole sel)) (Scale (SelCandidate sel)) ?a
        (sorted_list_of_fset (contributed ?a)) (out, snd sw2)))"
      using keeps_emit [of "fst sw2" "snd sw2"] by simp
    also have "\<dots> = snd (reduce sel rated index fo (out, s, w))"
      unfolding reduce_eq if_not_P [OF False] Let_def sw2_def by simp
    finally show ?thesis by (simp add: sw)
  qed
qed

lemma reduce_lookup:
  "fmlookup (fst (reduce sel rated index fo (out, sw))) slug =
     (case service_sample sel rated index (slugLabel (fst sw)) slug of
        None \<Rightarrow> fmlookup out slug
      | Some m \<Rightarrow> Some (fmget [] out slug @ [m]))"
proof (cases "SelKind sel = KindCounter \<and> \<not> Rateable sel")
  case True
  then show ?thesis by (cases sw) (simp add: reduce_eq service_sample_def Let_def)
next
  case False
  obtain s w where sw: "sw = (s, w)" by fastforce
  let ?a = "attribute index (slugLabel s) (Rateable sel) rated (SelSeries sel)"
  have "fmlookup (fst (reduce sel rated index fo (out, sw))) slug =
      (case (if slug |\<in>| contributed ?a then emitted (Scale (SelCandidate sel)) ?a slug else None) of
        None \<Rightarrow> fmlookup out slug
      | Some v \<Rightarrow> Some (fmget [] out slug @ [\<lparr>Key = metricKeyFor (SelRole sel), Value = v\<rparr>]))"
    unfolding sw reduce_eq if_not_P [OF False] Let_def by (simp add: emit_samples_lookup)
  then show ?thesis
    using False unfolding emitted_attribute sw fst_conv service_sample_def Let_def by auto
qed

lemma service_sample_good:
  "service_sample sel rated index label slug = Some m \<Longrightarrow>
     Key m = metricKeyFor (SelRole sel) \<and> is_float64 (Value m) \<and>
     (\<exists>row \<in> set (SelSeries sel). resolve index row label = Some slug)"
  by (auto simp: service_sample_def service_rows_def Let_def filter_empty_conv is_float64_mul split: if_splits)

text \<open>The samples all selections give a service, in the order of the roles.\<close>

definition service_samples ::
    "Selection list \<Rightarrow> (string, f64) fmap \<Rightarrow> slugIndex \<Rightarrow> string \<Rightarrow> string \<Rightarrow> MetricSample list" where
  "service_samples sels rated index label slug =
     List.map_filter (\<lambda>sel. service_sample sel rated index label slug) sels"

lemma fold_reduce:
  "fmget [] (fst (fold (\<lambda>sel. reduce sel rated index fo) sels (out, sw))) slug =
     fmget [] out slug @ service_samples sels rated index (slugLabel (fst sw)) slug \<and>
   (slug |\<in>| fmdom (fst (fold (\<lambda>sel. reduce sel rated index fo) sels (out, sw))) \<longleftrightarrow>
     slug |\<in>| fmdom out \<or> service_samples sels rated index (slugLabel (fst sw)) slug \<noteq> []) \<and>
   keeps sw (snd (fold (\<lambda>sel. reduce sel rated index fo) sels (out, sw)))"
proof (induction sels arbitrary: out sw)
  case (Cons sel sels)
  define r where "r = reduce sel rated index fo (out, sw)"
  have k: "keeps sw (snd r)" unfolding r_def by (rule keeps_reduce)
  then have l: "slugLabel (fst (snd r)) = slugLabel (fst sw)" by (simp add: keeps_def)
  have f: "fold (\<lambda>sel. reduce sel rated index fo) (sel # sels) (out, sw) =
      fold (\<lambda>sel. reduce sel rated index fo) sels (fst r, snd r)"
    by (simp add: r_def)
  note lk = reduce_lookup [of sel rated index fo out sw slug, folded r_def]
  have g: "fmget [] (fst r) slug = fmget [] out slug @
      (case service_sample sel rated index (slugLabel (fst sw)) slug of None \<Rightarrow> [] | Some m \<Rightarrow> [m])"
    using lk by (auto simp: fmget_def split: option.split)
  have d: "slug |\<in>| fmdom (fst r) \<longleftrightarrow> slug |\<in>| fmdom out \<or>
      service_sample sel rated index (slugLabel (fst sw)) slug \<noteq> None"
    using lk by (cases "service_sample sel rated index (slugLabel (fst sw)) slug") (auto simp: fmlookup_dom_iff)
  have cons: "service_samples (sel # sels) rated index label slug =
      (case service_sample sel rated index label slug of None \<Rightarrow> [] | Some m \<Rightarrow> [m]) @
      service_samples sels rated index label slug" for label
    by (simp add: service_samples_def List.map_filter_simps split: option.split)
  note ih = Cons.IH [of "fst r" "snd r", unfolded l]
  show ?case unfolding f cons
    using ih keeps_trans [OF k] g d by (auto split: option.splits)
qed (simp add: service_samples_def List.map_filter_simps)

section \<open>One tick\<close>

definition selections_of :: "Resolver \<Rightarrow> Series list \<Rightarrow> Selection list" where
  "selections_of res series = List.map_filter (\<lambda>role. Select res role series) [RoleCPU, RoleMemory]"

definition rates_of :: "int \<Rightarrow> Selection list \<Rightarrow> Rater \<Rightarrow> (string, f64) fmap" where
  "rates_of t sels r =
     (if list_ex Rateable sels then fst (Observe t (concat (map SelSeries (filter Rateable sels))) r) else fmempty)"

definition next_rater :: "int \<Rightarrow> Selection list \<Rightarrow> Rater \<Rightarrow> Rater" where
  "next_rater t sels r =
     (if list_ex Rateable sels then snd (Observe t (concat (map SelSeries (filter Rateable sels))) r) else r)"

lemma keeps_warnRoleUnresolved: "keeps sw (warnRoleUnresolved role override sw)"
  by (cases sw) (auto simp: warnRoleUnresolved_def keeps_def Let_def)

lemma select_role_spec:
  "fst (select_role role override series sw) =
     (case Select (resolver (fst sw)) role series of None \<Rightarrow> [] | Some sel \<Rightarrow> [sel])"
  "keeps sw (snd (select_role role override series sw))"
  using keeps_warnRoleUnresolved [of sw role override]
  by (auto simp: select_role_def keeps_def split: option.split)

text \<open>The frame of rating: everything but the rater.\<close>

definition keeps_but_rater :: "expositionSource \<times> world \<Rightarrow> expositionSource \<times> world \<Rightarrow> bool" where
  "keeps_but_rater sw sw' \<longleftrightarrow> keeps sw ((fst sw')\<lparr>rater := rater (fst sw)\<rparr>, snd sw')"

lemma rateCounters_spec:
  "fst (rateCounters t sels sw) = rates_of t sels (rater (fst sw))"
  "rater (fst (snd (rateCounters t sels sw))) = next_rater t sels (rater (fst sw))"
  "slugLabel (fst (snd (rateCounters t sels sw))) = slugLabel (fst sw)"
  "keeps_but_rater sw (snd (rateCounters t sels sw))"
  by (auto simp: rateCounters_def rates_of_def next_rater_def keeps_but_rater_def keeps_def Let_def
      split: prod.split)

lemma map_series_eq:
  "map_series t targets series sw =
     (let r1 = select_role RoleCPU (CPUOverride (resolver (fst sw))) series sw;
          r2 = select_role RoleMemory (MemoryOverride (resolver (fst (snd r1)))) series (snd r1);
          sels = fst r1 @ fst r2; s = fst (snd r2); w = snd (snd r2)
      in if sels = [] then
           (fmempty, if unmatchedWarned s then (s, w)
                     else (s\<lparr>unmatchedWarned := True\<rparr>, log (LogUnmatched (length series)) w))
         else let rc = rateCounters t sels (s\<lparr>unmatchedWarned := False\<rparr>, w)
              in fold (\<lambda>sel. reduce sel (fst rc) (newSlugIndex targets) (Tracked (rater s) = 0)) sels (fmempty, snd rc))"
  unfolding map_series_def Let_def by (simp add: split_beta)

text \<open>The selection part of a tick, with what it leaves behind.\<close>

lemma selection_part:
  obtains s2 w2 where
    "map_series t targets series sw =
       (if selections_of (resolver (fst sw)) series = [] then
          (fmempty, if unmatchedWarned s2 then (s2, w2)
                    else (s2\<lparr>unmatchedWarned := True\<rparr>, log (LogUnmatched (length series)) w2))
        else let rc = rateCounters t (selections_of (resolver (fst sw)) series) (s2\<lparr>unmatchedWarned := False\<rparr>, w2)
             in fold (\<lambda>sel. reduce sel (fst rc) (newSlugIndex targets) (Tracked (rater s2) = 0))
                  (selections_of (resolver (fst sw)) series) (fmempty, snd rc))"
    "keeps sw (s2, w2)"
proof -
  let ?r1 = "select_role RoleCPU (CPUOverride (resolver (fst sw))) series sw"
  let ?r2 = "select_role RoleMemory (MemoryOverride (resolver (fst (snd ?r1)))) series (snd ?r1)"
  have k1: "keeps sw (snd ?r1)" by (rule select_role_spec(2))
  have k: "keeps sw (snd ?r2)" by (rule keeps_trans [OF k1 select_role_spec(2)])
  have "resolver (fst (snd ?r1)) = resolver (fst sw)" using k1 by (simp add: keeps_def)
  then have sels: "fst ?r1 @ fst ?r2 = selections_of (resolver (fst sw)) series"
    unfolding select_role_spec(1) selections_of_def
    by (simp add: List.map_filter_simps split: option.split)
  show thesis
    by (rule that [of "fst (snd ?r2)" "snd (snd ?r2)"])
      (simp_all only: map_series_eq Let_def sels prod.collapse k)
qed

lemma map_series_spec:
  "fmget [] (fst (map_series t targets series sw)) slug =
     service_samples (selections_of (resolver (fst sw)) series)
       (rates_of t (selections_of (resolver (fst sw)) series) (rater (fst sw)))
       (newSlugIndex targets) (slugLabel (fst sw)) slug \<and>
   (slug |\<in>| fmdom (fst (map_series t targets series sw)) \<longleftrightarrow>
     fmget [] (fst (map_series t targets series sw)) slug \<noteq> [])"
proof -
  let ?sels = "selections_of (resolver (fst sw)) series"
  obtain s2 w2 where m: "map_series t targets series sw =
      (if ?sels = [] then
          (fmempty, if unmatchedWarned s2 then (s2, w2)
                    else (s2\<lparr>unmatchedWarned := True\<rparr>, log (LogUnmatched (length series)) w2))
        else let rc = rateCounters t ?sels (s2\<lparr>unmatchedWarned := False\<rparr>, w2)
             in fold (\<lambda>sel. reduce sel (fst rc) (newSlugIndex targets) (Tracked (rater s2) = 0)) ?sels (fmempty, snd rc))"
    and k: "keeps sw (s2, w2)" by (rule selection_part)
  show ?thesis
  proof (cases "?sels = []")
    case True
    then show ?thesis by (simp add: m service_samples_def List.map_filter_simps)
  next
    case False
    from k have "rater s2 = rater (fst sw)" "slugLabel s2 = slugLabel (fst sw)" by (simp_all add: keeps_def)
    then show ?thesis
      unfolding m if_not_P [OF False] Let_def by (simp add: fold_reduce rateCounters_spec)
  qed
qed

lemma map_series_frame:
  "rater (fst (snd (map_series t targets series sw))) =
     next_rater t (selections_of (resolver (fst sw)) series) (rater (fst sw)) \<and>
   resolver (fst (snd (map_series t targets series sw))) = resolver (fst sw) \<and>
   client (fst (snd (map_series t targets series sw))) = client (fst sw) \<and>
   slugLabel (fst (snd (map_series t targets series sw))) = slugLabel (fst sw) \<and>
   source_metrics (w_metrics (snd sw)) (w_metrics (snd (snd (map_series t targets series sw)))) \<and>
   scrape_counts [] (w_metrics (snd sw)) (w_metrics (snd (snd (map_series t targets series sw)))) \<and>
   unmatchedWarned (fst (snd (map_series t targets series sw))) =
     (selections_of (resolver (fst sw)) series = []) \<and>
   (\<exists>evs. w_log (snd (snd (map_series t targets series sw))) = w_log (snd sw) @ evs \<and> list_all source_event evs \<and>
      filter is_LogUnmatched evs =
        (if selections_of (resolver (fst sw)) series = [] \<and> \<not> unmatchedWarned (fst sw)
         then [LogUnmatched (length series)] else []))"
proof -
  let ?sels = "selections_of (resolver (fst sw)) series"
  obtain s2 w2 where m: "map_series t targets series sw =
      (if ?sels = [] then
          (fmempty, if unmatchedWarned s2 then (s2, w2)
                    else (s2\<lparr>unmatchedWarned := True\<rparr>, log (LogUnmatched (length series)) w2))
        else let rc = rateCounters t ?sels (s2\<lparr>unmatchedWarned := False\<rparr>, w2)
             in fold (\<lambda>sel. reduce sel (fst rc) (newSlugIndex targets) (Tracked (rater s2) = 0)) ?sels (fmempty, snd rc))"
    and k: "keeps sw (s2, w2)" by (rule selection_part)
  have nil: "filter is_LogUnmatched evs = []" "list_all source_event evs"
    if "list_all (\<lambda>e. \<not> is_LogUnmatched e \<and> source_event e) evs" for evs
    using that by (simp_all add: filter_empty_conv list_all_iff)
  show ?thesis
  proof (cases "?sels = []")
    case True
    then show ?thesis using k nil by (auto simp: m keeps_def next_rater_def)
  next
    case False
    define rc where "rc = rateCounters t ?sels (s2\<lparr>unmatchedWarned := False\<rparr>, w2)"
    define res where "res = fold (\<lambda>sel. reduce sel (fst rc) (newSlugIndex targets) (Tracked (rater s2) = 0)) ?sels (fmempty, snd rc)"
    have m': "map_series t targets series sw = res"
      unfolding m if_not_P [OF False] Let_def rc_def res_def ..
    have k3: "keeps (snd rc) (snd res)" unfolding res_def using fold_reduce by blast
    have k2: "keeps_but_rater (s2\<lparr>unmatchedWarned := False\<rparr>, w2) (snd rc)"
      "rater (fst (snd rc)) = next_rater t ?sels (rater s2)"
      unfolding rc_def using rateCounters_spec(4) rateCounters_spec(2) by simp_all
    show ?thesis unfolding m' using k k2 k3 nil False
      by (auto simp: keeps_def keeps_but_rater_def intro: source_metrics_trans scrape_counts_none)
  qed
qed

end
