(* ===== verification/ExpositionSource.thy ===== *)
theory ExpositionSource
  imports ExpositionFacts Latch
begin

text \<open>
  The exposition source as a \<open>MetricSource\<close>: the interpretation of the contract and the
  properties of a tick.
\<close>

lemma exposition_Samples_eq:
  "exposition_Samples env targets (s, w) =
     (case snd (Fetch (te_scrape env) (client s) (CandidateNames (resolver s))) of
        Inl e \<Rightarrow> ((fmempty, Some (ScrapeError e)), (s, on_metrics (RecordScrape False (te_scrape_seconds env)) w))
      | Inr series \<Rightarrow>
          (let r = map_series (te_rater_clock env) targets series
                 (s, on_metrics (RecordScrape True (te_scrape_seconds env)) w)
           in ((fst r, None), snd r)))"
  by (simp add: exposition_Samples_def Let_def split_beta split: sum.split)

lemma selections_of_distinct: "distinct (map SelRole (selections_of res series))"
proof -
  have "SelRole sel = role" if "Select res role series = Some sel" for role sel
    using that by (rule Select_SomeD(1))
  then show ?thesis by (fastforce simp: selections_of_def List.map_filter_simps split: option.splits)
qed

lemma service_samples_keys:
  "set (map Key (service_samples sels rated index label slug)) \<subseteq> set (map (\<lambda>s. metricKeyFor (SelRole s)) sels)"
  "distinct (map SelRole sels) \<Longrightarrow> distinct (map Key (service_samples sels rated index label slug))"
  "list_all (\<lambda>m. is_float64 (Value m)) (service_samples sels rated index label slug)"
proof -
  have key_inj: "metricKeyFor r = metricKeyFor r' \<longleftrightarrow> r = r'" for r r'
    by (cases r; cases r') (simp_all add: metricKeyFor_def)
  have cons: "service_samples (sel # sels) rated index label slug =
      (case service_sample sel rated index label slug of None \<Rightarrow> [] | Some m \<Rightarrow> [m]) @
      service_samples sels rated index label slug" for sel sels
    by (simp add: service_samples_def List.map_filter_simps split: option.split)
  have nil: "service_samples [] rated index label slug = []"
    by (simp add: service_samples_def List.map_filter_simps)
  show sub: "set (map Key (service_samples sels rated index label slug)) \<subseteq> set (map (\<lambda>s. metricKeyFor (SelRole s)) sels)" for sels
    by (induction sels) (auto simp: nil cons dest: service_sample_good service_sample_good [OF sym] split: option.splits)
  show "list_all (\<lambda>m. is_float64 (Value m)) (service_samples sels rated index label slug)"
    by (induction sels) (auto simp: nil cons dest: service_sample_good service_sample_good [OF sym] split: option.splits)
  show "distinct (map SelRole sels) \<Longrightarrow> distinct (map Key (service_samples sels rated index label slug))"
  proof (induction sels)
    case (Cons sel sels)
    show ?case
    proof (cases "service_sample sel rated index label slug")
      case None
      with Cons show ?thesis by (simp add: cons)
    next
      case (Some m)
      then have "Key m = metricKeyFor (SelRole sel)" by (simp add: service_sample_good)
      moreover have "metricKeyFor (SelRole sel) \<notin> set (map (\<lambda>s. metricKeyFor (SelRole s)) sels)"
        using Cons.prems by (auto simp: key_inj)
      ultimately have "Key m \<notin> set (map Key (service_samples sels rated index label slug))" using sub [of sels] by auto
      with Cons Some show ?thesis by (simp add: cons)
    qed
  qed (simp add: nil)
qed

lemma service_samples_resolved:
  "service_samples sels rated (newSlugIndex targets) label slug \<noteq> [] \<Longrightarrow> slug |\<in>| slugs_of targets"
proof -
  assume "service_samples sels rated (newSlugIndex targets) label slug \<noteq> []"
  then obtain sel m where "service_sample sel rated (newSlugIndex targets) label slug = Some m"
    by (auto simp: service_samples_def List.map_filter_def filter_empty_conv)
  then show ?thesis using service_sample_good resolve_known by blast
qed

lemma map_series_good: "good_map targets (fst (map_series t targets series sw))"
proof -
  let ?out = "fst (map_series t targets series sw)"
  let ?sels = "selections_of (resolver (fst sw)) series"
  note spec = map_series_spec [of t targets series sw]
  have dom: "fmdom ?out |\<subseteq>| slugs_of targets"
  proof (rule fsubsetI)
    fix slug assume "slug |\<in>| fmdom ?out"
    with spec [of slug] show "slug |\<in>| slugs_of targets" by (metis service_samples_resolved)
  qed
  have good: "good_samples ms" if "fmlookup ?out slug = Some ms" for slug ms
  proof -
    have "slug |\<in>| fmdom ?out" "ms = fmget [] ?out slug" using that by (auto simp: fmget_def intro: fmdomI)
    moreover have "set (map (\<lambda>s. metricKeyFor (SelRole s)) ?sels) \<subseteq> set sample_keys"
      by (auto simp: metricKeyFor_def)
    ultimately show ?thesis
      using spec [of slug] service_samples_keys(1,3) service_samples_keys(2) [OF selections_of_distinct]
      unfolding good_samples_def by (metis subset_trans)
  qed
  show ?thesis using dom good by (auto simp: good_map_def fmpred_iff)
qed

lemma exposition_world:
  assumes "exposition_Samples env targets (s, w) = (r, (s', w'))"
  shows "log_extends w w' \<and> source_metrics (w_metrics w) (w_metrics w')"
proof (cases "snd (Fetch (te_scrape env) (client s) (CandidateNames (resolver s)))")
  case (Inl e)
  with assms show ?thesis by (auto simp: exposition_Samples_eq)
next
  case (Inr series)
  let ?w = "on_metrics (RecordScrape True (te_scrape_seconds env)) w"
  have "(s', w') = snd (map_series (te_rater_clock env) targets series (s, ?w))"
    using assms Inr by (simp add: exposition_Samples_eq Let_def)
  then have e: "snd (snd (map_series (te_rater_clock env) targets series (s, ?w))) = w'"
    by (metis snd_conv)
  show ?thesis
    using map_series_frame [of "te_rater_clock env" targets series "(s, ?w)", unfolded e]
    by (auto simp: log_extends_def intro: source_metrics_trans [OF source_metrics_scrape])
qed

interpretation exposition: metric_source exposition_Samples exposition_Name
proof
  fix env targets st out err st'
  assume "exposition_Samples env targets st = ((out, err), st')"
  then show "good_map targets out"
    using map_series_good by (cases st) (auto simp: exposition_Samples_eq Let_def split: sum.splits)
next
  fix env targets st out e st'
  assume "exposition_Samples env targets st = ((out, Some e), st')"
  then show "out = fmempty"
    by (cases st) (auto simp: exposition_Samples_eq Let_def split: sum.splits)
next
  fix s show "exposition_Name s \<in> {SourceMetricsServer, SourceExposition, SourceNone}"
    by (simp add: exposition_Name_def)
next
  fix env targets s w r s' w'
  assume a: "exposition_Samples env targets (s, w) = (r, (s', w'))"
  show "log_extends w w'" "source_metrics (w_metrics w) (w_metrics w')"
    using exposition_world [OF a] by blast+
qed

text \<open>It scrapes once per tick, and the outcome is that of the fetch.\<close>

definition exposition_scrapes :: "tick_env \<Rightarrow> ServiceTarget list \<Rightarrow> expositionSource \<Rightarrow> (bool \<times> f64) list" where
  "exposition_scrapes env targets s =
     [(case snd (Fetch (te_scrape env) (client s) (CandidateNames (resolver s))) of Inl _ \<Rightarrow> False | Inr _ \<Rightarrow> True,
       te_scrape_seconds env)]"

lemma exposition_counts:
  assumes "exposition_Samples env targets (s, w) = (r, (s', w'))"
  shows "scrape_counts (exposition_scrapes env targets s) (w_metrics w) (w_metrics w')"
proof (cases "snd (Fetch (te_scrape env) (client s) (CandidateNames (resolver s)))")
  case (Inl e)
  with assms show ?thesis by (auto simp: exposition_Samples_eq exposition_scrapes_def)
next
  case (Inr series)
  let ?w = "on_metrics (RecordScrape True (te_scrape_seconds env)) w"
  have "w' = snd (snd (map_series (te_rater_clock env) targets series (s, ?w)))"
    using assms Inr by (auto simp: exposition_Samples_eq Let_def)
  have c: "scrape_counts [(True, te_scrape_seconds env)] (w_metrics w) (w_metrics ?w)" by simp
  have "scrape_counts [] (w_metrics ?w) (w_metrics (snd (snd (map_series (te_rater_clock env) targets series (s, ?w)))))"
    using map_series_frame [of "te_rater_clock env" targets series "(s, ?w)"] by (simp only: snd_conv)
  from scrape_counts_none [OF c this] \<open>w' = _\<close> show ?thesis by (simp add: exposition_scrapes_def Inr)
qed

interpretation exposition: counting_source exposition_Samples exposition_Name exposition_scrapes
  by unfold_locales (rule exposition_counts)

section \<open>The samples of a tick\<close>

text \<open>
  C6. What a tick reports, service by service. When the scrape fails, the error is returned, no
  service gets a sample and the state of the source is unchanged. When it succeeds, each
  service gets exactly the samples \<open>service_samples\<close> names for it, one per selected role in role
  order: none for a role whose family cannot be rated, and otherwise the scaled sum of the
  values of all rows attributed to the service, withheld when one of them has no rate or the
  result is not finite. A service is a key of the map only when it has a sample.
\<close>

theorem exposition_service_samples:
  "case snd (Fetch (te_scrape env) (client s) (CandidateNames (resolver s))) of
     Inl e \<Rightarrow> exposition_Samples env targets (s, w) =
       ((fmempty, Some (ScrapeError e)), (s, on_metrics (RecordScrape False (te_scrape_seconds env)) w))
   | Inr series \<Rightarrow>
       (let sels = selections_of (resolver s) series;
            out = fst (fst (exposition_Samples env targets (s, w)))
        in snd (fst (exposition_Samples env targets (s, w))) = None \<and>
           fmget [] out slug = service_samples sels (rates_of (te_rater_clock env) sels (rater s))
             (newSlugIndex targets) (slugLabel s) slug \<and>
           (slug |\<in>| fmdom out \<longleftrightarrow> fmget [] out slug \<noteq> []))"
  using map_series_spec [of "te_rater_clock env" targets _
      "(s, on_metrics (RecordScrape True (te_scrape_seconds env)) w)" slug]
  by (simp add: exposition_Samples_eq Let_def split: sum.split)

text \<open>
  Predecessors survive: a failed scrape, and a scrape in which no selection can be rated,
  leave the rater exactly as it was; in every other tick the rater observes once, the rows of
  all rateable selections together. Configuration never changes.
\<close>

theorem exposition_rater:
  "rater (fst (snd (exposition_Samples env targets (s, w)))) =
     (case snd (Fetch (te_scrape env) (client s) (CandidateNames (resolver s))) of
        Inl e \<Rightarrow> rater s
      | Inr series \<Rightarrow>
          (let sels = selections_of (resolver s) series
           in if filter Rateable sels = [] then rater s
              else snd (Observe (te_rater_clock env) (concat (map SelSeries (filter Rateable sels))) (rater s)))) \<and>
   client (fst (snd (exposition_Samples env targets (s, w)))) = client s \<and>
   resolver (fst (snd (exposition_Samples env targets (s, w)))) = resolver s \<and>
   slugLabel (fst (snd (exposition_Samples env targets (s, w)))) = slugLabel s"
proof -
  have "list_ex Rateable sels \<longleftrightarrow> filter Rateable sels \<noteq> []" for sels :: "Selection list"
    by (auto simp: list_ex_iff filter_empty_conv)
  then show ?thesis
    using map_series_frame [of "te_rater_clock env" targets _
        "(s, on_metrics (RecordScrape True (te_scrape_seconds env)) w)"]
    by (simp add: exposition_Samples_eq Let_def next_rater_def split: sum.split)
qed

section \<open>Exact sums\<close>

lemma sum_values_ints:
  assumes "list_all (\<lambda>n. 0 \<le> n) ns" "sum_list ns \<le> 2 ^ 53"
  shows "sum_values (map (\<lambda>n. Some (Fin (of_int n))) ns) = Fin (of_int (sum_list ns))"
  using assms
proof (induction ns rule: rev_induct)
  case (snoc n ns)
  then have "0 \<le> sum_list ns" "0 \<le> n" by (auto simp: list_all_iff intro: sum_list_nonneg)
  with snoc show ?case by (simp add: f64_add_int_exact [of "sum_list ns" n, simplified])
qed simp

lemma service_sample_ints:
  assumes "SelRole sel = RoleMemory" and "SelKind sel \<noteq> KindCounter" and "Scale (SelCandidate sel) = Fin 1"
    and "map SValue (service_rows index label slug (SelSeries sel)) = map (\<lambda>n. Fin (of_int n)) ns"
    and "ns \<noteq> []" and "list_all (\<lambda>n. 0 \<le> n) ns" and "sum_list ns \<le> 2 ^ 53"
  shows "service_sample sel rated index label slug =
    Some \<lparr>Key = MetricMemoryBytes, Value = Fin (of_int (sum_list ns))\<rparr>"
proof -
  have r: "\<not> Rateable sel" using assms(1) by (simp add: Rateable_def)
  then have "map (row_value (Rateable sel) rated) (service_rows index label slug (SelSeries sel)) =
      map Some (map SValue (service_rows index label slug (SelSeries sel)))"
    by (simp add: row_value_def)
  also have "\<dots> = map (\<lambda>n. Some (Fin (of_int n))) ns" by (simp add: assms(4))
  finally have vs: "map (row_value (Rateable sel) rated) (service_rows index label slug (SelSeries sel)) =
      map (\<lambda>n. Some (Fin (of_int n))) ns" .
  have "0 \<le> sum_list ns" using assms(6) by (auto simp: list_all_iff intro: sum_list_nonneg)
  then have m: "f64_mul (Fin (of_int (sum_list ns))) (Fin 1) = Fin (of_int (sum_list ns))"
    using f64_mul_int_exact [of "sum_list ns" 1] assms(7) by simp
  show ?thesis
    unfolding service_sample_def vs Let_def
    using assms(1,2,3,5) m by (auto simp: sum_values_ints [OF assms(6,7)] metricKeyFor_def)
qed

text \<open>The candidates of the memory role carry byte counts unscaled, an override included.\<close>

lemma memory_scale: "Select r RoleMemory series = Some sel \<Longrightarrow> Scale (SelCandidate sel) = Fin 1"
  using Select_SomeD(3) [of r RoleMemory series sel] by (auto simp: candidates_def memoryCandidates_def split: if_splits)

lemma memory_samples_of_selections:
  assumes "Select res RoleMemory series = Some sel"
  shows "filter (\<lambda>m. Key m = MetricMemoryBytes) (service_samples (selections_of res series) rated index label slug) =
    (case service_sample sel rated index label slug of None \<Rightarrow> [] | Some m \<Rightarrow> [m])"
proof -
  have roles: "SelRole c = RoleCPU" if "Select res RoleCPU series = Some c" for c
    using that by (rule Select_SomeD(1))
  have mem: "SelRole sel = RoleMemory" using assms by (rule Select_SomeD(1))
  have key: "Key m \<noteq> MetricMemoryBytes" if "service_sample c rated index label slug = Some m" "SelRole c = RoleCPU" for c m
    using service_sample_good [OF that(1)] that(2)
    by (simp add: metricKeyFor_def MetricCPUMillicores_def MetricMemoryBytes_def)
  have key': "Key m = MetricMemoryBytes" if "service_sample sel rated index label slug = Some m" for m
    using service_sample_good [OF that] mem by (simp add: metricKeyFor_def)
  show ?thesis
    using roles key key' assms
    by (auto simp: selections_of_def service_samples_def List.map_filter_simps split: option.splits)
qed

text \<open>
  C27. Memory figures are exact from the scrape to the report: when a tick's scrape succeeds, the memory
  role resolves to a family that is not a counter, and the values of the rows attributed to a service
  are whole byte counts that add up to at most \<open>2^53\<close>, then the one memory sample that service gets in
  the samples of the tick is exactly their sum, in whatever order the peer lists the rows and whether
  the family is a built-in candidate or an override, although it is computed in floating point.
\<close>

theorem memory_sample_exact:
  assumes "snd (Fetch (te_scrape env) (client s) (CandidateNames (resolver s))) = Inr series"
    and "Select (resolver s) RoleMemory series = Some sel" and "SelKind sel \<noteq> KindCounter"
    and "map SValue (filter (\<lambda>row. resolve (newSlugIndex targets) row (slugLabel s) = Some slug) (SelSeries sel)) =
      map (\<lambda>n. Fin (of_int n)) ns"
    and "ns \<noteq> []" and "list_all (\<lambda>n. 0 \<le> n) ns" and "sum_list ns \<le> 2 ^ 53"
  shows "filter (\<lambda>m. Key m = MetricMemoryBytes) (fmget [] (fst (fst (exposition_Samples env targets (s, w)))) slug) =
    [\<lparr>Key = MetricMemoryBytes, Value = Fin (of_int (sum_list ns))\<rparr>]"
proof -
  let ?sels = "selections_of (resolver s) series"
  have out: "fmget [] (fst (fst (exposition_Samples env targets (s, w)))) slug =
      service_samples ?sels (rates_of (te_rater_clock env) ?sels (rater s)) (newSlugIndex targets) (slugLabel s) slug"
    using map_series_spec [of "te_rater_clock env" targets series
        "(s, on_metrics (RecordScrape True (te_scrape_seconds env)) w)" slug] assms(1)
    by (simp add: exposition_Samples_eq Let_def)
  have role: "SelRole sel = RoleMemory" using assms(2) by (rule Select_SomeD(1))
  show ?thesis
    unfolding out memory_samples_of_selections [OF assms(2)]
    using service_sample_ints [OF role assms(3) memory_scale [OF assms(2)] _ assms(5-7)] assms(4)
    by (simp add: service_rows_def)
qed

section \<open>Reports\<close>

text \<open>What a tick says about the known metrics: nothing when the scrape fails, that none is carried, or
  that one is.\<close>

definition unmatched_input :: "Client \<Rightarrow> Resolver \<Rightarrow> tick_env \<times> ServiceTarget list \<Rightarrow> latch_input" where
  "unmatched_input c res tick =
     (case snd (Fetch (te_scrape (fst tick)) c (CandidateNames res)) of
        Inl e \<Rightarrow> Hold
      | Inr series \<Rightarrow> if selections_of res series = [] then Raise else Clear)"

definition exposition_tick :: "tick_env \<times> ServiceTarget list \<Rightarrow> expositionSource \<times> world \<Rightarrow> expositionSource \<times> world" where
  "exposition_tick tick sw = snd (exposition_Samples (fst tick) (snd tick) sw)"

definition unmatched_reports :: "expositionSource \<times> world \<Rightarrow> nat" where
  "unmatched_reports sw = length (filter is_LogUnmatched (w_log (snd sw)))"

lemma exposition_tick_unmatched:
  assumes "client (fst sw) = c" "resolver (fst sw) = res"
  shows "client (fst (exposition_tick tick sw)) = c \<and> resolver (fst (exposition_tick tick sw)) = res \<and>
    (case unmatched_input c res tick of
       Hold \<Rightarrow> unmatchedWarned (fst (exposition_tick tick sw)) = unmatchedWarned (fst sw) \<and>
         unmatched_reports (exposition_tick tick sw) = unmatched_reports sw
     | Raise \<Rightarrow> unmatchedWarned (fst (exposition_tick tick sw)) \<and>
         unmatched_reports (exposition_tick tick sw) = unmatched_reports sw + (if unmatchedWarned (fst sw) then 0 else 1)
     | Clear \<Rightarrow> \<not> unmatchedWarned (fst (exposition_tick tick sw)) \<and>
         unmatched_reports (exposition_tick tick sw) = unmatched_reports sw)"
proof -
  obtain s w where sw: "sw = (s, w)" by fastforce
  obtain env ts where tick: "tick = (env, ts)" by fastforce
  let ?w = "on_metrics (RecordScrape True (te_scrape_seconds env)) w"
  show ?thesis
  proof (cases "snd (Fetch (te_scrape env) c (CandidateNames res))")
    case (Inl e)
    with assms show ?thesis
      by (simp add: sw tick exposition_tick_def exposition_Samples_eq unmatched_input_def unmatched_reports_def)
  next
    case (Inr series)
    define r where "r = snd (map_series (te_rater_clock env) ts series (s, ?w))"
    have e: "exposition_tick tick sw = r"
      using assms Inr by (simp add: sw tick exposition_tick_def exposition_Samples_eq Let_def r_def)
    note frame = map_series_frame [of "te_rater_clock env" ts series "(s, ?w)", folded r_def]
    have i: "unmatched_input c res tick = (if selections_of res series = [] then Raise else Clear)"
      using Inr by (simp add: unmatched_input_def tick)
    from frame obtain evs where evs: "w_log (snd r) = w_log w @ evs"
      "filter is_LogUnmatched evs = (if selections_of (resolver s) series = [] \<and> \<not> unmatchedWarned s
         then [LogUnmatched (length series)] else [])"
      by auto
    from frame have f: "resolver (fst r) = resolver s" "client (fst r) = client s"
      "unmatchedWarned (fst r) = (selections_of (resolver s) series = [])"
      by simp_all
    show ?thesis
      unfolding e i using assms f evs by (simp add: sw unmatched_reports_def)
  qed
qed

interpretation unmatched: latch "\<lambda>sw. client (fst sw) = c \<and> resolver (fst sw) = res" "unmatched_input c res"
    exposition_tick "\<lambda>sw. unmatchedWarned (fst sw)" unmatched_reports for c res
proof
  fix sw :: "expositionSource \<times> world" and tick :: "tick_env \<times> ServiceTarget list"
  assume "client (fst sw) = c \<and> resolver (fst sw) = res"
  then have "client (fst sw) = c" "resolver (fst sw) = res" by simp_all
  note t = exposition_tick_unmatched [OF this, of tick]
  show "client (fst (exposition_tick tick sw)) = c \<and> resolver (fst (exposition_tick tick sw)) = res"
    using t by simp
  show "unmatchedWarned (fst (exposition_tick tick sw)) \<and>
      unmatched_reports (exposition_tick tick sw) = unmatched_reports sw + (if unmatchedWarned (fst sw) then 0 else 1)"
    if "unmatched_input c res tick = Raise" using t that by simp
  show "\<not> unmatchedWarned (fst (exposition_tick tick sw)) \<and>
      unmatched_reports (exposition_tick tick sw) = unmatched_reports sw"
    if "unmatched_input c res tick = Clear" using t that by simp
  show "unmatchedWarned (fst (exposition_tick tick sw)) = unmatchedWarned (fst sw) \<and>
      unmatched_reports (exposition_tick tick sw) = unmatched_reports sw"
    if "unmatched_input c res tick = Hold" using t that by simp
qed

text \<open>
  C26. A standing misconfiguration costs one line: over any run of ticks, the warning that the
  exposition carries none of the known metrics is logged once for every time the condition
  begins, that is for each scrape without a known metric that follows one with a known metric
  or the start; failed scrapes neither end nor begin it. In particular it is logged at most
  once more than the number of scrapes that resolved a role.
\<close>

theorem unmatched_once_per_incident:
  "unmatched_reports (fold exposition_tick ticks (s, w)) =
     unmatched_reports (s, w) + rising (unmatchedWarned s) (map (unmatched_input (client s) (resolver s)) ticks) \<and>
   unmatched_reports (fold exposition_tick ticks (s, w)) \<le>
     unmatched_reports (s, w) + Suc (length (filter (\<lambda>t. unmatched_input (client s) (resolver s) t = Clear) ticks))"
  using unmatched.run_reports [of "(s, w)" "client s" "resolver s" ticks]
    unmatched.run_bounded [of "(s, w)" "client s" "resolver s" ticks]
  by simp

end
