(* ===== verification/ExpositionReports.thy ===== *)
theory ExpositionReports
  imports ExpositionSource
begin

text \<open>
  The reports of \<open>reduce\<close> and \<open>reportWithheld\<close>: when a withheld set is reported again, what the
  gauge of withheld roles shows, and when all rows are said to map nowhere.
\<close>

section \<open>The withheld set\<close>

text \<open>\<open>strings.Join\<close> is injective on nonempty lists of comma-free strings.\<close>

definition join_tail :: "string list \<Rightarrow> string" where
  "join_tail xs = concat (map (\<lambda>y. CHR '','' # y) xs)"

lemma join_comma_Cons: "join_comma (x # xs) = x @ join_tail xs"
  by (simp add: join_comma_def join_tail_def)

lemma join_comma_inject:
  assumes "x @ join_tail xs = y @ join_tail ys"
    and "\<forall>z \<in> set (x # xs). CHR '','' \<notin> set z" and "\<forall>z \<in> set (y # ys). CHR '','' \<notin> set z"
  shows "x = y \<and> xs = ys"
  using assms
proof (induction xs arbitrary: x y ys)
  case Nil
  then show ?case
  proof (cases ys)
    case (Cons y' ys')
    with Nil have "CHR '','' \<in> set x" by (simp add: join_tail_def)
    with Nil show ?thesis by simp
  qed (simp add: join_tail_def)
next
  case (Cons x' xs)
  have xx: "x @ CHR '','' # (x' @ join_tail xs) = y @ join_tail ys"
    using Cons.prems(1) by (simp add: join_tail_def)
  show ?case
  proof (cases ys)
    case Nil
    with xx have "CHR '','' \<in> set y" by (metis append_Nil2 concat.simps(1) in_set_conv_decomp join_tail_def list.simps(8))
    with Cons.prems show ?thesis by simp
  next
    case ys: (Cons y' ys')
    then have eq: "x @ CHR '','' # (x' @ join_tail xs) = y @ CHR '','' # (y' @ join_tail ys')"
      using xx by (simp add: join_tail_def)
    have "CHR '','' \<notin> set x" "CHR '','' \<notin> set y" using Cons.prems by simp_all
    then have tw: "takeWhile (\<lambda>c. c \<noteq> CHR '','') (x @ CHR '','' # (x' @ join_tail xs)) = x"
      "takeWhile (\<lambda>c. c \<noteq> CHR '','') (y @ CHR '','' # (y' @ join_tail ys')) = y"
      by (subst takeWhile_append2; auto)+
    then have "x = y" using eq by simp
    moreover from this eq have "x' @ join_tail xs = y' @ join_tail ys'" by simp
    ultimately show ?thesis using Cons.IH [of x' y' ys'] Cons.prems ys by simp
  qed
qed

lemma join_comma_sets:
  assumes "A \<noteq> {||}" "B \<noteq> {||}" "\<forall>z \<in> fset (A |\<union>| B). CHR '','' \<notin> set z"
  shows "join_comma (sorted_list_of_fset A) = join_comma (sorted_list_of_fset B) \<longleftrightarrow> A = B"
proof
  assume j: "join_comma (sorted_list_of_fset A) = join_comma (sorted_list_of_fset B)"
  obtain x xs where x: "sorted_list_of_fset A = x # xs"
    using assms(1) by (metis fset_of_list_simps(1) neq_Nil_conv sorted_list_of_fset_simps(2))
  obtain y ys where y: "sorted_list_of_fset B = y # ys"
    using assms(2) by (metis fset_of_list_simps(1) neq_Nil_conv sorted_list_of_fset_simps(2))
  have "set (sorted_list_of_fset C) = fset C" for C :: "string fset"
    by (simp add: sorted_list_of_fset.rep_eq)
  from this [of A] this [of B] assms(3) have "\<forall>z \<in> set (x # xs). CHR '','' \<notin> set z" "\<forall>z \<in> set (y # ys). CHR '','' \<notin> set z"
    unfolding x y by auto
  with j have "x # xs = y # ys" unfolding x y join_comma_Cons using join_comma_inject by blast
  then show "A = B" using x y by (metis sorted_list_of_fset_simps(2))
qed simp

lemma sorted_nil [simp]: "sorted_list_of_fset A = [] \<longleftrightarrow> A = {||}"
  by (metis fset_of_list_simps(1) sorted_list_of_fset_empty sorted_list_of_fset_simps(2))

text \<open>
  The withheld report follows the set: with the last reported set \<open>A\<close> on record, a tick that
  withholds \<open>B\<close> is reported exactly when \<open>B\<close> differs from \<open>A\<close>, naming every service of \<open>B\<close>, and
  then \<open>B\<close> is on record; slugs without commas are assumed.
\<close>

theorem withheld_reported_on_change:
  assumes "withheldReport role s = Some (join_comma (sorted_list_of_fset A))"
    and "A \<noteq> {||}" and "B \<noteq> {||}" and "ffilter (\<lambda>z. CHR '','' \<in> set z) (A |\<union>| B) = {||}"
  shows "w_log (snd (reportWithheld role metric B False (s, w))) =
      w_log w @ (if A = B then [] else [LogWithheld role metric (sorted_list_of_fset B)]) \<and>
    withheldReport role (fst (reportWithheld role metric B False (s, w))) = Some (join_comma (sorted_list_of_fset B))"
proof -
  have "\<forall>z \<in> fset (A |\<union>| B). CHR '','' \<notin> set z"
    using assms(4) by (auto simp: fset_eq_iff)
  from join_comma_sets [OF assms(2,3) this] show ?thesis
    using assms(1,3) by (auto simp: reportWithheld_def Let_def latch_simps)
qed

text \<open>A source as \<open>newExpositionSource\<close> builds it, with its first report on record.\<close>

definition empty_world :: world where
  "empty_world = \<lparr>w_log = [], w_metrics = None\<rparr>"

definition example_config :: ExpositionConfig where
  "example_config = \<lparr>XURL = ''http://collector:8889/metrics'', XSlugLabel = [], XCPUMetric = [], XMemoryMetric = [],
     XTimeout = 0, XMaxBytes = 0, XRater = \<lparr>MaxTracked = 0\<rparr>\<rparr>"

definition example_source :: expositionSource where
  "example_source = fst (newExpositionSource (- 1) example_config empty_world)"

lemma withheld_reported_on_change_witness:
  "w_log (snd (reportWithheld RoleCPU ''m'' {|''b''|} False
      (store_withheldReport RoleCPU (Some ''a'') example_source, empty_world))) =
    [LogWithheld RoleCPU ''m'' [''b'']]"
proof -
  have a: "join_comma (sorted_list_of_fset {|''a''|}) = ''a''" by (simp add: join_comma_def)
  have "w_log (snd (reportWithheld RoleCPU ''m'' {|''b''|} False
      (store_withheldReport RoleCPU (Some (join_comma (sorted_list_of_fset {|''a''|}))) example_source, empty_world))) =
    w_log empty_world @ (if {|''a''|} = {|''b''|} then [] else [LogWithheld RoleCPU ''m'' (sorted_list_of_fset {|''b''|})])"
    by (rule conjunct1 [OF withheld_reported_on_change]) (auto simp: latch_simps fset_eq_iff)
  moreover have "''a'' |\<notin>| {|''b''|}" by simp
  then have "{|''a''|} \<noteq> {|''b''|}" by auto
  ultimately show ?thesis unfolding a by (simp add: empty_world_def)
qed

text \<open>
  Slugs with commas defeat the comparison: after the set of the two services \<open>a\<close> and \<open>b\<close>, a
  tick that withholds the single service named \<open>a,b\<close> instead is not reported, in any state.
\<close>

theorem withheld_comma_collision:
  "w_log (snd (reportWithheld role metric {|''a,b''|} False
      (reportWithheld role metric {|''a'', ''b''|} False (s, w)))) =
   w_log (snd (reportWithheld role metric {|''a'', ''b''|} False (s, w)))"
proof -
  have "sorted_list_of_fset {|''a'', ''b''|} = [''a'', ''b'']" by (simp add: fset_simps)
  moreover have "join_comma [''a'', ''b''] = ''a,b''" "join_comma [''a,b''] = ''a,b''"
    by (simp_all add: join_comma_def)
  moreover have "sorted_list_of_fset {|''a,b''|} = [''a,b'']" by simp
  ultimately have "withheldReport role (fst (reportWithheld role metric {|''a'', ''b''|} False (s, w))) = Some ''a,b''"
    "join_comma (sorted_list_of_fset {|''a,b''|}) = ''a,b''"
    by (simp_all add: reportWithheld_def Let_def latch_simps)
  then show ?thesis
    by (cases "reportWithheld role metric {|''a'', ''b''|} False (s, w)")
      (simp add: reportWithheld_def [of _ _ "{|''a,b''|}"] Let_def)
qed

section \<open>The gauge of withheld roles\<close>

text \<open>
  The gauge of withheld roles is not set on every tick: a tick whose scrape fails leaves it,
  for both roles, at the value an earlier tick gave it.
\<close>

theorem withheld_gauge_kept_on_failure:
  "case snd (Fetch (te_scrape env) (client s) (CandidateNames (resolver s))) of
     Inl e \<Rightarrow> map_option rolesWithheld (w_metrics (snd (snd (exposition_Samples env targets (s, w))))) =
       map_option rolesWithheld (w_metrics w)
   | Inr series \<Rightarrow> True"
  by (auto simp: exposition_Samples_eq RecordScrape_def option.map_comp comp_def split: sum.split)

section \<open>Rows that map nowhere\<close>

lemma reduce_reports_allDropped:
  "roleLatch (SelRole sel) LatchAllDropped (fst (reduce_reports sel a fo (s, w))) \<longleftrightarrow>
     0 < dropped a \<and> contributed a = {||}"
  by (auto simp: reduce_reports_def reportWithheld_def warn_latched_def Let_def latch_simps split: prod.splits)

text \<open>
  When the latch behind "every row mapped to no tracked service" is set: after \<open>reduce\<close> on a
  family the role can use, exactly when some row maps to no tracked service and no row that maps
  to one has a value.
\<close>

theorem allDropped_latch_exact:
  "(SelKind sel = KindCounter \<and> \<not> Rateable sel) \<or>
   roleLatch (SelRole sel) LatchAllDropped (fst (snd (reduce sel rated index fo (out, s, w)))) =
     (filter (\<lambda>row. resolve index row (slugLabel s) = None) (SelSeries sel) \<noteq> [] \<and>
      filter (\<lambda>row. resolve index row (slugLabel s) \<noteq> None \<and> row_value (Rateable sel) rated row \<noteq> None)
        (SelSeries sel) = [])"
proof (cases "SelKind sel = KindCounter \<and> \<not> Rateable sel")
  case False
  let ?a = "attribute index (slugLabel s) (Rateable sel) rated (SelSeries sel)"
  have c: "contributed ?a = {||} \<longleftrightarrow>
      filter (\<lambda>row. resolve index row (slugLabel s) \<noteq> None \<and> row_value (Rateable sel) rated row \<noteq> None)
        (SelSeries sel) = []"
    using attribute_spec(1) [of _ index "slugLabel s" "Rateable sel" rated "SelSeries sel"]
    by (auto simp: fset_eq_iff service_rows_def list_ex_iff filter_empty_conv)
      (metis option.distinct(1) not_Some_eq)
  show ?thesis
    using c reduce_reports_allDropped [of sel ?a fo "store_roleLatch (SelRole sel) LatchUnrateable False s" w]
      attribute_spec(3) [of index "slugLabel s" "Rateable sel" rated "SelSeries sel"]
    unfolding reduce_eq if_not_P [OF False] Let_def by simp
qed simp

text \<open>The first tick of a collector that also covers a workload Zensu does not track: one counter row
  of the tracked pod, one of another.\<close>

definition first_targets :: "ServiceTarget list" where
  "first_targets = [\<lparr>TSlug = ''api'', TNamespace = ''prod'', TSelector = ''app=api'', TPodNames = [''api-1'']\<rparr>]"

definition pod_counter :: "string \<Rightarrow> string \<Rightarrow> Series" where
  "pod_counter ns pod = \<lparr>SName = ''k8s_pod_cpu_time'',
     SLabels = fmap_of_list [(''namespace'', ns), (''pod'', pod)], SValue = Fin 1, SKind = KindCounter\<rparr>"

definition first_selection :: Selection where
  "first_selection = \<lparr>SelCandidate = hd (tl cpuCandidates), SelRole = RoleCPU, SelKind = KindCounter,
     SelSeries = [pod_counter ''prod'' ''api-1'', pod_counter ''kube-system'' ''dns-1''], Excluded = 0, Ambiguous = []\<rparr>"

lemma first_resolve:
  "resolve (newSlugIndex first_targets) (pod_counter ''prod'' ''api-1'') ''zensu_service'' = Some ''api''"
  "resolve (newSlugIndex first_targets) (pod_counter ''kube-system'' ''dns-1'') ''zensu_service'' = None"
  by (simp_all add: resolve_def newSlugIndex_simps ns_claims_def pods_of_def first_targets_def pod_counter_def
      fmget_def PodLabel_def NamespaceLabel_def podLabelNames_def namespaceLabelNames_def PodKey_def
      nonempty_slug_def unitSep_def Let_def)

text \<open>
  The report overstates: on the first tick of a counter family, where every tracked row is
  still without a rate, the warning that every row mapped to no tracked service is logged
  although the row of the tracked pod maps to its service.
\<close>

theorem allDropped_despite_mapped_row:
  "resolve (newSlugIndex first_targets) (pod_counter ''prod'' ''api-1'') (slugLabel example_source) = Some ''api'' \<and>
   LogAllDropped ''k8s_pod_cpu_time'' RoleCPU 1 ''zensu_service'' \<in>
     set (w_log (snd (snd (reduce first_selection fmempty (newSlugIndex first_targets) True
       (fmempty, example_source, empty_world)))))"
proof
  have label: "slugLabel example_source = ''zensu_service''" "roleLatch RoleCPU LatchAllDropped example_source = False"
    by (simp_all add: example_source_def newExpositionSource_def example_config_def DefaultSlugLabel_def Let_def
        roleLatch_def)
  then show "resolve (newSlugIndex first_targets) (pod_counter ''prod'' ''api-1'') (slugLabel example_source) = Some ''api''"
    by (simp add: first_resolve)
  have a: "attribute (newSlugIndex first_targets) ''zensu_service'' True fmempty (SelSeries first_selection) =
      \<lparr>totals = fmempty, contributed = {||}, incomplete = {|''api''|}, dropped = 1\<rparr>"
    by (simp add: attribute_def first_selection_def attribute_row_def first_resolve)
  have r: "Rateable first_selection" "SelRole first_selection = RoleCPU" "Excluded first_selection = 0"
    "Ambiguous first_selection = []" "CName (SelCandidate first_selection) = ''k8s_pod_cpu_time''"
    by (simp_all add: first_selection_def Rateable_def cpuCandidates_def)
  show "LogAllDropped ''k8s_pod_cpu_time'' RoleCPU 1 ''zensu_service'' \<in>
     set (w_log (snd (snd (reduce first_selection fmempty (newSlugIndex first_targets) True
       (fmempty, example_source, empty_world)))))"
    by (simp add: reduce_eq r label a Let_def reduce_reports_def warn_latched_def latch_simps reportWithheld_def
        emit_samples_def)
qed

section \<open>Concrete instances\<close>

lemma emit_samples_order_witness:
  "fst (emit_samples MetricMemoryBytes (Fin 1)
      \<lparr>totals = fmap_of_list [(''a'', Fin 1), (''b'', Fin 2)], contributed = {|''a'', ''b''|}, incomplete = {||}, dropped = 0\<rparr>
      [''a'', ''b''] (fmempty, empty_world)) =
   fst (emit_samples MetricMemoryBytes (Fin 1)
      \<lparr>totals = fmap_of_list [(''a'', Fin 1), (''b'', Fin 2)], contributed = {|''a'', ''b''|}, incomplete = {||}, dropped = 0\<rparr>
      [''b'', ''a''] (fmempty, empty_world))"
  by (rule emit_samples_order) auto

text \<open>A tick whose scrape carries two memory rows of the tracked pod's containers.\<close>

definition memory_metric :: "string \<Rightarrow> int \<Rightarrow> Metric" where
  "memory_metric c n = \<lparr>MLabel = [(''namespace'', ''prod''), (''pod'', ''api-1''), (''container'', c)],
     MGauge = Some (Fin (of_int n)), MUntyped = None, MCounter = None\<rparr>"

definition memory_row :: "string \<Rightarrow> int \<Rightarrow> Series" where
  "memory_row c n = \<lparr>SName = ''container_memory_working_set_bytes'', SLabels = labels_of (MLabel (memory_metric c n)),
     SValue = Fin (of_int n), SKind = KindGauge\<rparr>"

definition memory_tick :: tick_env where
  "memory_tick = \<lparr>te_pod_metrics = (\<lambda>ns sel. (0, 0, False, None)),
     te_scrape = \<lparr>env_new_request = (\<lambda>_. None),
       env_send = (\<lambda>_. Inr \<lparr>StatusCode = 200, RespStatus = ''200 OK'', Location = None,
         RespBody = \<lparr>body_bytes = ''rows'', body_error = None\<rparr>\<rparr>),
       env_quote = (\<lambda>u. u),
       env_decoder = (\<lambda>_ _. ([\<lparr>MFName = ''container_memory_working_set_bytes'', MFType = GAUGE,
         MFMetric = [memory_metric ''app'' 1000, memory_metric ''sidecar'' 24]\<rparr>], None)),
       env_text_format = ''text/plain; version=0.0.4'', env_memory_limit = - 1\<rparr>,
     te_rater_clock = 0, te_scrape_seconds = Fin 0, te_retry_clock = 0, te_switch_clock = 0\<rparr>"

lemma memory_names:
  "NormalizeName ''container_memory_working_set_bytes'' = ''container_memory_working_set''"
  "NormalizeName ''container_memory_working_set'' = ''container_memory_working_set''"
  "NormalizeName ''k8s_pod_memory_working_set'' = ''k8s_pod_memory_working_set''"
  by code_simp+

lemma memory_config:
  "client example_source = NewClient ''http://collector:8889/metrics'' 0"
  "resolver example_source = \<lparr>CPUOverride = [], MemoryOverride = []\<rparr>" "slugLabel example_source = ''zensu_service''"
  by (simp_all add: example_source_def newExpositionSource_def example_config_def DefaultSlugLabel_def Let_def)

lemma memory_candidate: "''container_memory_working_set'' |\<in>| CandidateNames \<lparr>CPUOverride = [], MemoryOverride = []\<rparr>"
  by (simp add: CandidateNames_def candidates_def memoryCandidates_def memory_names fset_of_list_elem)

lemma memory_fetch:
  "snd (Fetch (te_scrape memory_tick) (client example_source) (CandidateNames (resolver example_source))) =
    Inr [memory_row ''app'' 1000, memory_row ''sidecar'' 24]"
  unfolding memory_config Fetch_NewClient
  using memory_candidate
  by (simp add: memory_tick_def unfollowed_simps(1) read_response_def ReadAllLimited_def readLimit_succ Let_def
      readLimit_def NewClient_def ceiling_bytes_def decode_def decode_loop_spec MaxSamples_def
      family_rows_def kindOf_def List.map_filter_simps scalarOf_def admitted_def memory_names memory_row_def)
    (simp add: memory_metric_def)

lemma memory_select:
  "Select \<lparr>CPUOverride = [], MemoryOverride = []\<rparr> RoleMemory [memory_row ''app'' 1000, memory_row ''sidecar'' 24] =
    Some \<lparr>SelCandidate = last memoryCandidates, SelRole = RoleMemory, SelKind = KindGauge,
      SelSeries = [memory_row ''app'' 1000, memory_row ''sidecar'' 24], Excluded = 0, Ambiguous = []\<rparr>"
proof -
  have c: "ContainerLabel (SLabels (memory_row c n)) = c" "SName (memory_row c n) = ''container_memory_working_set_bytes''"
    "SKind (memory_row c n) = KindGauge" for c n
    by (simp_all add: memory_row_def memory_metric_def labels_of_def ContainerLabel_def containerLabelNames_def fmget_def Let_def)
  have "summable [memory_row ''app'' 1000, memory_row ''sidecar'' 24] =
      ([memory_row ''app'' 1000, memory_row ''sidecar'' 24], 0, [])"
    by (simp add: summable_spec row_kept_def covered_def unattributable_def isPauseRow_def pauseContainer_def c)
  then show ?thesis
    by (simp add: Select_def candidates_def memoryCandidates_def matchFamily_def name_matches_def c memory_names Let_def)
qed

lemma memory_row_resolve: "resolve (newSlugIndex first_targets) (memory_row c n) ''zensu_service'' = Some ''api''"
proof -
  have "kubernetes_names first_targets" by (simp add: kubernetes_names_def first_targets_def unitSep_def)
  from resolve_by_pods [OF this] show ?thesis
    by (simp add: resolve_reference_def named_slug_def first_targets_def memory_row_def memory_metric_def labels_of_def
      fmget_def PodLabel_def NamespaceLabel_def podLabelNames_def namespaceLabelNames_def Let_def)
qed

lemma memory_sample_exact_witness:
  "filter (\<lambda>m. Key m = MetricMemoryBytes)
     (fmget [] (fst (fst (exposition_Samples memory_tick first_targets (example_source, empty_world)))) ''api'') =
    [\<lparr>Key = MetricMemoryBytes, Value = Fin 1024\<rparr>]"
proof -
  have v: "map SValue (filter (\<lambda>row. resolve (newSlugIndex first_targets) row (slugLabel example_source) = Some ''api'')
      [memory_row ''app'' 1000, memory_row ''sidecar'' 24]) = map (\<lambda>n. Fin (of_int n)) [1000, 24]"
    unfolding memory_config by (simp add: memory_row_resolve) (simp add: memory_row_def)
  show ?thesis
    using memory_sample_exact [OF memory_fetch memory_select [folded memory_config(2)], of first_targets "''api''" "[1000, 24]" empty_world] v
    by simp
qed

end
