(* ===== verification/AutoSource.thy ===== *)
theory AutoSource
  imports MetricsServer ExpositionReports
begin

text \<open>
  \<open>internal/agent/source.go\<close>: the composite source that reads a primary and switches to a
  fallback on a cooldown. The composite is defined over any two sources; the program builds it
  from the metrics-server and the exposition source.
\<close>

section \<open>The composite source\<close>

definition autoRetryInterval :: int64 where
  "autoRetryInterval = 300000000000"

record ('p, 'f) autoSource =
  primary :: 'p
  fallback :: 'f
  switched :: bool
  switchedAt :: int64

definition dueForRetry :: "int64 \<Rightarrow> ('p, 'f) autoSource \<Rightarrow> bool" where
  "dueForRetry now a = (let last = switchedAt a
     in last = 0 \<or> sint autoRetryInterval \<le> sint (now - last))"

definition auto_Name :: "('p \<Rightarrow> string) \<Rightarrow> ('f \<Rightarrow> string) \<Rightarrow> ('p, 'f) autoSource \<Rightarrow> string" where
  "auto_Name pname fname a = (if switched a then fname (fallback a) else pname (primary a))"

definition run_fallback :: "'f samples_op \<Rightarrow> ('p, 'f) autoSource samples_op" where
  "run_fallback F env targets aw =
     (let (a, w) = aw; (r, (f, w)) = F env targets (fallback a, w) in (r, (a\<lparr>fallback := f\<rparr>, w)))"

definition is_unavailable :: "agent_error option \<Rightarrow> bool" where
  "is_unavailable err = (case err of None \<Rightarrow> False | Some e \<Rightarrow> is_source_unavailable e)"

definition auto_Samples :: "'p samples_op \<Rightarrow> 'f samples_op \<Rightarrow> ('p \<Rightarrow> string) \<Rightarrow> ('f \<Rightarrow> string) \<Rightarrow>
    ('p, 'f) autoSource samples_op" where
  "auto_Samples P F pname fname env targets aw =
     (let (a, w) = aw in
      if switched a \<and> \<not> dueForRetry (te_retry_clock env) a then run_fallback F env targets (a, w)
      else let ((out, err), (p, w)) = P env targets (primary a, w);
               a = a\<lparr>primary := p\<rparr>
           in if \<not> is_unavailable err then
                (if err = None \<and> switched a then
                   ((out, err), (a\<lparr>switched := False\<rparr>, log (LogPrimaryBack (pname (primary a)) (fname (fallback a))) w))
                 else ((out, err), (a, w)))
              else let a = a\<lparr>switchedAt := te_switch_clock env\<rparr>;
                       (a, w) = (if switched a then (a, w)
                         else (a\<lparr>switched := True\<rparr>,
                               log (LogPrimaryUnavailable (pname (primary a)) (fname (fallback a))) w))
                   in run_fallback F env targets (a, w))"

section \<open>Its contract, from the contracts of its parts\<close>

locale two_sources =
  p: metric_source P pname + f: metric_source F fname
  for P :: "'p samples_op" and pname :: "'p \<Rightarrow> string" and F :: "'f samples_op" and fname :: "'f \<Rightarrow> string"
begin

text \<open>A call of the composite is a call of one of its parts in the end, after log records.\<close>

lemma auto_call:
  assumes "auto_Samples P F pname fname env targets (a, w) = (r, (a', w'))"
  shows "(\<exists>p' w1. P env targets (primary a, w) = (r, (p', w1)) \<and> log_extends w1 w' \<and> w_metrics w' = w_metrics w1) \<or>
    (\<exists>f'. F env targets (fallback a, w) = (r, (f', w'))) \<or>
    (\<exists>q p' w1 w2 f'. P env targets (primary a, w) = (q, (p', w1)) \<and> log_extends w1 w2 \<and>
       w_metrics w2 = w_metrics w1 \<and> F env targets (fallback a, w2) = (r, (f', w')))"
proof (cases "switched a \<and> \<not> dueForRetry (te_retry_clock env) a")
  case True
  with assms show ?thesis by (auto simp: auto_Samples_def run_fallback_def split: prod.splits)
next
  case nc: False
  obtain out err p' w1 where P: "P env targets (primary a, w) = ((out, err), (p', w1))"
    by (metis surj_pair)
  have ext: "log_extends w1 (log (LogPrimaryBack n m) w1)" "log_extends w1 (log (LogPrimaryUnavailable n m) w1)" for n m
    by (simp_all add: log_extends_log)
  show ?thesis
  proof (cases "is_unavailable err")
    case False
    with assms nc P have "r = (out, err) \<and> (w' = w1 \<or> w' = log (LogPrimaryBack (pname p') (fname (fallback a))) w1)"
      by (auto simp: auto_Samples_def Let_def split: if_splits)
    with P ext(1) show ?thesis by auto
  next
    case True
    define w2 where "w2 = (if switched a then w1 else log (LogPrimaryUnavailable (pname p') (fname (fallback a))) w1)"
    have w2: "log_extends w1 w2" "w_metrics w2 = w_metrics w1" using ext(2) by (simp_all add: w2_def)
    have "\<exists>f'. F env targets (fallback a, w2) = (r, (f', w'))"
      using assms nc P True by (auto simp: auto_Samples_def run_fallback_def w2_def Let_def split: prod.splits if_splits)
    with P w2 show ?thesis by blast
  qed
qed

lemma auto_good:
  "auto_Samples P F pname fname env targets aw = ((out, err), aw') \<Longrightarrow> good_map targets out"
  using auto_call [of env targets "fst aw" "snd aw" "(out, err)" "fst aw'" "snd aw'"]
  by (auto dest: p.samples_good f.samples_good)

lemma auto_error:
  "auto_Samples P F pname fname env targets aw = ((out, Some e), aw') \<Longrightarrow> out = fmempty"
  using auto_call [of env targets "fst aw" "snd aw" "(out, Some e)" "fst aw'" "snd aw'"]
  by (auto dest: p.error_empty f.error_empty)

lemma auto_listed: "auto_Name pname fname s \<in> {SourceMetricsServer, SourceExposition, SourceNone}"
  using p.name_listed f.name_listed by (auto simp: auto_Name_def)

lemma auto_log:
  assumes "auto_Samples P F pname fname env targets (a, w) = (r, (a', w'))"
  shows "log_extends w w' \<and> source_metrics (w_metrics w) (w_metrics w')"
  using auto_call [OF assms]
proof (elim disjE exE conjE)
  fix p' w1 assume "P env targets (primary a, w) = (r, (p', w1))" "log_extends w1 w'" "w_metrics w' = w_metrics w1"
  with p.log_grows [OF this(1)] p.metrics_framed [OF this(1)] show ?thesis by (auto intro: log_extends_trans)
next
  fix f' assume "F env targets (fallback a, w) = (r, (f', w'))"
  with f.log_grows [OF this] f.metrics_framed [OF this] show ?thesis by simp
next
  fix q p' w1 w2 f'
  assume P: "P env targets (primary a, w) = (q, (p', w1))" and e: "log_extends w1 w2" "w_metrics w2 = w_metrics w1"
    and F: "F env targets (fallback a, w2) = (r, (f', w'))"
  have "log_extends w w2" using p.log_grows [OF P] e(1) by (rule log_extends_trans)
  then show ?thesis
    using f.log_grows [OF F] p.metrics_framed [OF P] f.metrics_framed [OF F] e(2)
    by (auto intro: log_extends_trans source_metrics_trans)
qed

end

sublocale two_sources \<subseteq> composite: metric_source "auto_Samples P F pname fname" "auto_Name pname fname"
  by (unfold_locales; use auto_good auto_error auto_log auto_listed in blast)

interpretation auto: two_sources metricsServer_Samples metricsServer_Name exposition_Samples exposition_Name ..

section \<open>The state machine of the program's composite\<close>

type_synonym program_auto = "(metricsServerSource, expositionSource) autoSource"

definition auto_source_Samples :: "program_auto samples_op" where
  "auto_source_Samples = auto_Samples metricsServer_Samples exposition_Samples metricsServer_Name exposition_Name"

definition auto_source_Name :: "program_auto \<Rightarrow> string" where
  "auto_source_Name = auto_Name metricsServer_Name exposition_Name"

definition cooling :: "int64 \<Rightarrow> ('p, 'f) autoSource \<Rightarrow> bool" where
  "cooling now a \<longleftrightarrow> switched a \<and> \<not> dueForRetry now a"

lemma metricsServer_errors:
  "snd (fst (metricsServer_Samples env targets sw)) = None \<or> is_unavailable (snd (fst (metricsServer_Samples env targets sw)))"
  using metricsServer_cases [of env targets "fst sw" "snd sw"] by (auto simp: is_unavailable_def Let_def)

text \<open>The three ways a tick can go.\<close>

lemma auto_source_cooling:
  "cooling (te_retry_clock env) a \<Longrightarrow>
     auto_source_Samples env targets (a, w) = run_fallback exposition_Samples env targets (a, w)"
  by (simp add: auto_source_Samples_def auto_Samples_def cooling_def)

lemma auto_source_served:
  "\<not> cooling (te_retry_clock env) a \<Longrightarrow> metricsServer_Samples env targets (primary a, w) = ((out, None), (p, w1)) \<Longrightarrow>
     fst (auto_source_Samples env targets (a, w)) = (out, None) \<and>
     fst (snd (auto_source_Samples env targets (a, w))) = a\<lparr>primary := p, switched := False\<rparr> \<and>
     w_metrics (snd (snd (auto_source_Samples env targets (a, w)))) = w_metrics w1"
  by (cases a) (auto simp: auto_source_Samples_def auto_Samples_def cooling_def is_unavailable_def Let_def)

lemma auto_source_switch:
  assumes "\<not> cooling (te_retry_clock env) a"
    "metricsServer_Samples env targets (primary a, w) = ((out, err), (p, w1))" "is_unavailable err"
  shows "\<exists>w2. w_metrics w2 = w_metrics w1 \<and> auto_source_Samples env targets (a, w) = run_fallback exposition_Samples env targets
    (a\<lparr>primary := p, switchedAt := te_switch_clock env, switched := True\<rparr>, w2)"
proof (cases "switched a")
  case True
  with assms show ?thesis
    by (cases a, intro exI [of _ w1]) (simp add: auto_source_Samples_def auto_Samples_def cooling_def)
next
  case False
  with assms show ?thesis
    by (intro exI [of _ "log (LogPrimaryUnavailable (metricsServer_Name p) (exposition_Name (fallback a))) w1"])
      (auto simp: auto_source_Samples_def auto_Samples_def cooling_def)
qed

lemma run_fallback_simps:
  "fst (run_fallback F env targets (a, w)) = fst (F env targets (fallback a, w))"
  "fst (snd (run_fallback F env targets (a, w))) = a\<lparr>fallback := fst (snd (F env targets (fallback a, w)))\<rparr>"
  "snd (snd (run_fallback F env targets (a, w))) = snd (snd (F env targets (fallback a, w)))"
  by (simp_all add: run_fallback_def split: prod.split)

text \<open>
  The name tells which source served: after every tick, when the composite is switched it
  reports the exposition's name and the tick's samples and error are those of an exposition
  tick; otherwise it reports the metrics-server's name, the samples and error are those of the
  metrics-server tick, and the exposition was not touched.
\<close>

theorem auto_name_is_server:
  "let res = auto_source_Samples env targets (a, w); a' = fst (snd res) in
   if switched a' then auto_source_Name a' = SourceExposition \<and>
     (\<exists>w0. fst res = fst (exposition_Samples env targets (fallback a, w0)) \<and>
       fallback a' = fst (snd (exposition_Samples env targets (fallback a, w0))))
   else auto_source_Name a' = SourceMetricsServer \<and>
     fst res = fst (metricsServer_Samples env targets (primary a, w)) \<and> fallback a' = fallback a"
proof -
  have name: "auto_source_Name a' = (if switched a' then SourceExposition else SourceMetricsServer)" for a'
    by (simp add: auto_source_Name_def auto_Name_def exposition_Name_def metricsServer_Name_def)
  obtain out err p w1 where P: "metricsServer_Samples env targets (primary a, w) = ((out, err), (p, w1))"
    by (metis surj_pair)
  consider "cooling (te_retry_clock env) a" | "\<not> cooling (te_retry_clock env) a" "err = None"
    | "\<not> cooling (te_retry_clock env) a" "is_unavailable err"
    using metricsServer_errors [of env targets "(primary a, w)"] P by auto
  then show ?thesis
  proof cases
    case 1
    then show ?thesis unfolding auto_source_cooling [OF 1] Let_def name
      by (auto simp: run_fallback_simps cooling_def)
  next
    case 2
    from auto_source_served [OF 2(1) P [unfolded 2(2)]] show ?thesis
      unfolding Let_def name by (simp add: P 2(2))
  next
    case 3
    from auto_source_switch [OF 3(1) P 3(2)] show ?thesis
      unfolding Let_def name by (auto simp: run_fallback_simps)
  qed
qed

lemma auto_transition:
  "let a' = fst (snd (auto_source_Samples env targets (a, w)));
       p = metricsServer_Samples env targets (primary a, w)
   in if cooling (te_retry_clock env) a
      then primary a' = primary a \<and> switched a' \<and> switchedAt a' = switchedAt a
      else primary a' = fst (snd p) \<and> switched a' = (snd (fst p) \<noteq> None) \<and>
        switchedAt a' = (if snd (fst p) \<noteq> None then te_switch_clock env else switchedAt a)"
proof -
  obtain out err p w1 where P: "metricsServer_Samples env targets (primary a, w) = ((out, err), (p, w1))"
    by (metis surj_pair)
  consider "cooling (te_retry_clock env) a" | "\<not> cooling (te_retry_clock env) a" "err = None"
    | "\<not> cooling (te_retry_clock env) a" "is_unavailable err" "err \<noteq> None"
    using metricsServer_errors [of env targets "(primary a, w)"] P by (auto simp: is_unavailable_def)
  then show ?thesis
  proof cases
    case 1
    then show ?thesis unfolding auto_source_cooling [OF 1] by (simp add: run_fallback_simps cooling_def)
  next
    case 2
    from auto_source_served [OF 2(1) P [unfolded 2(2)]] show ?thesis using 2 by (simp add: P)
  next
    case 3
    from auto_source_switch [OF 3(1) P 3(2)] show ?thesis using 3 by (auto simp: P run_fallback_simps)
  qed
qed

text \<open>
  C11. The state machine of the composite: while it is cooling down (switched, and the retry
  interval not over) nothing of the primary changes; in every other tick the primary is asked
  once, and the composite is switched afterwards exactly when the primary could not serve the
  cluster, with the time of the switch recorded on every such answer.
\<close>

theorem auto_state_machine:
  "let a' = fst (snd (auto_source_Samples env targets (a, w)));
       p = metricsServer_Samples env targets (primary a, w)
   in if cooling (te_retry_clock env) a
      then primary a' = primary a \<and> switched a' \<and> switchedAt a' = switchedAt a
      else primary a' = fst (snd p) \<and> switched a' = (snd (fst p) \<noteq> None) \<and>
        switchedAt a' = (if snd (fst p) \<noteq> None then te_switch_clock env else switchedAt a)"
  by (rule auto_transition)

section \<open>Its scrapes\<close>

text \<open>A tick scrapes when the composite is cooling down, and when metrics-server, asked, cannot serve.\<close>

definition metrics_server_down :: "(ServiceTarget \<times> pod_metrics_reply) list \<Rightarrow> bool" where
  "metrics_server_down rs \<longleftrightarrow> list_ex api_missing rs \<or> rs \<noteq> [] \<and> \<not> list_ex answered_read rs"

definition auto_scrapes :: "tick_env \<Rightarrow> ServiceTarget list \<Rightarrow> program_auto \<Rightarrow> (bool \<times> f64) list" where
  "auto_scrapes env targets a =
     (if cooling (te_retry_clock env) a \<or> metrics_server_down (reads (te_pod_metrics env) targets)
      then exposition_scrapes env targets (fallback a) else [])"

lemma auto_counts:
  assumes "auto_source_Samples env targets (a, w) = (r, (a', w'))"
  shows "scrape_counts (auto_scrapes env targets a) (w_metrics w) (w_metrics w')"
proof -
  obtain out err p w1 where P: "metricsServer_Samples env targets (primary a, w) = ((out, err), (p, w1))"
    by (metis surj_pair)
  have m: "w_metrics w1 = w_metrics w" by (rule metricsServer_metrics [OF P])
  have down: "err \<noteq> None \<longleftrightarrow> metrics_server_down (reads (te_pod_metrics env) targets)"
    using metricsServer_cases [of env targets "primary a" w] P by (auto simp: Let_def metrics_server_down_def split: if_splits)
  have F: "scrape_counts (exposition_scrapes env targets (fallback a)) (w_metrics w0)
      (w_metrics (snd (snd (exposition_Samples env targets (fallback a, w0)))))" for w0
  proof -
    obtain q f w3 where "exposition_Samples env targets (fallback a, w0) = (q, (f, w3))" by (metis surj_pair)
    then show ?thesis using exposition_counts [of env targets "fallback a" w0 q f w3] by simp
  qed
  have w': "w' = snd (snd (auto_source_Samples env targets (a, w)))" by (simp add: assms)
  consider "cooling (te_retry_clock env) a" | "\<not> cooling (te_retry_clock env) a" "err = None"
    | "\<not> cooling (te_retry_clock env) a" "is_unavailable err" "err \<noteq> None"
    using metricsServer_errors [of env targets "(primary a, w)"] P by (auto simp: is_unavailable_def)
  then show ?thesis
  proof cases
    case 1
    then show ?thesis using F [of w] unfolding w' auto_source_cooling [OF 1]
      by (simp add: run_fallback_simps auto_scrapes_def)
  next
    case 2
    then show ?thesis using auto_source_served [OF 2(1) P [unfolded 2(2)]] m down
      by (simp add: w' auto_scrapes_def)
  next
    case 3
    from auto_source_switch [OF 3(1) P 3(2)] obtain w2 where w2: "w_metrics w2 = w_metrics w1"
      "auto_source_Samples env targets (a, w) = run_fallback exposition_Samples env targets
        (a\<lparr>primary := p, switchedAt := te_switch_clock env, switched := True\<rparr>, w2)" by blast
    then show ?thesis using F [of w2] m down 3 unfolding w' w2(2)
      by (simp add: run_fallback_simps auto_scrapes_def)
  qed
qed

section \<open>The cooldown\<close>

lemma autoRetryInterval_val [simp]: "sint autoRetryInterval = 300000000000"
  by (simp add: autoRetryInterval_def)

lemma dueForRetry_elapsed:
  assumes "0 < sint (switchedAt a)" "0 \<le> sint now"
  shows "dueForRetry now a \<longleftrightarrow> sint (switchedAt a) + 300000000000 \<le> sint now"
proof -
  have "sint (now - switchedAt a) = sint now - sint (switchedAt a)"
    using assms sint_int64_range [of now] sint_int64_range [of "switchedAt a"] by (intro sint_int64_diff) auto
  moreover have "switchedAt a \<noteq> 0" using assms(1) by auto
  ultimately show ?thesis by (auto simp: dueForRetry_def)
qed

definition auto_step :: "tick_env \<times> ServiceTarget list \<Rightarrow> program_auto \<times> world \<Rightarrow> program_auto \<times> world" where
  "auto_step tick aw = snd (auto_source_Samples (fst tick) (snd tick) aw)"

definition in_cooldown :: "int64 \<Rightarrow> tick_env \<times> ServiceTarget list \<Rightarrow> bool" where
  "in_cooldown since tick \<longleftrightarrow>
     0 \<le> sint (te_retry_clock (fst tick)) \<and> sint (te_retry_clock (fst tick)) < sint since + 300000000000"

text \<open>
  The primary is left alone for the whole cooldown: once the composite has switched at some
  instant, any number of ticks whose clock reads less than five minutes past it neither ask the
  primary nor move the instant, so an absent metrics-server is probed at most once per five
  minutes.
\<close>

theorem cooldown_leaves_primary:
  assumes "switched a" and "0 < sint (switchedAt a)" and "list_all (in_cooldown (switchedAt a)) ticks"
  shows "primary (fst (fold auto_step ticks (a, w))) = primary a \<and>
    switched (fst (fold auto_step ticks (a, w))) \<and>
    switchedAt (fst (fold auto_step ticks (a, w))) = switchedAt a"
  using assms
proof (induction ticks arbitrary: a w)
  case (Cons tick ticks)
  let ?aw = "auto_step tick (a, w)"
  have "cooling (te_retry_clock (fst tick)) a"
    using Cons.prems dueForRetry_elapsed [of a "te_retry_clock (fst tick)"]
    by (simp add: cooling_def in_cooldown_def)
  then have k: "primary (fst ?aw) = primary a" "switched (fst ?aw)" "switchedAt (fst ?aw) = switchedAt a"
    using auto_transition [of "fst tick" "snd tick" a w] by (simp_all add: auto_step_def Let_def)
  then have "primary (fst (fold auto_step ticks (fst ?aw, snd ?aw))) = primary (fst ?aw) \<and>
      switched (fst (fold auto_step ticks (fst ?aw, snd ?aw))) \<and>
      switchedAt (fst (fold auto_step ticks (fst ?aw, snd ?aw))) = switchedAt (fst ?aw)"
    using Cons.prems by (intro Cons.IH) simp_all
  with k show ?case by simp
qed simp

text \<open>
  C22. Recovery: as soon as a tick comes five minutes after the last switch (or later) and
  metrics-server answers it, no read finding the API missing and some read succeeding, the
  composite is back on metrics-server: that very tick reports its readings.
\<close>

theorem auto_recovers:
  assumes "0 < sint (switchedAt a)" and "sint (switchedAt a) + 300000000000 \<le> sint (te_retry_clock env)"
    and "list_ex answered_read (reads (te_pod_metrics env) targets)"
    and "filter api_missing (reads (te_pod_metrics env) targets) = []"
  shows "\<not> switched (fst (snd (auto_source_Samples env targets (a, w)))) \<and>
    fst (auto_source_Samples env targets (a, w)) = (fold reading_of (reads (te_pod_metrics env) targets) fmempty, None)"
proof -
  have nc: "\<not> cooling (te_retry_clock env) a"
    using assms(1,2) dueForRetry_elapsed [of a "te_retry_clock env"] by (simp add: cooling_def)
  have "\<not> list_ex api_missing (reads (te_pod_metrics env) targets)"
    using assms(4) by (auto simp: list_ex_iff filter_empty_conv)
  then have f: "fst (metricsServer_Samples env targets (primary a, w)) = (fold reading_of (reads (te_pod_metrics env) targets) fmempty, None)"
    using assms(3) metricsServer_cases [of env targets "primary a" w] by (simp add: Let_def)
  then obtain p w1 where P: "metricsServer_Samples env targets (primary a, w) =
      ((fold reading_of (reads (te_pod_metrics env) targets) fmempty, None), (p, w1))"
    by (metis surj_pair fst_conv)
  from auto_source_served [OF nc P] show ?thesis by simp
qed

text \<open>
  Silence counts as recovery: when no target has a selector, metrics-server is not read at
  all, and a composite that is not cooling down nevertheless takes that for an available
  primary and leaves the fallback.
\<close>

theorem auto_silence_is_recovery:
  "switched (fst (snd (auto_source_Samples env (map (\<lambda>t. t\<lparr>TSelector := []\<rparr>) targets) (a, w)))) \<longleftrightarrow>
     cooling (te_retry_clock env) a"
proof -
  have "reads (te_pod_metrics env) (map (\<lambda>t. t\<lparr>TSelector := []\<rparr>) targets) = []"
    by (simp add: reads_def filter_map comp_def)
  then have "snd (fst (metricsServer_Samples env (map (\<lambda>t. t\<lparr>TSelector := []\<rparr>) targets) (primary a, w))) = None"
    using metricsServer_cases [of env "map (\<lambda>t. t\<lparr>TSelector := []\<rparr>) targets" "primary a" w] by (simp add: Let_def)
  with auto_transition [of env "map (\<lambda>t. t\<lparr>TSelector := []\<rparr>) targets" a w] show ?thesis
    by (auto simp: Let_def split: if_splits)
qed

section \<open>Concrete instances\<close>

text \<open>A tick at the given clock reading: metrics-server answers every selector with \<open>reply\<close>, the
  collector refuses connections.\<close>

definition example_tick :: "int64 \<Rightarrow> pod_metrics_reply \<Rightarrow> tick_env" where
  "example_tick now reply = \<lparr>te_pod_metrics = (\<lambda>ns sel. reply),
     te_scrape = \<lparr>env_new_request = (\<lambda>_. None), env_send = (\<lambda>_. Inl (PlainError ''connection refused'')),
       env_quote = (\<lambda>u. u), env_decoder = (\<lambda>_ _. ([], None)), env_text_format = ''text/plain; version=0.0.4'', env_memory_limit = - 1\<rparr>,
     te_rater_clock = 0, te_scrape_seconds = Fin 0, te_retry_clock = now, te_switch_clock = now\<rparr>"

definition switched_auto :: "int64 \<Rightarrow> program_auto" where
  "switched_auto since = \<lparr>primary = newMetricsServerSource, fallback = example_source, switched = True, switchedAt = since\<rparr>"

lemma cooldown_leaves_primary_witness:
  "switched (fst (fold auto_step [(example_tick 400000000000 (7, 9, True, None), first_targets),
      (example_tick 499999999999 (7, 9, True, None), first_targets)] (switched_auto 200000000000, empty_world)))"
  using cooldown_leaves_primary [of "switched_auto 200000000000"
      "[(example_tick 400000000000 (7, 9, True, None), first_targets), (example_tick 499999999999 (7, 9, True, None), first_targets)]"
      empty_world]
  by (simp add: switched_auto_def in_cooldown_def example_tick_def)

lemma auto_recovers_witness:
  "\<not> switched (fst (snd (auto_source_Samples (example_tick 500000000000 (7, 9, True, None)) first_targets
      (switched_auto 200000000000, empty_world))))"
  using auto_recovers [of "switched_auto 200000000000" "example_tick 500000000000 (7, 9, True, None)" first_targets empty_world]
  by (simp add: switched_auto_def example_tick_def reads_def first_targets_def answered_read_def api_missing_def)

end
