(* ===== verification/GoUrl.thy ===== *)
theory GoUrl
  imports GoStrings
begin

text \<open>
  \<open>net/url\<close> as far as the URL rules use it: \<open>url.Parse\<close> and \<open>URL.Hostname\<close> of Go 1.23, the
  toolchain of the image. Of the parsed URL the model keeps whether \<open>User\<close> is set, the scheme
  and the host. \<open>None\<close> is an error; no caller reads its text.
\<close>

section \<open>Splitting strings\<close>

text \<open>\<open>strings.Cut\<close> at the first occurrence of a byte, \<open>strings.LastIndex\<close> as a split.\<close>

definition cut :: "char \<Rightarrow> string \<Rightarrow> string \<times> string" where
  "cut c s = (takeWhile (\<lambda>x. x \<noteq> c) s, drop 1 (dropWhile (\<lambda>x. x \<noteq> c) s))"

definition rcut :: "char \<Rightarrow> string \<Rightarrow> (string \<times> string) option" where
  "rcut c s =
     (if c \<in> set s then Some (rev (drop 1 (dropWhile (\<lambda>x. x \<noteq> c) (rev s))), rev (takeWhile (\<lambda>x. x \<noteq> c) (rev s)))
      else None)"

text \<open>The split of a bracketed host before its first \<open>%25\<close>.\<close>

fun split_zone :: "string \<Rightarrow> (string \<times> string) option" where
  "split_zone [] = None"
| "split_zone (c # cs) =
     (if take 3 (c # cs) = ''%25'' then Some ([], c # cs)
      else case split_zone cs of None \<Rightarrow> None | Some (a, z) \<Rightarrow> Some (c # a, z))"

lemma rcut_None [simp]: "rcut c s = None \<longleftrightarrow> c \<notin> set s"
  by (simp add: rcut_def)

section \<open>Character classes\<close>

definition IsLetter :: "char \<Rightarrow> bool" where
  "IsLetter c \<longleftrightarrow> (65 \<le> byte c \<and> byte c \<le> 90) \<or> (97 \<le> byte c \<and> byte c \<le> 122)"

definition lower_char :: "char \<Rightarrow> char" where
  "lower_char c = (if 65 \<le> byte c \<and> byte c \<le> 90 then char_of (byte c + 32) else c)"

definition ishex :: "char \<Rightarrow> bool" where
  "ishex c \<longleftrightarrow> IsDigit c \<or> (97 \<le> byte c \<and> byte c \<le> 102) \<or> (65 \<le> byte c \<and> byte c \<le> 70)"

definition unhex :: "char \<Rightarrow> nat" where
  "unhex c = (if IsDigit c then byte c - 48 else if 97 \<le> byte c then byte c - 87 else byte c - 55)"

definition is_control :: "char \<Rightarrow> bool" where
  "is_control c \<longleftrightarrow> byte c < 32 \<or> byte c = 127"

text \<open>\<open>shouldEscape\<close> in the two host modes.\<close>

definition host_escape :: "char \<Rightarrow> bool" where
  "host_escape c \<longleftrightarrow> \<not> (IsLetter c \<or> IsDigit c \<or> c \<in> set ''!$&()*+,;=:[]<>-_.~'' \<or> byte c = 34 \<or> byte c = 39)"

definition userinfo_char :: "char \<Rightarrow> bool" where
  "userinfo_char c \<longleftrightarrow> IsLetter c \<or> IsDigit c \<or> c \<in> set ''-._:~!$&()*+,;=%@'' \<or> byte c = 39"

section \<open>Unescaping\<close>

datatype escape_mode = EscapePlain | EscapeHost | EscapeZone

fun unescape :: "escape_mode \<Rightarrow> string \<Rightarrow> string option" where
  "unescape m [] = Some []"
| "unescape m (c # cs) =
     (if c = CHR ''%'' then
        (case cs of
           a # b # rest \<Rightarrow>
             if \<not> (ishex a \<and> ishex b) then None
             else if m = EscapeHost \<and> unhex a < 8 \<and> [a, b] \<noteq> ''25'' then None
             else let v = char_of (16 * unhex a + unhex b) :: char in
               if m = EscapeZone \<and> [a, b] \<noteq> ''25'' \<and> v \<noteq> CHR '' '' \<and> host_escape v then None
               else map_option ((#) v) (unescape m rest)
         | _ \<Rightarrow> None)
      else if m \<noteq> EscapePlain \<and> byte c < 128 \<and> host_escape c then None
      else map_option ((#) c) (unescape m cs))"

section \<open>Parsing\<close>

text \<open>\<open>getScheme\<close>: \<open>None\<close> for a missing scheme before a colon, otherwise scheme and rest.\<close>

fun scheme_loop :: "string \<Rightarrow> string \<Rightarrow> string \<Rightarrow> (string \<times> string) option" where
  "scheme_loop raw seen [] = Some ([], raw)"
| "scheme_loop raw seen (c # cs) =
     (if IsLetter c then scheme_loop raw (seen @ [c]) cs
      else if IsDigit c \<or> c \<in> set ''+-.'' then
        (if seen = [] then Some ([], raw) else scheme_loop raw (seen @ [c]) cs)
      else if c = CHR '':'' then (if seen = [] then None else Some (seen, cs))
      else Some ([], raw))"

definition validOptionalPort :: "string \<Rightarrow> bool" where
  "validOptionalPort port \<longleftrightarrow> port = [] \<or> (hd port = CHR '':'' \<and> list_all IsDigit (tl port))"

definition parseHost :: "string \<Rightarrow> string option" where
  "parseHost host =
     (if host \<noteq> [] \<and> hd host = CHR ''['' then
        (case rcut (CHR '']'') host of
           None \<Rightarrow> None
         | Some (inside, colonPort) \<Rightarrow>
             if \<not> validOptionalPort colonPort then None
             else case split_zone inside of
               None \<Rightarrow> unescape EscapeHost host
             | Some (h, zone) \<Rightarrow>
                 (case (unescape EscapeHost h, unescape EscapeZone zone, unescape EscapeHost (CHR '']'' # colonPort)) of
                    (Some h1, Some h2, Some h3) \<Rightarrow> Some (h1 @ h2 @ h3)
                  | _ \<Rightarrow> None))
      else case rcut (CHR '':'') host of
        None \<Rightarrow> unescape EscapeHost host
      | Some (_, port) \<Rightarrow> if validOptionalPort (CHR '':'' # port) then unescape EscapeHost host else None)"

text \<open>User information as \<open>parseAuthority\<close> accepts it: valid characters, name and password unescapable.\<close>

definition userinfo_ok :: "string \<Rightarrow> bool" where
  "userinfo_ok ui \<longleftrightarrow> list_all userinfo_char ui \<and>
     unescape EscapePlain (fst (cut (CHR '':'') ui)) \<noteq> None \<and> unescape EscapePlain (snd (cut (CHR '':'') ui)) \<noteq> None"

definition parseAuthority :: "string \<Rightarrow> (bool \<times> string) option" where
  "parseAuthority authority =
     (case rcut (CHR ''@'') authority of
        None \<Rightarrow> map_option (Pair False) (parseHost authority)
      | Some (ui, h) \<Rightarrow>
          (case parseHost h of
             None \<Rightarrow> None
           | Some host \<Rightarrow> if userinfo_ok ui then Some (True, host) else None))"

record url_parts =
  u_user :: bool
  u_scheme :: string
  u_host :: string

text \<open>After the scheme, without query: the opaque, relative and hierarchical forms.\<close>

definition parse_rest :: "string \<Rightarrow> string \<Rightarrow> url_parts option" where
  "parse_rest scheme rest =
     (let opaque = \<lparr>u_user = False, u_scheme = scheme, u_host = []\<rparr> in
      if take 1 rest \<noteq> ''/'' \<and> scheme \<noteq> [] then Some opaque
      else if take 1 rest \<noteq> ''/'' \<and> CHR '':'' \<in> set (fst (cut (CHR ''/'') rest)) then None
      else if (scheme \<noteq> [] \<or> take 3 rest \<noteq> ''///'') \<and> take 2 rest = ''//'' then
        (case parseAuthority (takeWhile (\<lambda>c. c \<noteq> CHR ''/'') (drop 2 rest)) of
           None \<Rightarrow> None
         | Some (user, host) \<Rightarrow>
             if unescape EscapePlain (dropWhile (\<lambda>c. c \<noteq> CHR ''/'') (drop 2 rest)) = None then None
             else Some \<lparr>u_user = user, u_scheme = scheme, u_host = host\<rparr>)
      else if unescape EscapePlain rest = None then None
      else Some opaque)"

text \<open>\<open>parse\<close> for a URL without fragment; cutting at the first question mark leaves the same rest
  in both of its branches.\<close>

definition parse_url :: "string \<Rightarrow> url_parts option" where
  "parse_url u =
     (if list_ex is_control u then None
      else if u = ''*'' then Some \<lparr>u_user = False, u_scheme = [], u_host = []\<rparr>
      else case scheme_loop u [] u of
        None \<Rightarrow> None
      | Some (scheme, rest) \<Rightarrow> parse_rest (map lower_char scheme) (fst (cut (CHR ''?'') rest)))"

definition url_Parse :: "string \<Rightarrow> url_parts option" where
  "url_Parse raw =
     (let (u, frag) = cut (CHR ''#'') raw in
      case parse_url u of
        None \<Rightarrow> None
      | Some url \<Rightarrow> if unescape EscapePlain frag = None then None else Some url)"

definition Hostname :: "url_parts \<Rightarrow> string" where
  "Hostname url =
     (let host = u_host url;
          host = (case rcut (CHR '':'') host of
            None \<Rightarrow> host
          | Some (h, port) \<Rightarrow> if validOptionalPort (CHR '':'' # port) then h else host)
      in if take 1 host = ''['' \<and> HasSuffix host '']'' then drop 1 (butlast host) else host)"

section \<open>The shape of a parsed URL\<close>

lemma scheme_loop_split:
  "scheme_loop raw seen s = Some (scheme, rest) \<Longrightarrow> scheme \<noteq> [] \<Longrightarrow>
     seen @ s = scheme @ CHR '':'' # rest"
  by (induction raw seen s rule: scheme_loop.induct) (auto split: if_splits)

lemma dropWhile_hd: "dropWhile (\<lambda>x. x \<noteq> c) s = [] \<or> hd (dropWhile (\<lambda>x. x \<noteq> c) s) = c"
  by (induction s) auto

lemma hd_append_cases: "a = [] \<or> hd a = x \<Longrightarrow> b = [] \<or> hd b = y \<Longrightarrow> a @ b = [] \<or> hd (a @ b) \<in> {x, y}"
  by (cases a) auto

lemma takeWhile_avoids: "c \<notin> set (takeWhile (\<lambda>x. x \<noteq> c) s)"
  by (auto dest: set_takeWhileD)

lemma parse_rest_host:
  assumes "parse_rest scheme rest = Some url" "u_host url \<noteq> []"
  shows "take 2 rest = ''//'' \<and> u_scheme url = scheme \<and>
    (u_user url \<longleftrightarrow> CHR ''@'' \<in> set (takeWhile (\<lambda>c. c \<noteq> CHR ''/'') (drop 2 rest))) \<and>
    takeWhile (\<lambda>c. c \<noteq> CHR ''/'') (drop 2 rest) \<noteq> []"
proof -
  let ?a = "takeWhile (\<lambda>c. c \<noteq> CHR ''/'') (drop 2 rest)"
  from assms obtain user host where a: "take 2 rest = ''//''" "parseAuthority ?a = Some (user, host)"
      "url = \<lparr>u_user = user, u_scheme = scheme, u_host = host\<rparr>"
    by (auto simp: parse_rest_def Let_def split: if_splits option.splits)
  from a(2) have "user \<longleftrightarrow> CHR ''@'' \<in> set ?a"
    by (auto simp: parseAuthority_def rcut_def split: if_splits option.splits)
  moreover have "?a \<noteq> []"
    using a(2,3) assms(2) by (auto simp: parseAuthority_def parseHost_def rcut_def)
  ultimately show ?thesis using a by simp
qed

lemma parse_url_host:
  assumes "parse_url u = Some url" "u_host url \<noteq> []" "u_scheme url \<noteq> []"
  obtains scheme authority rest where "u = scheme @ ''://'' @ authority @ rest"
    "u_scheme url = map lower_char scheme" "set authority \<inter> {CHR ''/'', CHR ''?''} = {}"
    "rest = [] \<or> hd rest \<in> {CHR ''/'', CHR ''?''}" "u_user url \<longleftrightarrow> CHR ''@'' \<in> set authority" "authority \<noteq> []"
proof -
  from assms obtain scheme q where s: "scheme_loop u [] u = Some (scheme, q)"
      "parse_rest (map lower_char scheme) (takeWhile (\<lambda>x. x \<noteq> CHR ''?'') q) = Some url"
    by (auto simp: parse_url_def cut_def split: if_splits option.splits)
  let ?p = "takeWhile (\<lambda>x. x \<noteq> CHR ''?'') q"
  from parse_rest_host [OF s(2) assms(2)] have p: "take 2 ?p = ''//''" "u_scheme url = map lower_char scheme"
      "u_user url \<longleftrightarrow> CHR ''@'' \<in> set (takeWhile (\<lambda>c. c \<noteq> CHR ''/'') (drop 2 ?p))"
      "takeWhile (\<lambda>c. c \<noteq> CHR ''/'') (drop 2 ?p) \<noteq> []" by auto
  define authority where "authority = takeWhile (\<lambda>c. c \<noteq> CHR ''/'') (drop 2 ?p)"
  define rest where "rest = dropWhile (\<lambda>c. c \<noteq> CHR ''/'') (drop 2 ?p) @ dropWhile (\<lambda>x. x \<noteq> CHR ''?'') q"
  have "?p = ''//'' @ drop 2 ?p" using p(1) by (metis append_take_drop_id)
  then have "?p = ''//'' @ authority @ dropWhile (\<lambda>c. c \<noteq> CHR ''/'') (drop 2 ?p)"
    unfolding authority_def by simp
  then have q: "q = ''//'' @ authority @ rest"
    unfolding rest_def by (metis append.assoc takeWhile_dropWhile_id)
  have "scheme \<noteq> []" using p(2) assms(3) by auto
  from scheme_loop_split [OF s(1) this] q have u: "u = scheme @ ''://'' @ authority @ rest" by simp
  have "CHR ''/'' \<notin> set authority" unfolding authority_def by (rule takeWhile_avoids)
  moreover have "CHR ''?'' \<notin> set authority"
    unfolding authority_def using takeWhile_avoids [of "CHR ''?''" q] by (meson in_set_dropD set_takeWhileD)
  ultimately have no: "set authority \<inter> {CHR ''/'', CHR ''?''} = {}" by simp
  have "rest = [] \<or> hd rest \<in> {CHR ''/'', CHR ''?''}"
    unfolding rest_def by (rule hd_append_cases) (rule dropWhile_hd)+
  with u p(2-4) no that show ?thesis unfolding authority_def [symmetric] by blast
qed

text \<open>A URL that parses with a host and a scheme reads \<open>scheme://authority\<close> followed by a path, a
  query or a fragment; \<open>User\<close> is set exactly when the authority contains an at sign.\<close>

lemma url_Parse_host:
  assumes "url_Parse raw = Some url" "u_host url \<noteq> []" "u_scheme url \<noteq> []"
  obtains scheme authority rest where "raw = scheme @ ''://'' @ authority @ rest"
    "u_scheme url = map lower_char scheme" "set authority \<inter> {CHR ''/'', CHR ''?'', CHR ''#''} = {}"
    "rest = [] \<or> hd rest \<in> {CHR ''/'', CHR ''?'', CHR ''#''}" "u_user url \<longleftrightarrow> CHR ''@'' \<in> set authority" "authority \<noteq> []"
proof -
  let ?u = "takeWhile (\<lambda>x. x \<noteq> CHR ''#'') raw"
  from assms(1) have "parse_url ?u = Some url"
    by (auto simp: url_Parse_def cut_def split: if_splits option.splits)
  from parse_url_host [OF this assms(2,3)] obtain scheme authority rest where
    r: "?u = scheme @ ''://'' @ authority @ rest" "u_scheme url = map lower_char scheme"
      "set authority \<inter> {CHR ''/'', CHR ''?''} = {}" "rest = [] \<or> hd rest \<in> {CHR ''/'', CHR ''?''}"
      "u_user url \<longleftrightarrow> CHR ''@'' \<in> set authority" "authority \<noteq> []" by metis
  let ?tail = "dropWhile (\<lambda>x. x \<noteq> CHR ''#'') raw"
  have "raw = ?u @ ?tail" by simp
  then have raw: "raw = scheme @ ''://'' @ authority @ (rest @ ?tail)"
    unfolding r(1) by simp
  have "CHR ''#'' \<notin> set ?u" by (auto dest: set_takeWhileD)
  then have "CHR ''#'' \<notin> set authority" unfolding r(1) by simp
  moreover have "rest @ ?tail = [] \<or> hd (rest @ ?tail) \<in> {CHR ''/'', CHR ''?'', CHR ''#''}"
    using r(4) dropWhile_hd [of "CHR ''#''" raw] by (cases rest) auto
  ultimately show ?thesis using that [OF raw r(2) _ _ r(5,6)] r(3) by blast
qed

lemma Hostname_host: "Hostname url \<noteq> [] \<Longrightarrow> u_host url \<noteq> []"
  by (auto simp: Hostname_def rcut_def Let_def split: if_splits)

section \<open>Plain endpoints parse\<close>

definition host_char :: "char \<Rightarrow> bool" where
  "host_char c \<longleftrightarrow> IsLetter c \<or> IsDigit c \<or> c = CHR ''-'' \<or> c = CHR ''.''"

definition path_char :: "char \<Rightarrow> bool" where
  "path_char c \<longleftrightarrow> \<not> is_control c \<and> c \<notin> set ''%?#''"

text \<open>What a plain endpoint consists of: a host name or IPv4 address, an optional port, a path
  without escapes.\<close>

definition plain_endpoint :: "string \<Rightarrow> string \<Rightarrow> string \<Rightarrow> bool" where
  "plain_endpoint host port path \<longleftrightarrow> host \<noteq> [] \<and> list_all host_char host \<and> validOptionalPort port \<and>
     take 1 path \<in> {[], ''/''} \<and> list_all path_char path"

lemma host_char_facts:
  assumes "host_char c"
  shows "path_char c" "\<not> host_escape c" "c \<noteq> CHR ''/''" "c \<noteq> CHR ''@''" "c \<noteq> CHR '':''" "c \<noteq> CHR ''[''" "c \<noteq> CHR ''%''"
  using assms by (auto simp: host_char_def path_char_def is_control_def host_escape_def IsLetter_def IsDigit_def)

lemma port_char_facts:
  assumes "validOptionalPort port" "c \<in> set port"
  shows "path_char c" "\<not> host_escape c" "c \<noteq> CHR ''/''" "c \<noteq> CHR ''@''" "c \<noteq> CHR ''%''"
proof -
  from assms have "c = CHR '':'' \<or> IsDigit c"
    by (cases port) (auto simp: validOptionalPort_def list_all_iff)
  then show "path_char c" "\<not> host_escape c" "c \<noteq> CHR ''/''" "c \<noteq> CHR ''@''" "c \<noteq> CHR ''%''"
    by (auto simp: path_char_def is_control_def host_escape_def IsDigit_def)
qed

lemma unescape_verbatim:
  "(\<And>c. c \<in> set s \<Longrightarrow> c \<noteq> CHR ''%'') \<Longrightarrow> (m \<noteq> EscapePlain \<Longrightarrow> \<forall>c \<in> set s. \<not> host_escape c) \<Longrightarrow> unescape m s = Some s"
  by (induction s) auto

lemma rcut_port:
  assumes "CHR '':'' \<notin> set host" "validOptionalPort port"
  shows "rcut (CHR '':'') (host @ port) = (if port = [] then None else Some (host, tl port))"
proof (cases port)
  case (Cons c ds)
  with assms(2) have p: "port = CHR '':'' # ds" and d: "\<forall>c \<in> set ds. c \<noteq> CHR '':''"
    by (auto simp: validOptionalPort_def list_all_iff IsDigit_def)
  then have "takeWhile (\<lambda>x. x \<noteq> CHR '':'') (rev ds @ CHR '':'' # rev host) = rev ds"
    "dropWhile (\<lambda>x. x \<noteq> CHR '':'') (rev ds @ CHR '':'' # rev host) = CHR '':'' # rev host"
    by (simp_all add: takeWhile_append dropWhile_append)
  with p show ?thesis by (simp add: rcut_def)
qed (use assms in \<open>simp add: rcut_def\<close>)

lemma parseHost_plain:
  assumes "plain_endpoint host port path"
  shows "parseHost (host @ port) = Some (host @ port)"
proof -
  have h: "\<forall>c \<in> set host. host_char c" "host \<noteq> []" and p: "validOptionalPort port"
    using assms by (auto simp: plain_endpoint_def list_all_iff)
  have u: "unescape EscapeHost (host @ port) = Some (host @ port)"
    using h(1) host_char_facts(2,7) port_char_facts(2,5) [OF p]
    by (intro unescape_verbatim) (metis UnE set_append)+
  have "hd (host @ port) \<noteq> CHR ''[''" using h host_char_facts(6) [of "hd host"] by simp
  moreover have "CHR '':'' \<notin> set host" using h(1) host_char_facts(5) by auto
  ultimately show ?thesis
    using rcut_port [of host port] p u by (auto simp: parseHost_def validOptionalPort_def)
qed

lemma scheme_loop_letters:
  "list_all IsLetter sch \<Longrightarrow> seen @ sch \<noteq> [] \<Longrightarrow> scheme_loop raw seen (sch @ CHR '':'' # rest) = Some (seen @ sch, rest)"
proof (induction sch arbitrary: seen)
  case Nil
  then show ?case by (simp add: IsLetter_def IsDigit_def)
qed simp

lemma plain_endpoint_parses:
  assumes e: "plain_endpoint host port path" and s: "scheme = ''http'' \<or> scheme = ''https''"
  shows "url_Parse (scheme @ ''://'' @ host @ port @ path) = Some \<lparr>u_user = False, u_scheme = scheme, u_host = host @ port\<rparr>"
    and "Hostname \<lparr>u_user = False, u_scheme = scheme, u_host = host @ port\<rparr> = host"
proof -
  let ?raw = "scheme @ ''://'' @ host @ port @ path"
  have h: "\<forall>c \<in> set host. host_char c" "host \<noteq> []" and p: "validOptionalPort port"
    and path: "path = [] \<or> hd path = CHR ''/''" "\<forall>c \<in> set path. path_char c"
    using e unfolding plain_endpoint_def list_all_iff by (simp_all, cases path) simp_all
  have sch: "list_all IsLetter scheme" "\<forall>c \<in> set scheme. path_char c" "map lower_char scheme = scheme" "scheme \<noteq> []"
    using s by (auto simp: IsLetter_def path_char_def is_control_def lower_char_def)
  have all: "\<forall>c \<in> set ?raw. path_char c"
  proof -
    have "path_char (CHR '':'')" "path_char (CHR ''/'')" by (simp_all add: path_char_def is_control_def)
    then show ?thesis using h(1) host_char_facts(1) port_char_facts(1) [OF p] path(2) sch(2) by simp blast
  qed
  then have no: "\<not> list_ex is_control ?raw" "takeWhile (\<lambda>c. c \<noteq> CHR ''#'') ?raw = ?raw" "dropWhile (\<lambda>c. c \<noteq> CHR ''#'') ?raw = []"
    by (auto simp: path_char_def list_ex_iff takeWhile_eq_all_conv dropWhile_eq_Nil_conv)
  let ?rest = "''//'' @ host @ port @ path"
  have loop: "scheme_loop ?raw [] ?raw = Some (scheme, ?rest)"
    using scheme_loop_letters [of scheme "[]" ?raw ?rest] sch(1,4) by simp
  have q: "fst (cut (CHR ''?'') ?rest) = ?rest"
    using all by (auto simp: path_char_def cut_def takeWhile_eq_all_conv)
  have auth: "takeWhile (\<lambda>c. c \<noteq> CHR ''/'') (host @ port @ path) = host @ port"
    "dropWhile (\<lambda>c. c \<noteq> CHR ''/'') (host @ port @ path) = path"
  proof -
    have "\<forall>c \<in> set (host @ port). c \<noteq> CHR ''/''"
      using h(1) host_char_facts(3) port_char_facts(3) [OF p] by (metis UnE set_append)
    then have t: "takeWhile (\<lambda>c. c \<noteq> CHR ''/'') ((host @ port) @ path) = (host @ port) @ takeWhile (\<lambda>c. c \<noteq> CHR ''/'') path"
      "dropWhile (\<lambda>c. c \<noteq> CHR ''/'') ((host @ port) @ path) = dropWhile (\<lambda>c. c \<noteq> CHR ''/'') path"
      by (subst takeWhile_append2 dropWhile_append2; blast)+
    have "takeWhile (\<lambda>c. c \<noteq> CHR ''/'') path = []" "dropWhile (\<lambda>c. c \<noteq> CHR ''/'') path = path"
      using path(1) by (cases path; simp)+
    with t show "takeWhile (\<lambda>c. c \<noteq> CHR ''/'') (host @ port @ path) = host @ port"
      "dropWhile (\<lambda>c. c \<noteq> CHR ''/'') (host @ port @ path) = path" by simp_all
  qed
  have "CHR ''@'' \<notin> set (host @ port)"
    using h(1) host_char_facts(4) port_char_facts(4) [OF p] by (metis UnE set_append)
  then have pa: "parseAuthority (host @ port) = Some (False, host @ port)"
    by (simp add: parseAuthority_def rcut_def parseHost_plain [OF e])
  have "unescape EscapePlain path = Some path"
    using path(2) by (intro unescape_verbatim) (auto simp: path_char_def)
  then have pr: "parse_rest scheme ?rest = Some \<lparr>u_user = False, u_scheme = scheme, u_host = host @ port\<rparr>"
    using sch(4) by (simp add: parse_rest_def Let_def auth pa)
  show "url_Parse ?raw = Some \<lparr>u_user = False, u_scheme = scheme, u_host = host @ port\<rparr>"
  proof -
    have c: "cut (CHR ''#'') ?raw = (?raw, [])" unfolding cut_def no by simp
    have "length ?raw \<noteq> 1" by simp
    then have star: "?raw \<noteq> ''*''" by (metis One_nat_def length_Cons list.size(3))
    have "parse_url ?raw = Some \<lparr>u_user = False, u_scheme = scheme, u_host = host @ port\<rparr>"
      unfolding parse_url_def if_not_P [OF no(1)] if_not_P [OF star] loop option.case prod.case q sch(3) by (rule pr)
    then show ?thesis unfolding url_Parse_def c Let_def prod.case by simp
  qed
  have c: "CHR '':'' \<notin> set host" and b: "hd host \<noteq> CHR ''[''"
    using h host_char_facts(5) host_char_facts(6) [of "hd host"] by auto
  from b h(2) have t: "take 1 host \<noteq> ''[''" by (cases host) auto
  show "Hostname \<lparr>u_user = False, u_scheme = scheme, u_host = host @ port\<rparr> = host"
  proof -
    have "(case rcut (CHR '':'') (host @ port) of None \<Rightarrow> host @ port
        | Some (h, q) \<Rightarrow> if validOptionalPort (CHR '':'' # q) then h else host @ port) = host"
      unfolding rcut_port [OF c p] using p by (cases port) (simp_all add: validOptionalPort_def)
    then show ?thesis using t unfolding Hostname_def by (simp add: Let_def)
  qed
qed

end
