(* ===== verification/SourceFactory.thy ===== *)
theory SourceFactory
  imports AutoSource GoUrl
begin

text \<open>
  \<open>NewMetricSource\<close> and the URL rules of \<open>internal/agent/source.go\<close>, and \<open>ValidateAPIURL\<close> of
  \<open>reporter.go\<close>, over the model of \<open>net/url\<close> in \<open>GoUrl\<close>. A source of the program is one of
  four variants.
\<close>

section \<open>URL rules\<close>

definition validateURL :: "string \<Rightarrow> string option" where
  "validateURL raw =
     (case url_Parse raw of
        None \<Rightarrow> Some ''not a valid URL''
      | Some parsed \<Rightarrow>
          if u_user parsed then
            Some ''carries credentials, which are unsupported and would be stored in a ConfigMap in clear text''
          else if u_scheme parsed \<noteq> ''http'' \<and> u_scheme parsed \<noteq> ''https'' then
            Some ''needs an http:// or https:// scheme''
          else if Hostname parsed = [] then Some ''needs a host''
          else None)"

definition ValidateScrapeURL :: "string \<Rightarrow> string option" where
  "ValidateScrapeURL raw =
     map_option (\<lambda>e. e @ ''; set ZENSU_MONITORING_AGENT_SCRAPE_URL to a plain http(s) endpoint'') (validateURL raw)"

definition ValidateAPIURL :: "string \<Rightarrow> string option" where
  "ValidateAPIURL raw = map_option (\<lambda>e. ''ZENSU_API_URL: '' @ e) (validateURL raw)"

definition usable_url :: "string \<Rightarrow> bool" where
  "usable_url raw \<longleftrightarrow> (case url_Parse raw of None \<Rightarrow> False
     | Some p \<Rightarrow> \<not> u_user p \<and> u_scheme p \<in> {''http'', ''https''} \<and> Hostname p \<noteq> [])"

lemma validateURL_None: "validateURL raw = None \<longleftrightarrow> usable_url raw"
  by (auto simp: validateURL_def usable_url_def split: option.splits)

text \<open>
  The URL rules accept exactly the credential-free http and https URLs with a host, for the
  scrape URL and the API URL alike, and a refusal never depends on more of the configured value
  than which rule it breaks: two refused values that break the same rule give the same text, so
  no part of a credential reaches a log.
\<close>

theorem url_rules:
  "(ValidateScrapeURL raw = None \<longleftrightarrow> usable_url raw) \<and>
   (ValidateAPIURL raw = None \<longleftrightarrow> usable_url raw) \<and>
   validateURL raw \<in> {None, Some ''not a valid URL'',
     Some ''carries credentials, which are unsupported and would be stored in a ConfigMap in clear text'',
     Some ''needs an http:// or https:// scheme'', Some ''needs a host''}"
proof (intro conjI)
  show "validateURL raw \<in> {None, Some ''not a valid URL'',
     Some ''carries credentials, which are unsupported and would be stored in a ConfigMap in clear text'',
     Some ''needs an http:// or https:// scheme'', Some ''needs a host''}"
    by (simp add: validateURL_def split: option.split)
qed (simp_all add: ValidateScrapeURL_def ValidateAPIURL_def validateURL_None)

text \<open>
  C15. An accepted URL carries no credential: it reads \<open>scheme://authority\<close> with the scheme http or
  https in some letter case and a nonempty authority without an at sign, up to the path, query
  or fragment, whatever escapes, colons and brackets the configured value uses to hide one.
\<close>

theorem accepted_url_has_no_credential:
  "case validateURL raw of
     None \<Rightarrow> (\<exists>scheme authority rest. raw = scheme @ ''://'' @ authority @ rest \<and>
       map lower_char scheme \<in> {''http'', ''https''} \<and> authority \<noteq> [] \<and>
       set authority \<inter> {CHR ''@'', CHR ''/'', CHR ''?'', CHR ''#''} = {} \<and>
       take 1 rest \<in> {[], ''/'', ''?'', ''#''})
   | Some reason \<Rightarrow> True"
proof (cases "validateURL raw")
  case None
  then obtain url where u: "url_Parse raw = Some url" "\<not> u_user url" "u_scheme url \<in> {''http'', ''https''}" "Hostname url \<noteq> []"
    by (auto simp: validateURL_None usable_url_def split: option.splits)
  then have "u_scheme url \<noteq> []" by auto
  from url_Parse_host [OF u(1) Hostname_host [OF u(4)] this] obtain scheme authority rest where
    r: "raw = scheme @ ''://'' @ authority @ rest" "u_scheme url = map lower_char scheme"
      "set authority \<inter> {CHR ''/'', CHR ''?'', CHR ''#''} = {}" "rest = [] \<or> hd rest \<in> {CHR ''/'', CHR ''?'', CHR ''#''}"
      "u_user url \<longleftrightarrow> CHR ''@'' \<in> set authority" "authority \<noteq> []" .
  have t: "take 1 rest \<in> {[], ''/'', ''?'', ''#''}" using r(4) by (cases rest) auto
  have m: "map lower_char scheme \<in> {''http'', ''https''}" using u(3) unfolding r(2) .
  have "CHR ''@'' \<notin> set authority" using r(5) u(2) by simp
  then have "set authority \<inter> {CHR ''@'', CHR ''/'', CHR ''?'', CHR ''#''} = {}" using r(3) by simp
  from r(1) m r(6) this t show ?thesis unfolding None option.case by (intro exI conjI)
qed simp

text \<open>
  Every plain endpoint is accepted: http or https, a host name or IPv4 address, an optional port
  and a path without escapes.
\<close>

theorem plain_endpoint_accepted:
  assumes "plain_endpoint host port path"
  shows "ValidateScrapeURL (''http://'' @ host @ port @ path) = None \<and>
    ValidateAPIURL (''https://'' @ host @ port @ path) = None"
proof -
  have "host \<noteq> []" using assms by (simp add: plain_endpoint_def)
  then have "usable_url (scheme @ ''://'' @ host @ port @ path)" if "scheme = ''http'' \<or> scheme = ''https''" for scheme
    using that plain_endpoint_parses [OF assms that] by (auto simp: usable_url_def)
  from this [of "''http''"] this [of "''https''"] show ?thesis
    by (simp add: ValidateScrapeURL_def ValidateAPIURL_def validateURL_None)
qed

lemma plain_endpoint_accepted_witness:
  "ValidateScrapeURL ''http://otel-collector.monitoring:8889/metrics'' = None"
  using plain_endpoint_accepted [of "''otel-collector.monitoring''" "'':8889''" "''/metrics''"]
  by (simp add: plain_endpoint_def host_char_def path_char_def is_control_def validOptionalPort_def IsLetter_def IsDigit_def)

section \<open>The sources of the program\<close>

datatype any_source =
    SrcNone
  | SrcMetricsServer metricsServerSource
  | SrcExposition expositionSource
  | SrcAuto program_auto

definition lift_source :: "('s \<Rightarrow> any_source) \<Rightarrow> 's samples_op \<Rightarrow> tick_env \<Rightarrow> ServiceTarget list \<Rightarrow> 's \<times> world \<Rightarrow>
    (samples \<times> agent_error option) \<times> (any_source \<times> world)" where
  "lift_source wrap op env targets sw = (let (r, (s, w)) = op env targets sw in (r, (wrap s, w)))"

definition source_Samples :: "any_source samples_op" where
  "source_Samples env targets sw = (case sw of (src, w) \<Rightarrow> (case src of
     SrcNone \<Rightarrow> lift_source (\<lambda>_. SrcNone) none_Samples env targets ((), w)
   | SrcMetricsServer s \<Rightarrow> lift_source SrcMetricsServer metricsServer_Samples env targets (s, w)
   | SrcExposition s \<Rightarrow> lift_source SrcExposition exposition_Samples env targets (s, w)
   | SrcAuto a \<Rightarrow> lift_source SrcAuto auto_source_Samples env targets (a, w)))"

definition source_Name :: "any_source \<Rightarrow> string" where
  "source_Name src = (case src of
     SrcNone \<Rightarrow> none_Name ()
   | SrcMetricsServer s \<Rightarrow> metricsServer_Name s
   | SrcExposition s \<Rightarrow> exposition_Name s
   | SrcAuto a \<Rightarrow> auto_source_Name a)"

lemma lift_source_eq: "lift_source wrap op env targets sw = (r, (s', w')) \<longleftrightarrow>
    (\<exists>s. op env targets sw = (r, (s, w')) \<and> s' = wrap s)"
  by (auto simp: lift_source_def split: prod.splits)

lemma source_Samples_cases:
  assumes "source_Samples env targets (src, w) = (r, (src', w'))"
  obtains s where "none_Samples env targets ((), w) = (r, (s, w'))"
  | s s' where "metricsServer_Samples env targets (s, w) = (r, (s', w'))"
  | s s' where "exposition_Samples env targets (s, w) = (r, (s', w'))"
  | s s' where "auto_source_Samples env targets (s, w) = (r, (s', w'))"
  using assms by (cases src) (auto simp: source_Samples_def lift_source_eq)

interpretation program_auto: metric_source auto_source_Samples auto_source_Name
  unfolding auto_source_Samples_def auto_source_Name_def ..

interpretation source: metric_source source_Samples source_Name
proof
  fix env targets st out err st'
  assume "source_Samples env targets st = ((out, err), st')"
  then show "good_map targets out"
    by (cases st, cases st', simp only:, elim source_Samples_cases)
      (rule none_source.samples_good metrics_server.samples_good exposition.samples_good program_auto.samples_good, assumption)+
next
  fix env targets st out e st'
  assume "source_Samples env targets st = ((out, Some e), st')"
  then show "out = fmempty"
    by (cases st, cases st', simp only:, elim source_Samples_cases)
      (rule none_source.error_empty metrics_server.error_empty exposition.error_empty program_auto.error_empty, assumption)+
next
  fix s show "source_Name s \<in> {SourceMetricsServer, SourceExposition, SourceNone}"
    using none_source.name_listed metrics_server.name_listed exposition.name_listed program_auto.name_listed
    by (cases s) (simp_all only: source_Name_def any_source.case)
next
  fix env targets s w r s' w'
  assume a: "source_Samples env targets (s, w) = (r, (s', w'))"
  from a show "log_extends w w'"
    by (elim source_Samples_cases)
      (rule none_source.log_grows metrics_server.log_grows exposition.log_grows program_auto.log_grows, assumption)+
  from a show "source_metrics (w_metrics w) (w_metrics w')"
    by (elim source_Samples_cases)
      (rule none_source.metrics_framed metrics_server.metrics_framed exposition.metrics_framed program_auto.metrics_framed, assumption)+
qed

text \<open>The scrapes a source makes in a tick.\<close>

definition source_scrapes :: "tick_env \<Rightarrow> ServiceTarget list \<Rightarrow> any_source \<Rightarrow> (bool \<times> f64) list" where
  "source_scrapes env targets src = (case src of
     SrcExposition s \<Rightarrow> exposition_scrapes env targets s
   | SrcAuto a \<Rightarrow> auto_scrapes env targets a
   | _ \<Rightarrow> [])"

interpretation program_auto: counting_source auto_source_Samples auto_source_Name auto_scrapes
  by unfold_locales (rule auto_counts)

interpretation source: counting_source source_Samples source_Name source_scrapes
proof
  fix env targets s w r s' w'
  assume "source_Samples env targets (s, w) = (r, (s', w'))"
  then show "scrape_counts (source_scrapes env targets s) (w_metrics w) (w_metrics w')"
    by (cases s) (auto simp: source_Samples_def lift_source_eq source_scrapes_def
      intro: none_source.scrapes_counted metrics_server.scrapes_counted exposition.scrapes_counted program_auto.scrapes_counted)
qed

section \<open>The factory\<close>

definition SourceAuto :: string where
  "SourceAuto = ''auto''"

record SourceConfig =
  Mode :: string
  XConfig :: ExpositionConfig

datatype config_error =
    NeedsScrapeURL string
  | BadScrapeURL string
  | UnknownSource string

definition NewMetricSource ::
    "int64 \<Rightarrow> SourceConfig \<Rightarrow> world \<Rightarrow> (config_error, any_source) result \<times> world" where
  "NewMetricSource runtime_limit cfg w =
     (let mode = Mode cfg; url = XURL (XConfig cfg) in
      if mode = SourceNone then (Inr SrcNone, w)
      else if mode = SourceMetricsServer then (Inr (SrcMetricsServer newMetricsServerSource), w)
      else if mode = SourceExposition then
        (if url = [] then (Inl (NeedsScrapeURL mode), w)
         else case ValidateScrapeURL url of
           Some e \<Rightarrow> (Inl (BadScrapeURL e), w)
         | None \<Rightarrow> (let (s, w) = newExpositionSource runtime_limit (XConfig cfg) w in (Inr (SrcExposition s), w)))
      else if mode = SourceAuto \<or> mode = [] then
        (if url = [] then (Inr (SrcMetricsServer newMetricsServerSource), w)
         else case ValidateScrapeURL url of
           Some e \<Rightarrow> (Inl (BadScrapeURL e), w)
         | None \<Rightarrow> (let (s, w) = newExpositionSource runtime_limit (XConfig cfg) w
             in (Inr (SrcAuto \<lparr>primary = newMetricsServerSource, fallback = s, switched = False, switchedAt = 0\<rparr>), w)))
      else (Inl (UnknownSource mode), w))"

lemma source_names_distinct [simp]:
  "SourceNone \<noteq> SourceMetricsServer" "SourceNone \<noteq> SourceExposition" "SourceMetricsServer \<noteq> SourceExposition"
  "SourceNone \<noteq> SourceAuto" "SourceMetricsServer \<noteq> SourceAuto" "SourceExposition \<noteq> SourceAuto"
  "SourceNone \<noteq> []" "SourceMetricsServer \<noteq> []" "SourceExposition \<noteq> []"
  "SourceAuto \<noteq> SourceNone" "SourceAuto \<noteq> SourceMetricsServer" "SourceAuto \<noteq> SourceExposition"
  "[] \<noteq> SourceNone" "[] \<noteq> SourceMetricsServer" "[] \<noteq> SourceExposition"
  "SourceMetricsServer \<noteq> SourceNone" "SourceExposition \<noteq> SourceNone" "SourceExposition \<noteq> SourceMetricsServer"
  by (simp_all add: source_name_defs SourceAuto_def)

text \<open>The configurations that can work, independent of the factory's order of checks.\<close>

definition workable :: "SourceConfig \<Rightarrow> bool" where
  "workable cfg \<longleftrightarrow>
     Mode cfg \<in> {SourceNone, SourceMetricsServer} \<or>
     Mode cfg = SourceExposition \<and> XURL (XConfig cfg) \<noteq> [] \<and> usable_url (XURL (XConfig cfg)) \<or>
     Mode cfg \<in> {SourceAuto, []} \<and> (XURL (XConfig cfg) = [] \<or> usable_url (XURL (XConfig cfg)))"

text \<open>
  The factory refuses exactly the configurations that could never work: an unknown mode, the
  exposition mode without a URL, and a URL the rules refuse in a mode that would scrape it (startup
  has refused such a URL before, in every mode). Every other configuration yields a source, and the source it yields reports one of the
  exported names: metrics-server in the modes that start on it, otherwise the configured mode.
\<close>

theorem NewMetricSource_accepts:
  "case fst (NewMetricSource rt cfg w) of
     Inl e \<Rightarrow> \<not> workable cfg
   | Inr src \<Rightarrow> workable cfg \<and>
       source_Name src = (if Mode cfg \<in> {SourceAuto, []} then SourceMetricsServer else Mode cfg)"
proof -
  have v: "ValidateScrapeURL raw = None \<longleftrightarrow> usable_url raw" for raw
    by (simp add: ValidateScrapeURL_def validateURL_None)
  have v': "ValidateScrapeURL raw = Some e \<Longrightarrow> \<not> usable_url raw" for raw e
    using v [of raw] by auto
  show ?thesis
    by (auto simp: NewMetricSource_def workable_def Let_def source_Name_def none_Name_def metricsServer_Name_def
        exposition_Name_def auto_source_Name_def auto_Name_def v
        dest: v' split: option.split prod.split)
qed

end
