(* ===== verification/Json.thy ===== *)
theory Json
  imports GoStrings
begin

text \<open>
  \<open>encoding/json\<close>: values, the text \<open>Marshal\<close> writes for them, and a reader of such texts. A
  number is the text of its digits. Strings are written as the encoder writes them with its
  default settings: the HTML characters and U+2028 and U+2029 escaped, control characters escaped,
  and one U+FFFD for each byte that is not UTF-8.
\<close>

section \<open>Values and strings\<close>

datatype json =
    JString string
  | JNumber string
  | JArray "json list"
  | JObject "(string \<times> json) list"

abbreviation quote_char :: char where "quote_char \<equiv> CHR 0x22"
abbreviation backslash :: char where "backslash \<equiv> CHR 0x5C"

definition hex_char :: "nat \<Rightarrow> char" where
  "hex_char n = (if n < 10 then char_of (48 + n) else char_of (87 + n))"

definition hex_value :: "char \<Rightarrow> nat option" where
  "hex_value c =
     (if 48 \<le> byte c \<and> byte c \<le> 57 then Some (byte c - 48)
      else if 97 \<le> byte c \<and> byte c \<le> 102 then Some (byte c - 87)
      else if 65 \<le> byte c \<and> byte c \<le> 70 then Some (byte c - 55) else None)"

definition escape_ascii :: "char \<Rightarrow> string" where
  "escape_ascii c =
     (if c = quote_char \<or> c = backslash then [backslash, c]
      else if byte c = 8 then [backslash, CHR ''b''] else if byte c = 12 then [backslash, CHR ''f'']
      else if byte c = 10 then [backslash, CHR ''n''] else if byte c = 13 then [backslash, CHR ''r'']
      else if byte c = 9 then [backslash, CHR ''t'']
      else if byte c < 32 \<or> c \<in> {CHR ''<'', CHR ''>'', CHR ''&''} then
        [backslash, CHR ''u'', CHR ''0'', CHR ''0'', hex_char (byte c div 16), hex_char (byte c mod 16)]
      else [c])"

function escape :: "string \<Rightarrow> string" where
  "escape s =
     (if s = [] then []
      else if byte (hd s) < 128 then escape_ascii (hd s) @ escape (tl s)
      else let (r, w) = DecodeRune s in
        (if r = RuneError \<and> w = 1 then [backslash, CHR ''u'', CHR ''f'', CHR ''f'', CHR ''f'', CHR ''d'']
         else if r = 8232 \<or> r = 8233 then [backslash, CHR ''u'', CHR ''2'', CHR ''0'', CHR ''2'', hex_char (r mod 16)]
         else take w s) @ escape (drop w s))"
  by pat_completeness auto
termination
proof (relation "measure length", goal_cases)
  case (3 s x r w)
  then show ?case using DecodeRune_width [of s] by (cases "DecodeRune s") auto
qed simp_all

function coerce_utf8 :: "string \<Rightarrow> string" where
  "coerce_utf8 s =
     (if s = [] then [] else let (r, w) = DecodeRune s
      in (if r = RuneError \<and> w = 1 then [CHR 0xEF, CHR 0xBF, CHR 0xBD] else take w s) @ coerce_utf8 (drop w s))"
  by pat_completeness auto
termination
proof (relation "measure length", goal_cases)
  case (2 s x r w)
  then show ?case using DecodeRune_width [of s] by (cases "DecodeRune s") auto
qed simp

declare escape.simps [simp del] coerce_utf8.simps [simp del]

lemma coerce_utf8_Nil [simp]: "coerce_utf8 [] = []"
  by (simp add: coerce_utf8.simps)

lemma coerce_utf8_empty [simp]: "coerce_utf8 s = [] \<longleftrightarrow> s = []"
  using DecodeRune_width [of s] by (subst coerce_utf8.simps) (auto simp: Let_def split: prod.split)

lemma coerce_utf8_ascii_Cons: "byte c < 128 \<Longrightarrow> coerce_utf8 (c # s) = c # coerce_utf8 s"
  by (subst coerce_utf8.simps) (simp add: RuneError_def)

lemma coerce_utf8_ascii: "list_all (\<lambda>c. byte c < 128) s \<Longrightarrow> coerce_utf8 s = s"
  by (induction s) (simp_all add: coerce_utf8_ascii_Cons)

section \<open>Text\<close>

definition quoted :: "string \<Rightarrow> string" where
  "quoted s = quote_char # escape s @ [quote_char]"

fun commas :: "string list \<Rightarrow> string" where
  "commas [] = []"
| "commas [x] = x"
| "commas (x # y # xs) = x @ CHR '','' # commas (y # xs)"

fun json_text :: "json \<Rightarrow> string" where
  "json_text (JString s) = quoted s"
| "json_text (JNumber t) = t"
| "json_text (JArray xs) = CHR ''['' # commas (map json_text xs) @ '']''"
| "json_text (JObject fs) = CHR ''{'' # commas (map (\<lambda>(k, v). quoted k @ CHR '':'' # json_text v) fs) @ ''}''"

section \<open>Reading\<close>

text \<open>UTF-8 of a rune below \<open>2^16\<close>; surrogates are refused.\<close>

definition EncodeRune :: "nat \<Rightarrow> string option" where
  "EncodeRune r =
     (if r < 128 then Some [char_of r]
      else if r < 2048 then Some [char_of (192 + r div 64), char_of (128 + r mod 64)]
      else if 55296 \<le> r \<and> r < 57344 then None
      else Some [char_of (224 + r div 4096), char_of (128 + r div 64 mod 64), char_of (128 + r mod 64)])"

definition simple_escape :: "char \<Rightarrow> char option" where
  "simple_escape c =
     (if c \<in> {quote_char, backslash, CHR ''/''} then Some c
      else if c = CHR ''b'' then Some (char_of (8 :: nat)) else if c = CHR ''f'' then Some (char_of (12 :: nat))
      else if c = CHR ''n'' then Some (char_of (10 :: nat)) else if c = CHR ''r'' then Some (char_of (13 :: nat))
      else if c = CHR ''t'' then Some (char_of (9 :: nat)) else None)"

definition hex4 :: "string \<Rightarrow> nat option" where
  "hex4 s = (case map hex_value s of
     [Some a, Some b, Some c, Some d] \<Rightarrow> Some (a * 4096 + b * 256 + c * 16 + d)
   | _ \<Rightarrow> None)"

definition prepend :: "string \<Rightarrow> (string \<times> string) option \<Rightarrow> (string \<times> string) option" where
  "prepend xs r = map_option (\<lambda>(t, rest). (xs @ t, rest)) r"

text \<open>The rest of a string literal after its opening quote, and what follows it.\<close>

function unquote :: "string \<Rightarrow> (string \<times> string) option" where
  "unquote s = (case s of
     [] \<Rightarrow> None
   | c # cs \<Rightarrow>
       if c = quote_char then Some ([], cs)
       else if c = backslash then
         (if take 1 cs = ''u'' then
            (case hex4 (take 4 (drop 1 cs)) of
               None \<Rightarrow> None
             | Some n \<Rightarrow> (case EncodeRune n of None \<Rightarrow> None | Some u \<Rightarrow> prepend u (unquote (drop 5 cs))))
          else if cs = [] then None
          else (case simple_escape (hd cs) of None \<Rightarrow> None | Some x \<Rightarrow> prepend [x] (unquote (tl cs))))
       else if byte c < 32 then None
       else prepend [c] (unquote cs))"
  by pat_completeness auto
termination
  by (relation "measure length") auto

declare unquote.simps [simp del]

definition number_char :: "char \<Rightarrow> bool" where
  "number_char c \<longleftrightarrow> IsDigit c \<or> c \<in> {CHR ''-'', CHR ''+'', CHR ''.'', CHR ''e'', CHR ''E''}"

fun parse_value :: "nat \<Rightarrow> string \<Rightarrow> (json \<times> string) option"
and parse_items :: "nat \<Rightarrow> string \<Rightarrow> (json list \<times> string) option"
and parse_members :: "nat \<Rightarrow> string \<Rightarrow> ((string \<times> json) list \<times> string) option" where
  "parse_value 0 s = None"
| "parse_value (Suc k) s = (case s of
     [] \<Rightarrow> None
   | c # cs \<Rightarrow>
       if c = quote_char then map_option (\<lambda>(t, r). (JString t, r)) (unquote cs)
       else if c = CHR ''['' then
         (if take 1 cs = '']'' then Some (JArray [], drop 1 cs)
          else map_option (\<lambda>(xs, r). (JArray xs, r)) (parse_items k cs))
       else if c = CHR ''{'' then
         (if take 1 cs = ''}'' then Some (JObject [], drop 1 cs)
          else map_option (\<lambda>(fs, r). (JObject fs, r)) (parse_members k cs))
       else if number_char c then Some (JNumber (takeWhile number_char s), dropWhile number_char s)
       else None)"
| "parse_items 0 s = None"
| "parse_items (Suc k) s = (case parse_value k s of
     None \<Rightarrow> None
   | Some (v, r) \<Rightarrow>
       if take 1 r = '','' then map_option (\<lambda>(vs, r). (v # vs, r)) (parse_items k (drop 1 r))
       else if take 1 r = '']'' then Some ([v], drop 1 r) else None)"
| "parse_members 0 s = None"
| "parse_members (Suc k) s =
     (if take 1 s \<noteq> [quote_char] then None
      else case unquote (drop 1 s) of
        None \<Rightarrow> None
      | Some (key, r) \<Rightarrow>
          if take 1 r \<noteq> '':'' then None
          else (case parse_value k (drop 1 r) of
            None \<Rightarrow> None
          | Some (v, r) \<Rightarrow>
              if take 1 r = '','' then map_option (\<lambda>(fs, r). ((key, v) # fs, r)) (parse_members k (drop 1 r))
              else if take 1 r = ''}'' then Some ([(key, v)], drop 1 r) else None))"

definition parse_json :: "string \<Rightarrow> json option" where
  "parse_json s = (case parse_value (length s) s of Some (j, []) \<Rightarrow> Some j | _ \<Rightarrow> None)"

section \<open>A string literal reads back\<close>

lemma prepend_simps [simp]: "prepend xs (Some (t, r)) = Some (xs @ t, r)" "prepend xs None = None"
  by (simp_all add: prepend_def)

lemma byte_char_of [simp]: "n < 256 \<Longrightarrow> byte (char_of n) = n"
  by (simp add: of_char_of)

lemma hex_value_char [simp]: "n < 16 \<Longrightarrow> hex_value (hex_char n) = Some n"
  by (simp add: hex_value_def hex_char_def)

lemma unquote_plain:
  "c \<noteq> quote_char \<Longrightarrow> c \<noteq> backslash \<Longrightarrow> 32 \<le> byte c \<Longrightarrow> unquote (c # s) = prepend [c] (unquote s)"
  by (subst unquote.simps) simp

lemma unquote_simple: "x \<noteq> CHR ''u'' \<Longrightarrow> simple_escape x = Some y \<Longrightarrow> unquote (backslash # x # s) = prepend [y] (unquote s)"
  by (subst unquote.simps) simp

lemma unquote_hex:
  "hex4 [a, b, c, d] = Some n \<Longrightarrow> EncodeRune n = Some u \<Longrightarrow>
   unquote (backslash # CHR ''u'' # a # b # c # d # s) = prepend u (unquote s)"
  by (subst unquote.simps) simp

lemma unquote_end: "unquote (quote_char # s) = Some ([], s)"
  by (subst unquote.simps) simp

lemma byte_eq_char: "byte c = n \<Longrightarrow> c = char_of n"
  by (metis char_of_char)

lemma unquote_escape_ascii:
  assumes "byte c < 128"
  shows "unquote (escape_ascii c @ s) = prepend [c] (unquote s)"
proof -
  consider "c = quote_char \<or> c = backslash" | "byte c \<in> {8, 12, 10, 13, 9}"
    | (hex) "c \<noteq> quote_char" "c \<noteq> backslash" "byte c \<notin> {8, 12, 10, 13, 9}" "byte c < 32 \<or> c \<in> {CHR ''<'', CHR ''>'', CHR ''&''}"
    | (plain) "c \<noteq> quote_char" "c \<noteq> backslash" "\<not> byte c < 32" "c \<notin> {CHR ''<'', CHR ''>'', CHR ''&''}" by blast
  then show ?thesis
  proof cases
    case 1
    then show ?thesis by (auto simp: escape_ascii_def simple_escape_def intro!: unquote_simple)
  next
    case 2
    then have "\<exists>x. escape_ascii c = [backslash, x] \<and> x \<noteq> CHR ''u'' \<and> simple_escape x = Some c"
      by (auto simp: escape_ascii_def simple_escape_def intro: byte_eq_char [symmetric])
    then show ?thesis by (auto intro: unquote_simple)
  next
    case hex
    have "hex4 [CHR ''0'', CHR ''0'', hex_char (byte c div 16), hex_char (byte c mod 16)] = Some (byte c)"
      using assms by (simp add: hex4_def hex_value_def [of "CHR ''0''"])
    moreover have "EncodeRune (byte c) = Some [c]" using assms by (simp add: EncodeRune_def)
    moreover have "escape_ascii c = [backslash, CHR ''u'', CHR ''0'', CHR ''0'', hex_char (byte c div 16), hex_char (byte c mod 16)]"
      unfolding escape_ascii_def using hex by simp
    ultimately show ?thesis by (simp add: unquote_hex)
  next
    case plain
    then show ?thesis by (auto simp: escape_ascii_def unquote_plain)
  qed
qed

lemma unquote_high: "list_all (\<lambda>c. 128 \<le> byte c) xs \<Longrightarrow> unquote (xs @ s) = prepend xs (unquote s)"
proof (induction xs)
  case (Cons c xs)
  have "c \<noteq> quote_char" "c \<noteq> backslash" using Cons.prems by auto
  then show ?case using Cons by (cases "unquote s") (auto simp: unquote_plain)
qed (cases "unquote s"; auto)

lemma DecodeRune_separator:
  assumes "128 \<le> byte c" "DecodeRune (c # t) = (r, w)" "r = 8232 \<or> r = 8233"
  shows "w = 3 \<and> byte c = 226 \<and> byte (t ! 0) = 128 \<and> byte (t ! 1) = r - 8064 \<and> 2 \<le> length t"
proof -
  define b0 b1 b2 b3 where "b0 = byte c" and "b1 = byte (t ! 0)" and "b2 = byte (t ! 1)" and "b3 = byte (t ! 2)"
  note b = b0_def [symmetric] b1_def [symmetric] b2_def [symmetric] b3_def [symmetric]
  have m: "x mod 32 * 64 + y mod 64 < 2048" for x y :: nat
  proof -
    have "x mod 32 \<le> 31" "y mod 64 \<le> 63" by simp_all
    then show ?thesis by linarith
  qed
  have three: "b0 = 226 \<and> b1 = 128 \<and> b2 = r - 8064"
    if bounds: "224 \<le> b0" "b0 < 240" "128 \<le> b1" "b1 \<le> 191" "128 \<le> b2" "b2 \<le> 191"
      and eq: "b0 mod 16 * 4096 + b1 mod 64 * 64 + b2 mod 64 = r"
  proof -
    obtain x y z where xyz: "b0 = 224 + x" "b1 = 128 + y" "b2 = 128 + z" "x < 16" "y < 64" "z < 64"
      using bounds by (auto simp: le_iff_add)
    have "x * 4096 + y * 64 + z = r" using eq xyz by (simp add: mod_nat_eqI [of x] mod_nat_eqI [of y] mod_nat_eqI [of z])
    moreover from this have "x < 3" "1 < x" using xyz(5,6) assms(3) by linarith+
    then have x: "x = 2" by simp
    ultimately have "y < 1" using assms(3) by linarith
    then have "x = 2 \<and> y = 0 \<and> z = r - 8192" using x \<open>x * 4096 + y * 64 + z = r\<close> by simp
    then show ?thesis using assms(3) by (auto simp: xyz)
  qed
  have four: False
    if "240 \<le> b0" "b0 < 245" "accept_lo b0 \<le> b1" "b1 \<le> 191"
      "b0 mod 8 * 262144 + b1 mod 64 * 4096 + b2 mod 64 * 64 + b3 mod 64 = r"
  proof (cases "b0 = 240")
    case True
    then have "b1 mod 64 = b1 - 128" using that by (intro mod_nat_eqI) (auto simp: accept_lo_def)
    then have "16 \<le> b1 mod 64" using that True by (simp add: accept_lo_def)
    then show False using that(5) assms(3) by linarith
  next
    case False
    then have "b0 mod 8 = b0 - 240" using that by (intro mod_nat_eqI) auto
    then show False using that assms(3) False by linarith
  qed
  have sl: "seq_length b0 \<noteq> 1" "seq_length b0 \<in> {0, 2, 3, 4}" "seq_length b0 = 3 \<Longrightarrow> 224 \<le> b0 \<and> b0 < 240"
    "seq_length b0 = 4 \<Longrightarrow> 240 \<le> b0 \<and> b0 < 245"
    using assms(1) unfolding b by (auto simp: seq_length_def split: if_splits)
  have lo: "128 \<le> accept_lo b0" "accept_hi b0 \<le> 191" by (simp_all add: accept_lo_def accept_hi_def)
  have ne: "r \<noteq> RuneError" using assms(3) by (auto simp: RuneError_def)
  show ?thesis
    using assms(2) ne sl lo three four m [of b0 b1] assms(3)
    unfolding DecodeRune.simps(2) Let_def is_cont_def b
    by (auto simp: Suc_le_eq split: if_split_asm)
qed

lemma hex4_FFFD:
  "hex4 ''fffd'' = Some 65533" "EncodeRune 65533 = Some [CHR 0xEF, CHR 0xBF, CHR 0xBD]"
  by (simp_all add: hex4_def hex_value_def EncodeRune_def char_of_eq_iff)

lemma hex4_separators:
  "hex4 ''2028'' = Some 8232" "EncodeRune 8232 = Some [CHR 0xE2, CHR 0x80, char_of (168 :: nat)]"
  "hex4 ''2029'' = Some 8233" "EncodeRune 8233 = Some [CHR 0xE2, CHR 0x80, char_of (169 :: nat)]"
  "hex_char 8 = CHR ''8''" "hex_char 9 = CHR ''9''"
  by (simp_all add: hex4_def hex_value_def hex_char_def EncodeRune_def char_of_eq_iff)

lemma unquote_escape: "unquote (escape s @ quote_char # rest) = Some (coerce_utf8 s, rest)"
proof (induction s rule: coerce_utf8.induct)
  case (1 s)
  obtain r w where d: "DecodeRune s = (r, w)" by (metis surj_pair)
  show ?case
  proof (cases "s = []")
    case True
    then show ?thesis by (simp add: escape.simps unquote_end)
  next
    case ne: False
    then have IH: "unquote (escape (drop w s) @ quote_char # rest) = Some (coerce_utf8 (drop w s), rest)"
      using 1 d by simp
    show ?thesis
    proof (cases "byte (hd s) < 128")
      case True
      obtain c t where s: "s = c # t" using ne by (cases s) auto
      have "w = 1" using d True by (simp add: s)
      then have "unquote (escape t @ quote_char # rest) = Some (coerce_utf8 t, rest)" using IH by (simp add: s)
      moreover have "escape s = escape_ascii c @ escape t" using True unfolding s by (subst escape.simps) simp
      moreover have "coerce_utf8 s = c # coerce_utf8 t" using True by (simp add: s coerce_utf8_ascii_Cons)
      ultimately show ?thesis using True by (simp add: s unquote_escape_ascii)
    next
      case False
      let ?E = "if r = RuneError \<and> w = 1 then [backslash, CHR ''u'', CHR ''f'', CHR ''f'', CHR ''f'', CHR ''d'']
        else if r = 8232 \<or> r = 8233 then [backslash, CHR ''u'', CHR ''2'', CHR ''0'', CHR ''2'', hex_char (r mod 16)] else take w s"
      let ?C = "if r = RuneError \<and> w = 1 then [CHR 0xEF, CHR 0xBF, CHR 0xBD] else take w s"
      have e: "escape s = ?E @ escape (drop w s)" using ne False by (subst escape.simps) (simp add: d)
      have c: "coerce_utf8 s = ?C @ coerce_utf8 (drop w s)" using ne by (subst coerce_utf8.simps) (simp add: d)
      have "unquote (?E @ x) = prepend ?C (unquote x)" for x
      proof -
        consider (err) "r = RuneError \<and> w = 1" | (sep) "\<not> (r = RuneError \<and> w = 1)" "r = 8232 \<or> r = 8233"
          | (ok) "\<not> (r = RuneError \<and> w = 1)" "\<not> (r = 8232 \<or> r = 8233)" by blast
        then show ?thesis
        proof cases
          case err
          then show ?thesis using err by (simp add: unquote_hex hex4_FFFD)
        next
          case ok
          have "list_all (\<lambda>c. 128 \<le> byte c) (take w s)"
            using DecodeRune_high [OF d ne] False by (simp add: list_all_iff)
          then show ?thesis using unquote_high [of "take w s" x] ok by auto
        next
          case sep
          obtain c t where s: "s = c # t" using ne by (cases s) auto
          have u: "unquote (?E @ x) = prepend [CHR 0xE2, CHR 0x80, char_of (r - 8064)] (unquote x)"
            using sep by (auto simp: unquote_hex hex4_separators RuneError_def)
          have k: "w = 3" "byte c = 226" "byte (t ! 0) = 128" "byte (t ! 1) = r - 8064" "2 \<le> length t"
            using DecodeRune_separator [of c t r w] d False sep(2) by (simp_all add: s)
          obtain a b v where t: "t = a # b # v" using k(5) by (cases t; cases "tl t") auto
          have "c = CHR 0xE2" "a = CHR 0x80" "b = char_of (r - 8064)"
            using k(2-4) byte_eq_char [of c 226] byte_eq_char [of a 128] byte_eq_char [of b "r - 8064"]
            by (simp_all add: t char_of_eq_iff)
          then have "take w s = [CHR 0xE2, CHR 0x80, char_of (r - 8064)]" by (simp add: s t k(1))
          then show ?thesis using u sep(1) by auto
        qed
      qed
      then show ?thesis unfolding e c append_assoc by (simp only: IH prepend_simps)
    qed
  qed
qed

section \<open>A document reads back\<close>

fun coerce_json :: "json \<Rightarrow> json" where
  "coerce_json (JString s) = JString (coerce_utf8 s)"
| "coerce_json (JNumber t) = JNumber t"
| "coerce_json (JArray xs) = JArray (map coerce_json xs)"
| "coerce_json (JObject fs) = JObject (map (\<lambda>(k, v). (coerce_utf8 k, coerce_json v)) fs)"

text \<open>Number texts consist of the characters of numbers, beginning with a digit or a sign.\<close>

definition number_text :: "string \<Rightarrow> bool" where
  "number_text t \<longleftrightarrow> t \<noteq> [] \<and> list_all number_char t"

fun well_formed :: "json \<Rightarrow> bool" where
  "well_formed (JString s) \<longleftrightarrow> True"
| "well_formed (JNumber t) \<longleftrightarrow> number_text t"
| "well_formed (JArray xs) \<longleftrightarrow> list_all well_formed xs"
| "well_formed (JObject fs) \<longleftrightarrow> list_all (\<lambda>(k, v). well_formed v) fs"

definition ends_value :: "string \<Rightarrow> bool" where
  "ends_value rest \<longleftrightarrow> (case rest of [] \<Rightarrow> True | c # _ \<Rightarrow> \<not> number_char c)"

lemma ends_value_punctuation [simp]:
  "ends_value (CHR '','' # r)" "ends_value (CHR '']'' # r)" "ends_value (CHR ''}'' # r)" "ends_value []"
  by (simp_all add: ends_value_def number_char_def IsDigit_def)

lemma commas_Cons: "commas (x # xs) = x @ (if xs = [] then [] else CHR '','' # commas xs)"
  by (cases xs) simp_all

lemma takeWhile_number:
  "list_all number_char t \<Longrightarrow> ends_value rest \<Longrightarrow> takeWhile number_char (t @ rest) = t \<and> dropWhile number_char (t @ rest) = rest"
  by (induction t) (auto simp: ends_value_def split: list.splits)

lemma number_char_not: "number_char c \<Longrightarrow> c \<noteq> quote_char \<and> c \<noteq> CHR ''['' \<and> c \<noteq> CHR ''{''"
  by (auto simp: number_char_def IsDigit_def)

lemma json_text_starts:
  "well_formed j \<Longrightarrow> json_text j \<noteq> [] \<and> hd (json_text j) \<noteq> CHR '']'' \<and> hd (json_text j) \<noteq> CHR ''}''"
  by (cases j) (auto simp: quoted_def number_text_def number_char_def IsDigit_def neq_Nil_conv)

definition reads :: "nat \<Rightarrow> json \<Rightarrow> bool" where
  "reads n j \<longleftrightarrow> (\<forall>k rest. n \<le> k \<longrightarrow> ends_value rest \<longrightarrow> parse_value k (json_text j @ rest) = Some (coerce_json j, rest))"

lemma parse_items_text:
  assumes "\<And>x. x \<in> set xs \<Longrightarrow> reads (length (json_text x)) x" and "xs \<noteq> []"
    and "length (commas (map json_text xs)) < k"
  shows "parse_items k (commas (map json_text xs) @ CHR '']'' # rest) = Some (map coerce_json xs, rest)"
  using assms
proof (induction xs arbitrary: k)
  case (Cons x xs)
  obtain k' where k: "k = Suc k'" using Cons.prems(3) by (cases k) auto
  have x: "reads (length (json_text x)) x" using Cons.prems(1) by simp
  show ?case
  proof (cases "xs = []")
    case True
    with x Cons.prems(3) show ?thesis by (simp add: k reads_def)
  next
    case False
    with x Cons.prems(3) Cons.IH [of k'] Cons.prems(1) show ?thesis
      by (simp add: k reads_def commas_Cons)
  qed
qed simp

lemma parse_members_text:
  assumes "\<And>f. f \<in> set fs \<Longrightarrow> reads (length (json_text (snd f))) (snd f)" and "fs \<noteq> []"
    and "length (commas (map (\<lambda>(key, v). quoted key @ CHR '':'' # json_text v) fs)) < k"
  shows "parse_members k (commas (map (\<lambda>(key, v). quoted key @ CHR '':'' # json_text v) fs) @ CHR ''}'' # rest) =
    Some (map (\<lambda>(key, v). (coerce_utf8 key, coerce_json v)) fs, rest)"
  using assms
proof (induction fs arbitrary: k)
  case (Cons f fs)
  obtain key v where f: "f = (key, v)" by (cases f)
  obtain k' where k: "k = Suc k'" using Cons.prems(3) by (cases k) auto
  have v: "reads (length (json_text v)) v" using Cons.prems(1) [of f] by (simp add: f)
  show ?case
  proof (cases "fs = []")
    case True
    with v Cons.prems(3) show ?thesis by (simp add: f k reads_def quoted_def unquote_escape)
  next
    case False
    with v Cons.prems(3) Cons.IH [of k'] Cons.prems(1) show ?thesis
      by (simp add: f k reads_def commas_Cons quoted_def unquote_escape)
  qed
qed simp

lemma json_text_reads: "well_formed j \<Longrightarrow> reads (length (json_text j)) j"
proof (induction j)
  case (JString s)
  show ?case unfolding reads_def
  proof (intro allI impI)
    fix k rest assume "length (json_text (JString s)) \<le> k"
    then obtain k' where "k = Suc k'" by (cases k) (simp_all add: quoted_def)
    then show "parse_value k (json_text (JString s) @ rest) = Some (coerce_json (JString s), rest)"
      by (simp add: quoted_def unquote_escape)
  qed
next
  case (JNumber t)
  show ?case unfolding reads_def
  proof (intro allI impI)
    fix k rest assume "length (json_text (JNumber t)) \<le> k" and e: "ends_value rest"
    moreover obtain c u where t: "t = c # u" "number_char c" "list_all number_char t"
      using JNumber.prems by (cases t) (auto simp: number_text_def)
    ultimately obtain k' where "k = Suc k'" by (cases k) simp_all
    then show "parse_value k (json_text (JNumber t) @ rest) = Some (coerce_json (JNumber t), rest)"
      using number_char_not [OF t(2)] takeWhile_number [OF t(3) e] t(2) by (simp add: t(1))
  qed
next
  case (JArray xs)
  show ?case unfolding reads_def
  proof (intro allI impI)
    fix k rest assume l: "length (json_text (JArray xs)) \<le> k"
    then obtain k' where k: "k = Suc k'" by (cases k) simp_all
    show "parse_value k (json_text (JArray xs) @ rest) = Some (coerce_json (JArray xs), rest)"
    proof (cases xs)
      case Nil
      then show ?thesis by (simp add: k)
    next
      case (Cons x ys)
      have w: "well_formed y \<and> reads (length (json_text y)) y" if "y \<in> set xs" for y
        using JArray that by (simp add: list_all_iff)
      then have i: "parse_items k' (commas (map json_text xs) @ CHR '']'' # rest) = Some (map coerce_json xs, rest)"
        using l by (intro parse_items_text) (auto simp: Cons k)
      obtain c u where "commas (map json_text xs) = c # u" "c \<noteq> CHR '']''"
        using json_text_starts [of x] w by (cases "json_text x") (auto simp: Cons commas_Cons)
      then show ?thesis using i by (simp add: k)
    qed
  qed
next
  case (JObject fs)
  show ?case unfolding reads_def
  proof (intro allI impI)
    fix k rest assume l: "length (json_text (JObject fs)) \<le> k"
    then obtain k' where k: "k = Suc k'" by (cases k) simp_all
    let ?t = "commas (map (\<lambda>(key, v). quoted key @ CHR '':'' # json_text v) fs)"
    show "parse_value k (json_text (JObject fs) @ rest) = Some (coerce_json (JObject fs), rest)"
    proof (cases fs)
      case Nil
      then show ?thesis by (simp add: k)
    next
      case (Cons f gs)
      have "reads (length (json_text (snd g))) (snd g)" if "g \<in> set fs" for g
        using JObject that by (cases g) (force simp: list_all_iff)
      then have i: "parse_members k' (?t @ CHR ''}'' # rest) = Some (map (\<lambda>(key, v). (coerce_utf8 key, coerce_json v)) fs, rest)"
        using l by (intro parse_members_text) (auto simp: Cons k)
      have "hd ?t = quote_char \<and> ?t \<noteq> []" by (cases f) (simp add: Cons commas_Cons quoted_def)
      then obtain u where "?t = quote_char # u" by (cases ?t) auto
      then show ?thesis using i by (simp add: k)
    qed
  qed
qed

lemma parse_json_text: "well_formed j \<Longrightarrow> parse_json (json_text j) = Some (coerce_json j)"
proof -
  assume "well_formed j"
  then have "parse_value (length (json_text j)) (json_text j @ []) = Some (coerce_json j, [])"
    using json_text_reads [of j] unfolding reads_def by (meson ends_value_punctuation(4) order_refl)
  then show ?thesis by (simp add: parse_json_def)
qed

end
