(* ===== verification/Wire.thy ===== *)
theory Wire
  imports Types Json FloatText "HOL-Library.Monad_Syntax"
begin

text \<open>
  What \<open>json.Marshal\<close> writes for a \<open>HeartbeatBatch\<close>, byte by byte: the value the struct tags of
  \<open>internal/agent/types.go\<close> describe, field by field, with \<open>omitempty\<close>, as the text of \<open>Json\<close> and
  \<open>FloatText\<close>. A value that is not finite is an error.
\<close>

section \<open>Encoding\<close>

text \<open>A tag with \<open>omitempty\<close> leaves out a field that has its zero value.\<close>

definition omitempty :: "bool \<Rightarrow> string \<Rightarrow> json \<Rightarrow> (string \<times> json) list" where
  "omitempty zero k v = (if zero then [] else [(k, v)])"

definition json_pointer :: "string \<Rightarrow> int32 option \<Rightarrow> (string \<times> json) list" where
  "json_pointer k p = (case p of None \<Rightarrow> [] | Some n \<Rightarrow> [(k, JNumber (FormatInt (sint n)))])"

definition json_float :: "f64 \<Rightarrow> json" where
  "json_float v = (case v of Fin x \<Rightarrow> JNumber (FormatFloat x) | _ \<Rightarrow> JNumber [])"

definition json_sample :: "MetricSample \<Rightarrow> json" where
  "json_sample m = JObject [(''key'', JString (Key m)), (''value'', json_float (Value m))]"

definition json_service :: "ServiceHeartbeat \<Rightarrow> json" where
  "json_service s = JObject
     ([(''slug'', JString (Slug s))] @
      omitempty (Name s = []) ''name'' (JString (Name s)) @
      [(''status'', JString (Status s))] @
      json_pointer ''readyReplicas'' (ReadyReplicas s) @
      json_pointer ''desiredReplicas'' (DesiredReplicas s) @
      json_pointer ''restartCount'' (RestartCount s) @
      omitempty (IntervalSeconds s = 0) ''intervalSeconds'' (JNumber (FormatInt (sint (IntervalSeconds s)))) @
      omitempty (Metrics s = []) ''metrics'' (JArray (map json_sample (Metrics s))))"

definition json_batch :: "HeartbeatBatch \<Rightarrow> json" where
  "json_batch b = JObject
     ([(''productId'', JString (ProductID b))] @
      omitempty (Source b = []) ''source'' (JString (Source b)) @
      [(''services'', JArray (map json_service (Services b)))])"

definition Marshal :: "HeartbeatBatch \<Rightarrow> string option" where
  "Marshal b = (if list_all (\<lambda>s. list_all (\<lambda>m. IsFinite (Value m)) (Metrics s)) (Services b)
     then Some (json_text (json_batch b)) else None)"

lemma Marshal_eq: "Marshal b = (if json_finite b then Some (json_text (json_batch b)) else None)"
  by (simp add: Marshal_def json_finite_def)

section \<open>Reading it back\<close>

text \<open>The reader of the contract: a missing field has its zero value, a field of another type is
  refused.\<close>

definition string_field :: "(string \<times> json) list \<Rightarrow> string \<Rightarrow> string option" where
  "string_field fs k = (case map_of fs k of
     None \<Rightarrow> Some [] | Some v \<Rightarrow> (case v of JString s \<Rightarrow> Some s | _ \<Rightarrow> None))"

definition pointer_field :: "(string \<times> json) list \<Rightarrow> string \<Rightarrow> int32 option option" where
  "pointer_field fs k = (case map_of fs k of
     None \<Rightarrow> Some None
   | Some v \<Rightarrow> (case v of
       JNumber t \<Rightarrow> (case ParseInt t of
           None \<Rightarrow> None
         | Some n \<Rightarrow> if - (2 ^ 31) \<le> sint n \<and> sint n < 2 ^ 31 then Some (Some (word_of_int (sint n))) else None)
     | _ \<Rightarrow> None))"

definition array_field :: "(json \<Rightarrow> 'a option) \<Rightarrow> (string \<times> json) list \<Rightarrow> string \<Rightarrow> 'a list option" where
  "array_field read fs k = (case map_of fs k of
     None \<Rightarrow> Some [] | Some v \<Rightarrow> (case v of JArray xs \<Rightarrow> those (map read xs) | _ \<Rightarrow> None))"

fun read_sample :: "json \<Rightarrow> MetricSample option" where
  "read_sample (JObject fs) =
     (case string_field fs ''key'' of
        None \<Rightarrow> None
      | Some k \<Rightarrow> (case map_of fs ''value'' of
          Some v \<Rightarrow> (case v of JNumber t \<Rightarrow> map_option (\<lambda>x. \<lparr>Key = k, Value = x\<rparr>) (ParseFloat t) | _ \<Rightarrow> None)
        | None \<Rightarrow> None))"
| "read_sample _ = None"

fun read_service :: "json \<Rightarrow> ServiceHeartbeat option" where
  "read_service (JObject fs) =
     do { slug \<leftarrow> string_field fs ''slug'';
          name \<leftarrow> string_field fs ''name'';
          status \<leftarrow> string_field fs ''status'';
          ready \<leftarrow> pointer_field fs ''readyReplicas'';
          desired \<leftarrow> pointer_field fs ''desiredReplicas'';
          restarts \<leftarrow> pointer_field fs ''restartCount'';
          interval \<leftarrow> pointer_field fs ''intervalSeconds'';
          samples \<leftarrow> array_field read_sample fs ''metrics'';
          Some \<lparr>Slug = slug, Name = name, Status = status, ReadyReplicas = ready, DesiredReplicas = desired,
            RestartCount = restarts, IntervalSeconds = (case interval of None \<Rightarrow> 0 | Some n \<Rightarrow> n), Metrics = samples\<rparr> }"
| "read_service _ = None"

fun read_batch :: "json \<Rightarrow> HeartbeatBatch option" where
  "read_batch (JObject fs) =
     do { product \<leftarrow> string_field fs ''productId'';
          src \<leftarrow> string_field fs ''source'';
          services \<leftarrow> array_field read_service fs ''services'';
          Some \<lparr>ProductID = product, Source = src, Services = services\<rparr> }"
| "read_batch _ = None"

definition coerce_sample :: "MetricSample \<Rightarrow> MetricSample" where
  "coerce_sample m = m\<lparr>Key := coerce_utf8 (Key m)\<rparr>"

definition coerce_service :: "ServiceHeartbeat \<Rightarrow> ServiceHeartbeat" where
  "coerce_service s = s\<lparr>Slug := coerce_utf8 (Slug s), Name := coerce_utf8 (Name s), Status := coerce_utf8 (Status s),
     Metrics := map coerce_sample (Metrics s)\<rparr>"

definition coerce_batch :: "HeartbeatBatch \<Rightarrow> HeartbeatBatch" where
  "coerce_batch b = b\<lparr>ProductID := coerce_utf8 (ProductID b), Source := coerce_utf8 (Source b),
     Services := map coerce_service (Services b)\<rparr>"

definition read_body :: "string \<Rightarrow> HeartbeatBatch option" where
  "read_body body = Option.bind (parse_json body) read_batch"

lemma those_Some: "(\<And>x. x \<in> set xs \<Longrightarrow> f x = Some (g x)) \<Longrightarrow> those (map f xs) = Some (map g xs)"
  by (induction xs) simp_all

section \<open>Numbers and documents\<close>

lemma ParseInt_FormatInt:
  assumes "- (2 ^ 31) \<le> n" "n < 2 ^ 31"
  shows "ParseInt (FormatInt n) = Some (word_of_int n)"
proof (cases "n < 0")
  case True
  then have "nat (- n) \<le> 2 ^ 63" using assms by simp
  then show ?thesis using True by (simp add: FormatInt_def ParseInt_Itoa_minus)
next
  case False
  then have "nat n < 2 ^ 63" using assms by simp
  then show ?thesis using False by (simp add: FormatInt_def ParseInt_Itoa)
qed

lemma FormatInt_number: "number_text (FormatInt n)"
  using Itoa_all_digits by (auto simp: FormatInt_def number_text_def number_char_def list_all_iff)

lemma number_char_digits: "list_all IsDigit ds \<Longrightarrow> list_all number_char ds"
  by (auto simp: list_all_iff number_char_def)

lemma number_chars [simp]:
  "number_char (CHR ''.'')" "number_char (CHR ''-'')" "number_char (CHR ''+'')" "number_char (CHR ''e'')" "number_char (CHR ''0'')"
  by (simp_all add: number_char_def)

lemma FormatFloat_number:
  assumes "representable x"
  shows "number_text (FormatFloat x)"
proof (cases "x = 0")
  case False
  obtain ds p where d: "shortest_digits \<bar>x\<bar> = (ds, p)" by (metis surj_pair)
  have "representable \<bar>x\<bar>" using assms by (cases "x < 0") simp_all
  then have ds: "list_all IsDigit ds" "ds \<noteq> []" using shortest_digits_value [OF _ _ d] False by auto
  have sub: "list_all number_char (take n ds)" "list_all number_char (drop n ds)" for n
    using number_char_digits [OF ds(1)] by (auto simp: list_all_iff dest: in_set_takeD in_set_dropD)
  have "list_all number_char (format_f ds p)" "list_all number_char (format_e ds p)" "format_e ds p \<noteq> []" "format_f ds p \<noteq> []"
    using ds sub by (auto simp: format_f_def format_e_def number_char_digits)
  then show ?thesis using False d by (simp add: FormatFloat_def number_text_def)
qed (simp add: FormatFloat_def number_text_def)

lemma json_float_number: "is_float64 v \<Longrightarrow> well_formed (json_float v)"
  by (cases v) (simp_all add: is_float64_def json_float_def FormatFloat_number)

text \<open>Every value of a batch is a \<open>float64\<close>.\<close>

definition batch_floats :: "HeartbeatBatch \<Rightarrow> bool" where
  "batch_floats b \<longleftrightarrow> list_all (\<lambda>s. list_all (\<lambda>m. is_float64 (Value m)) (Metrics s)) (Services b)"

lemma batch_floats_finite: "batch_floats b \<Longrightarrow> json_finite b"
  by (auto simp: batch_floats_def json_finite_def list_all_iff is_float64_finite)

lemma ASCII_names [simp]:
  "coerce_utf8 ''key'' = ''key''" "coerce_utf8 ''value'' = ''value''" "coerce_utf8 ''slug'' = ''slug''"
  "coerce_utf8 ''name'' = ''name''" "coerce_utf8 ''status'' = ''status''"
  "coerce_utf8 ''readyReplicas'' = ''readyReplicas''" "coerce_utf8 ''desiredReplicas'' = ''desiredReplicas''"
  "coerce_utf8 ''restartCount'' = ''restartCount''" "coerce_utf8 ''intervalSeconds'' = ''intervalSeconds''"
  "coerce_utf8 ''metrics'' = ''metrics''" "coerce_utf8 ''productId'' = ''productId''"
  "coerce_utf8 ''source'' = ''source''" "coerce_utf8 ''services'' = ''services''"
  by (simp_all add: coerce_utf8_ascii)

lemma well_formed_sample: "is_float64 (Value m) \<Longrightarrow> well_formed (json_sample m)"
  by (simp add: json_sample_def json_float_number)

lemma well_formed_service:
  "list_all (\<lambda>m. is_float64 (Value m)) (Metrics s) \<Longrightarrow> well_formed (json_service s)"
  by (auto simp: json_service_def omitempty_def json_pointer_def FormatInt_number list_all_iff well_formed_sample split: option.split)

lemma well_formed_batch: "batch_floats b \<Longrightarrow> well_formed (json_batch b)"
  by (auto simp: json_batch_def omitempty_def list_all_iff batch_floats_def intro!: well_formed_service)

section \<open>The batch reads back\<close>

lemma read_sample_json:
  "is_float64 (Value m) \<Longrightarrow> read_sample (coerce_json (json_sample m)) = Some (coerce_sample m)"
  by (cases "Value m")
    (auto simp: json_sample_def json_float_def string_field_def coerce_sample_def is_float64_def ParseFloat_FormatFloat)

text \<open>Looking up a field in the field list of an object.\<close>

definition coerce_fields :: "(string \<times> json) list \<Rightarrow> (string \<times> json) list" where
  "coerce_fields fs = map (\<lambda>(k, v). (coerce_utf8 k, coerce_json v)) fs"

lemma coerce_object: "coerce_json (JObject fs) = JObject (coerce_fields fs)"
  by (simp add: coerce_fields_def)

lemma coerce_fields_simps [simp]:
  "coerce_fields [] = []" "coerce_fields (xs @ ys) = coerce_fields xs @ coerce_fields ys"
  "coerce_fields ((k, v) # xs) = (coerce_utf8 k, coerce_json v) # coerce_fields xs"
  by (simp_all add: coerce_fields_def)

lemma lookup_append [simp]:
  "map_of (xs @ ys) k = (case map_of xs k of None \<Rightarrow> map_of ys k | Some v \<Rightarrow> Some v)"
  by (induction xs) auto

lemma lookup_omitempty [simp]:
  "map_of (coerce_fields (omitempty z k' v)) k = (if k = coerce_utf8 k' \<and> \<not> z then Some (coerce_json v) else None)"
  by (simp add: omitempty_def)

lemma lookup_pointer [simp]:
  "map_of (coerce_fields (json_pointer k' p)) k =
     (if k = coerce_utf8 k' then map_option (\<lambda>n. JNumber (FormatInt (sint n))) p else None)"
  by (simp add: json_pointer_def split: option.split)

lemma int32_range: "- 2147483648 \<le> sint (n :: int32)" "sint (n :: int32) < 2147483648"
  using sint_greater_eq [of n] sint_less [of n] by simp_all

lemma int32_reads: "ParseInt (FormatInt (sint (n :: int32))) = Some (word_of_int (sint n))"
  using int32_range [of n] by (intro ParseInt_FormatInt) simp_all

lemma int32_int64 [simp]: "sint (scast (n :: int32) :: int64) = sint n"
proof -
  have "sint (word_of_int (sint n) :: int64) = sint n" using int32_range [of n] by (intro sint_int64_of_int) simp_all
  then show ?thesis by simp
qed

lemma read_service_json:
  assumes "list_all (\<lambda>m. is_float64 (Value m)) (Metrics s)"
  shows "read_service (coerce_json (json_service s)) = Some (coerce_service s)"
proof -
  have m: "those (map (\<lambda>m. read_sample (coerce_json (json_sample m))) (Metrics s)) = Some (map coerce_sample (Metrics s))"
    using assms by (intro those_Some read_sample_json) (simp add: list_all_iff)
  have lookup: "pointer_field fs k = Some q" if "map_of fs k = map_option (\<lambda>n. JNumber (FormatInt (sint n))) q"
    for fs k and q :: "int32 option"
    using that int32_range by (cases q) (simp_all add: pointer_field_def int32_reads)
  let ?fs = "coerce_fields ([(''slug'', JString (Slug s))] @
      omitempty (Name s = []) ''name'' (JString (Name s)) @
      [(''status'', JString (Status s))] @
      json_pointer ''readyReplicas'' (ReadyReplicas s) @
      json_pointer ''desiredReplicas'' (DesiredReplicas s) @
      json_pointer ''restartCount'' (RestartCount s) @
      omitempty (IntervalSeconds s = 0) ''intervalSeconds'' (JNumber (FormatInt (sint (IntervalSeconds s)))) @
      omitempty (Metrics s = []) ''metrics'' (JArray (map json_sample (Metrics s))))"
  have f: "string_field ?fs ''slug'' = Some (coerce_utf8 (Slug s))" "string_field ?fs ''name'' = Some (coerce_utf8 (Name s))"
    "string_field ?fs ''status'' = Some (coerce_utf8 (Status s))"
    by (simp_all add: string_field_def del: map_of_append)
  have g: "pointer_field ?fs ''readyReplicas'' = Some (ReadyReplicas s)"
    by (rule lookup) (cases "ReadyReplicas s"; simp del: map_of_append)
  have g': "pointer_field ?fs ''desiredReplicas'' = Some (DesiredReplicas s)"
    by (rule lookup) (cases "DesiredReplicas s"; simp del: map_of_append)
  have g'': "pointer_field ?fs ''restartCount'' = Some (RestartCount s)"
    by (rule lookup) (cases "RestartCount s"; simp del: map_of_append)
  have i: "pointer_field ?fs ''intervalSeconds'' = Some (if IntervalSeconds s = 0 then None else Some (IntervalSeconds s))"
    by (rule lookup) (cases "IntervalSeconds s = 0"; simp del: map_of_append)
  have h: "array_field read_sample ?fs ''metrics'' = Some (map coerce_sample (Metrics s))"
    using m by (simp add: array_field_def comp_def del: map_of_append)
  show ?thesis unfolding json_service_def coerce_object read_service.simps f g g' g'' i h
    by (simp add: coerce_service_def)
qed

lemma read_batch_json:
  assumes "batch_floats b"
  shows "read_batch (coerce_json (json_batch b)) = Some (coerce_batch b)"
proof -
  have m: "those (map (\<lambda>s. read_service (coerce_json (json_service s))) (Services b)) = Some (map coerce_service (Services b))"
    using assms by (intro those_Some read_service_json) (simp add: list_all_iff batch_floats_def)
  show ?thesis
    by (simp add: json_batch_def coerce_object string_field_def array_field_def coerce_batch_def comp_def m del: coerce_json.simps(4) map_of_append)
qed

lemma read_body_text: "batch_floats b \<Longrightarrow> read_body (json_text (json_batch b)) = Some (coerce_batch b)"
  by (simp add: read_body_def parse_json_text well_formed_batch read_batch_json)

text \<open>
  C19. A batch is read back from the bytes of its body: whenever its values are \<open>float64\<close> numbers,
  \<open>Marshal\<close> gives a document from which the reader of the contract gets every field again, the
  absent ones as their zero values, the numbers exactly, and the strings up to the replacement of
  bytes that are not UTF-8.
\<close>

theorem Marshal_roundtrip:
  assumes "batch_floats b"
  shows "\<exists>body. Marshal b = Some body \<and> read_body body = Some (coerce_batch b)"
  using assms by (simp add: Marshal_eq batch_floats_finite read_body_text)

definition example_batch :: HeartbeatBatch where
  "example_batch = \<lparr>ProductID = ''product'', Source = ''k8s-agent'', Services =
     [\<lparr>Slug = ''shop'', Name = ''R&D'', Status = StatusDegraded, ReadyReplicas = Some 1, DesiredReplicas = Some 2,
        RestartCount = None, IntervalSeconds = 60, Metrics = [\<lparr>Key = MetricCPUMillicores, Value = Fin 250\<rparr>]\<rparr>]\<rparr>"

lemma Marshal_roundtrip_witness:
  "\<exists>body. Marshal example_batch = Some body \<and> read_body body = Some example_batch"
proof -
  have "f64_of_int 250 = Fin 250" by (simp add: f64_of_int_def round_f64_int_simps)
  then have "batch_floats example_batch"
    using is_float64_of_int [of 250] by (simp add: batch_floats_def example_batch_def IsFinite_def)
  moreover have "coerce_batch example_batch = example_batch"
    by (simp add: coerce_batch_def coerce_service_def coerce_sample_def example_batch_def coerce_utf8_ascii
      StatusDegraded_def MetricCPUMillicores_def)
  ultimately show ?thesis using Marshal_roundtrip [of example_batch] by simp
qed

end
