(* ===== verification/Reporter.thy ===== *)
theory Reporter
  imports SourceFactory Wire
begin

text \<open>
  \<open>internal/agent/reporter.go\<close>: posting a heartbeat batch. The body is the JSON
  text \<open>Marshal\<close> makes of the batch (\<open>Wire\<close>). A posted request is recorded with its URL, its headers,
  the batch and the bytes of its body.
\<close>

record Reporter =
  RBaseURL :: string
  RAPIKey :: string
  RClient :: http_client

definition NewReporter :: "string \<Rightarrow> string \<Rightarrow> int \<Rightarrow> Reporter" where
  "NewReporter baseURL apiKey timeout =
     \<lparr>RBaseURL = TrimRight baseURL (CHR ''/''), RAPIKey = apiKey,
      RClient = \<lparr>Timeout = timeout, CheckRedirect = (\<lambda>via. UseLastResponse)\<rparr>\<rparr>"

record request =
  rq_url :: string
  rq_headers :: "(string \<times> string) list"
  rq_body :: HeartbeatBatch
  rq_bytes :: string

datatype send_error =
    SendMarshal
  | SendBuild go_error
  | SendFailed string
  | SendRejected nat string

fun send_error_text :: "(string \<Rightarrow> string) \<Rightarrow> send_error \<Rightarrow> string" where
  "send_error_text quote SendMarshal = ''json: unsupported value''"
| "send_error_text quote (SendBuild e) = err_string quote e"
| "send_error_text quote (SendFailed s) = ''heartbeat request failed: '' @ s"
| "send_error_text quote (SendRejected code s) = ''heartbeat rejected ('' @ Itoa code @ ''): '' @ s"

text \<open>The surroundings of one POST: the HTTP environment, how long it takes, and the Unix time
  \<open>SetToCurrentTime\<close> reads.\<close>

record send_env = http_env +
  se_seconds :: f64
  se_now :: f64

definition heartbeat_url :: "Reporter \<Rightarrow> string" where
  "heartbeat_url r = RBaseURL r @ ''/api/runtime/heartbeat''"

definition post :: "Reporter \<Rightarrow> send_env \<Rightarrow> HeartbeatBatch \<Rightarrow> request list \<times> send_error option" where
  "post r env batch =
     (case Marshal batch of
        None \<Rightarrow> ([], Some SendMarshal)
      | Some body \<Rightarrow> (case env_new_request env (heartbeat_url r) of
          Some e \<Rightarrow> ([], Some (SendBuild e))
        | None \<Rightarrow>
            (let headers = [(''Content-Type'', ''application/json''), (''X-API-Key'', RAPIKey r)];
                 (urls, resp) = Do (RClient r) (env_send env) ''Post'' (heartbeat_url r)
             in (map (\<lambda>url. \<lparr>rq_url = url, rq_headers = headers, rq_body = batch, rq_bytes = body\<rparr>) urls,
                 case resp of
                   Inl e \<Rightarrow> Some (SendFailed (ForLog (TransportReason (env_quote env) e)))
                 | Inr resp \<Rightarrow>
                     if 300 \<le> StatusCode resp then
                       (let (snippet, _) = ReadAllLimited (RespBody resp) (int SnippetBytes)
                        in Some (SendRejected (StatusCode resp) (ForLog snippet)))
                     else None))))"

text \<open>\<open>Send\<close>: the POST, then the deferred \<open>RecordHeartbeat\<close>, on every path.\<close>

definition Send :: "Reporter \<Rightarrow> send_env \<Rightarrow> HeartbeatBatch \<Rightarrow> world \<Rightarrow>
    (request list \<times> send_error option) \<times> world" where
  "Send r env batch w =
     (let (reqs, err) = post r env batch
      in ((reqs, err), on_metrics (RecordHeartbeat (err = None) (se_seconds env) (se_now env)) w))"

section \<open>Properties\<close>

lemma Send_simps:
  "fst (Send r env batch w) = post r env batch"
  "snd (Send r env batch w) = on_metrics (RecordHeartbeat (snd (post r env batch) = None) (se_seconds env) (se_now env)) w"
  by (simp_all add: Send_def split_beta)

lemma post_NewReporter:
  "post (NewReporter base key timeout) env batch =
     (if \<not> json_finite batch then ([], Some SendMarshal)
      else case env_new_request env (heartbeat_url (NewReporter base key timeout)) of
        Some e \<Rightarrow> ([], Some (SendBuild e))
      | None \<Rightarrow>
          ([\<lparr>rq_url = heartbeat_url (NewReporter base key timeout),
             rq_headers = [(''Content-Type'', ''application/json''), (''X-API-Key'', key)], rq_body = batch, rq_bytes = json_text (json_batch batch)\<rparr>],
           case env_send env (heartbeat_url (NewReporter base key timeout)) of
             Inl e \<Rightarrow> Some (SendFailed (ForLog (TransportReason (env_quote env)
               (URLError ''Post'' (heartbeat_url (NewReporter base key timeout)) (Some e)))))
           | Inr resp \<Rightarrow> if 300 \<le> StatusCode resp then
                 Some (case unfollowed ''Post'' (heartbeat_url (NewReporter base key timeout)) resp of
                     Inl e \<Rightarrow> SendFailed (ForLog (TransportReason (env_quote env) e))
                   | Inr _ \<Rightarrow> SendRejected (StatusCode resp) (ForLog (fst (ReadAllLimited (RespBody resp) (int SnippetBytes)))))
               else None))"
proof -
  have c: "CheckRedirect (RClient (NewReporter base key timeout)) = (\<lambda>_. UseLastResponse)" "RAPIKey (NewReporter base key timeout) = key"
    by (simp_all add: NewReporter_def)
  show ?thesis
    unfolding post_def Do_no_redirect [OF c(1)] c(2) Let_def Marshal_eq
    using unfollowed_simps [where op = "''Post''" and url = "heartbeat_url (NewReporter base key timeout)"]
    by (force simp: split_beta split: option.split sum.split)
qed

text \<open>
  The API key goes nowhere else: every request \<open>Send\<close> makes, whatever the server answers,
  redirects included, is one POST to the configured base URL with the heartbeat path, whose
  base does not end in a slash, and carries exactly the batch it was given.
\<close>

theorem Send_posts_once:
  "let url = TrimRight base (CHR ''/'') @ ''/api/runtime/heartbeat'';
       reqs = fst (fst (Send (NewReporter base key timeout) env batch w))
   in length reqs \<le> 1 \<and>
      list_all (\<lambda>q. rq_url q = url \<and> rq_body q = batch \<and>
        rq_headers q = [(''Content-Type'', ''application/json''), (''X-API-Key'', key)]) reqs \<and>
      \<not> HasSuffix (TrimRight base (CHR ''/'')) ''/''"
proof -
  have u: "heartbeat_url (NewReporter base key timeout) = TrimRight base (CHR ''/'') @ ''/api/runtime/heartbeat''"
    by (simp add: heartbeat_url_def NewReporter_def)
  have l: "\<not> HasSuffix (TrimRight base (CHR ''/'')) ''/''"
    using TrimRight_last [of base "CHR ''/''"] by (auto simp: HasSuffix_iff)
  show ?thesis
    using l by (auto simp: Let_def Send_simps post_NewReporter u split: option.split)
qed

text \<open>
  A heartbeat succeeds exactly when the batch can be encoded, the request can be built and
  the server answers with a status below 300, and the outcome is what the self-metrics count:
  one attempt more, on the side of the outcome.
\<close>

theorem Send_succeeds_iff:
  "(snd (fst (Send (NewReporter base key timeout) env batch w)) = None \<longleftrightarrow>
      json_finite batch \<and> env_new_request env (heartbeat_url (NewReporter base key timeout)) = None \<and>
      (\<exists>resp. env_send env (heartbeat_url (NewReporter base key timeout)) = Inr resp \<and> StatusCode resp < 300)) \<and>
   w_metrics (snd (Send (NewReporter base key timeout) env batch w)) =
     RecordHeartbeat (snd (fst (Send (NewReporter base key timeout) env batch w)) = None) (se_seconds env) (se_now env) (w_metrics w) \<and>
   w_log (snd (Send (NewReporter base key timeout) env batch w)) = w_log w"
  by (auto simp: Send_simps post_NewReporter split: option.split sum.split)

lemma post_error_safe:
  assumes "snd (post r env batch) = Some e"
  shows "case e of
      SendMarshal \<Rightarrow> True | SendBuild b \<Rightarrow> env_new_request env (heartbeat_url r) = Some b
    | SendFailed s \<Rightarrow> unprintable s = [] \<and> length s \<le> 256 | SendRejected code s \<Rightarrow> unprintable s = [] \<and> length s \<le> 256"
  using assms length_clean(1)
  by (auto simp: post_def Let_def split: option.splits prod.splits sum.splits if_splits)

text \<open>
  C34. No byte a peer chose reaches an error text unless it is printable ASCII, and never many: every
  error of a scrape and of a heartbeat, on every branch and with every client, is one printable line
  of bounded length besides the digits of a status code; the only other text is that of a request
  that could not be built from the agent's own configuration.
\<close>

theorem peer_text_bounded_printable:
  "(case snd (Fetch senv c keep) of
      Inl e \<Rightarrow> unprintable (scrape_error_text e) = [] \<and>
        length (scrape_error_text e) \<le> 512 + (case e of ErrStatus code _ _ \<Rightarrow> length (Itoa code) | _ \<Rightarrow> 0)
    | Inr rows \<Rightarrow> True) \<and>
   (case snd (post r env batch) of
      None \<Rightarrow> True
    | Some (SendBuild b) \<Rightarrow> env_new_request env (heartbeat_url r) = Some b
    | Some e \<Rightarrow> unprintable (send_error_text quote e) = [] \<and>
        length (send_error_text quote e) \<le> 512 + (case e of SendRejected code _ \<Rightarrow> length (Itoa code) | _ \<Rightarrow> 0))"
proof
  show "case snd (Fetch senv c keep) of
      Inl e \<Rightarrow> unprintable (scrape_error_text e) = [] \<and>
        length (scrape_error_text e) \<le> 512 + (case e of ErrStatus code _ _ \<Rightarrow> length (Itoa code) | _ \<Rightarrow> 0)
    | Inr rows \<Rightarrow> True"
    using Fetch_error_safe [of senv c keep] by (simp split: sum.split)
next
  show "case snd (post r env batch) of
      None \<Rightarrow> True
    | Some (SendBuild b) \<Rightarrow> env_new_request env (heartbeat_url r) = Some b
    | Some e \<Rightarrow> unprintable (send_error_text quote e) = [] \<and>
        length (send_error_text quote e) \<le> 512 + (case e of SendRejected code _ \<Rightarrow> length (Itoa code) | _ \<Rightarrow> 0)"
    using post_error_safe [of r env batch] by (cases "snd (post r env batch)") (auto split: send_error.splits)
qed

end
