(* ===== verification/Agent.thy ===== *)
theory Agent
  imports Reporter
begin

text \<open>
  \<open>internal/agent/agent.go\<close>: one tick collects the annotated workloads, asks the metric source
  once, posts the batch, and sets the gauges. The cluster, the network and the clocks answer
  through \<open>agent_env\<close>, one value per tick; whether the context is done is read twice, after
  the source has answered (\<open>ae_done\<close>) and at the end of the tick (\<open>ae_tick_done\<close>). Converting a float outside the 32-bit range to
  \<open>int32\<close> is implementation-specific in Go: \<open>ae_int32\<close> gives its result there.
\<close>

record Config =
  CfgProductID :: string
  CfgSource :: string
  Namespaces :: "string list"
  Interval :: int

record Agent =
  cfg :: Config
  source :: any_source
  warnedSlugs :: "string fset"
  warnedOverflow :: bool

record agent_env =
  ae_cluster :: kube_client
  ae_selector :: "LabelSelector \<Rightarrow> (string, Selector) result"
  ae_tick :: tick_env
  ae_send :: send_env
  ae_int32 :: "f64 \<Rightarrow> int32"
  ae_done :: bool
  ae_tick_done :: bool

definition MaxWarnedSlugPairs :: nat where
  "MaxWarnedSlugPairs = 1024"

definition NewAgent :: "Config \<Rightarrow> any_source option \<Rightarrow> Agent" where
  "NewAgent c src = \<lparr>cfg = c, source = (case src of None \<Rightarrow> SrcNone | Some s \<Rightarrow> s),
     warnedSlugs = {||}, warnedOverflow = False\<rparr>"

section \<open>Collecting\<close>

definition warnDuplicateSlug :: "string \<Rightarrow> string \<Rightarrow> string \<Rightarrow> Agent \<times> world \<Rightarrow> Agent \<times> world" where
  "warnDuplicateSlug slug reported shadowed aw =
     (let (a, w) = aw; key = slug @ unitSep # shadowed in
      if key |\<in>| warnedSlugs a then (a, w)
      else if MaxWarnedSlugPairs \<le> fcard (warnedSlugs a) then
        (if \<not> warnedOverflow a then (a\<lparr>warnedOverflow := True\<rparr>, log (LogTooManyDuplicates MaxWarnedSlugPairs) w)
         else (a\<lparr>warnedOverflow := True\<rparr>, w))
      else (a\<lparr>warnedSlugs := finsert key (warnedSlugs a)\<rparr>, log (LogDuplicateSlug slug reported shadowed) w))"

definition int32_of_f64 :: "(f64 \<Rightarrow> int32) \<Rightarrow> f64 \<Rightarrow> int32" where
  "int32_of_f64 other v = (case v of
     Fin x \<Rightarrow> let n = sgn x * of_int \<lfloor>\<bar>x\<bar>\<rfloor> in
       if - (2 ^ 31) \<le> n \<and> n < 2 ^ 31 then word_of_int \<lfloor>n\<rfloor> else other v
   | _ \<Rightarrow> other v)"

text \<open>What the loops of \<open>Collect\<close> accumulate.\<close>

record collecting =
  claimed :: "(string, string) fmap"
  out :: "ServiceHeartbeat list"
  targets :: "ServiceTarget list"

definition owner_of :: "string \<Rightarrow> Deployment \<Rightarrow> string" where
  "owner_of ns d = ns @ ''/'' @ DName d"

definition collect_deployment :: "agent_env \<Rightarrow> string \<Rightarrow> Deployment \<Rightarrow>
    collecting \<times> (Agent \<times> world) \<Rightarrow> collecting \<times> (Agent \<times> world)" where
  "collect_deployment env ns d st =
     (let (c, a, w) = st in
      case MapDeployment d of
        None \<Rightarrow> (c, a, w)
      | Some entry \<Rightarrow>
          (case fmlookup (claimed c) (Slug entry) of
             Some owner \<Rightarrow> (c, warnDuplicateSlug (Slug entry) owner (owner_of ns d) (a, w))
           | None \<Rightarrow>
               let entry = (if 0 < Interval (cfg a)
                     then entry\<lparr>IntervalSeconds := int32_of_f64 (ae_int32 env) (Seconds (Interval (cfg a)))\<rparr> else entry);
                   sel = deploymentSelector (ae_selector env) d;
                   (entry, names, w) =
                     (if sel = [] then (entry, [], w)
                      else case ListPods (ae_cluster env) ns sel of
                        Inl e \<Rightarrow> (entry, [], log (LogListPodsFailed (DName d) e) w)
                      | Inr pods \<Rightarrow> (entry\<lparr>RestartCount := Some (sumRestarts pods)\<rparr>, podNames pods, w))
               in (\<lparr>claimed = fmupd (Slug entry) (owner_of ns d) (claimed c),
                    out = out c @ [entry],
                    targets = targets c @ [\<lparr>TSlug = Slug entry, TNamespace = ns, TSelector = sel, TPodNames = names\<rparr>]\<rparr>,
                   a, w)))"

fun collect_namespaces :: "agent_env \<Rightarrow> string list \<Rightarrow> collecting \<times> (Agent \<times> world) \<Rightarrow>
    (agent_error, collecting) result \<times> (Agent \<times> world)" where
  "collect_namespaces env [] st = (Inr (fst st), snd st)"
| "collect_namespaces env (ns # rest) st =
     (case ListDeployments (ae_cluster env) ns of
        Inl e \<Rightarrow> (Inl e, snd st)
      | Inr deps \<Rightarrow> collect_namespaces env rest (fold (collect_deployment env ns) deps st))"

text \<open>The tick as the source sees it: pod metrics come from the cluster reader.\<close>

definition source_env :: "agent_env \<Rightarrow> tick_env" where
  "source_env env = (ae_tick env)\<lparr>te_pod_metrics := PodMetricsForSelector (ae_cluster env)\<rparr>"

definition collectSamples :: "agent_env \<Rightarrow> ServiceTarget list \<Rightarrow> Agent \<times> world \<Rightarrow> samples \<times> (Agent \<times> world)" where
  "collectSamples env ts aw =
     (let (a, w) = aw in
      if ts = [] then (fmempty, (a, w))
      else let ((ms, err), (src, w)) = source_Samples (source_env env) ts (source a, w);
               a = a\<lparr>source := src\<rparr>
           in case err of
                Some e \<Rightarrow> (ms, (a, if \<not> is_source_unavailable e \<and> \<not> ae_done env
                                   then log (LogSourceFailed (source_Name src) e) w else w))
              | None \<Rightarrow> (ms, (a, w)))"

definition attach :: "samples \<Rightarrow> ServiceHeartbeat \<Rightarrow> ServiceHeartbeat" where
  "attach ms s = (case fmlookup ms (Slug s) of
     None \<Rightarrow> s
   | Some m \<Rightarrow> if m = [] then s else s\<lparr>Metrics := Metrics s @ m\<rparr>)"

definition mapped_count :: "samples \<Rightarrow> ServiceHeartbeat list \<Rightarrow> nat" where
  "mapped_count ms services =
     fold (\<lambda>s n. case fmlookup ms (Slug s) of None \<Rightarrow> n | Some m \<Rightarrow> if m = [] then n else Suc n) services 0"

definition role_count :: "string \<Rightarrow> samples \<Rightarrow> ServiceHeartbeat list \<Rightarrow> nat" where
  "role_count key ms services =
     fold (\<lambda>s n. case fmlookup ms (Slug s) of None \<Rightarrow> n
        | Some m \<Rightarrow> n + length (filter (\<lambda>x. Key x = key) m)) services 0"

definition Collect :: "agent_env \<Rightarrow> Agent \<times> world \<Rightarrow>
    (agent_error, ServiceHeartbeat list) result \<times> (Agent \<times> world)" where
  "Collect env aw =
     (case collect_namespaces env (Namespaces (cfg (fst aw))) (\<lparr>claimed = fmempty, out = [], targets = []\<rparr>, aw) of
        (Inl e, aw) \<Rightarrow> (Inl e, aw)
      | (Inr c, aw) \<Rightarrow>
          let (ms, (a, w)) = collectSamples env (targets c) aw;
              w = on_metrics (SetResourceServicesMapped (mapped_count ms (out c))) w;
              w = on_metrics (SetResourceSamples ''cpu'' (role_count MetricCPUMillicores ms (out c))) w;
              w = on_metrics (SetResourceSamples ''memory'' (role_count MetricMemoryBytes ms (out c))) w;
              w = on_metrics (SetResourceSource (source_Name (source a))) w
          in (Inr (map (attach ms) (out c)), (a, w)))"

section \<open>Ticks\<close>

datatype tick_error = TickCollect agent_error | TickSend send_error

definition Tick :: "Reporter \<Rightarrow> agent_env \<Rightarrow> Agent \<times> world \<Rightarrow>
    (request list \<times> tick_error option) \<times> (Agent \<times> world)" where
  "Tick r env aw =
     (case Collect env aw of
        (Inl e, aw) \<Rightarrow> (([], Some (TickCollect e)), aw)
      | (Inr services, (a, w)) \<Rightarrow>
          if services = [] then
            (([], None), (a, log (LogNoWorkloads AnnotationService) (on_metrics (SetServicesReported 0) w)))
          else let batch = \<lparr>ProductID = CfgProductID (cfg a), Source = CfgSource (cfg a), Services = services\<rparr>;
                   ((reqs, err), w) = Send r (ae_send env) batch w
               in case err of
                    Some e \<Rightarrow> ((reqs, Some (TickSend e)), (a, w))
                  | None \<Rightarrow> ((reqs, None), (a, log (LogHeartbeatSent (length services))
                      (on_metrics (SetServicesReported (length services)) w))))"

definition tick_error_text :: "(string \<Rightarrow> string) \<Rightarrow> (agent_error \<Rightarrow> string) \<Rightarrow> tick_error \<Rightarrow> string" where
  "tick_error_text quote agent_text e = (case e of
     TickCollect e \<Rightarrow> agent_text e | TickSend e \<Rightarrow> send_error_text quote e)"

definition tickOnce :: "(tick_error \<Rightarrow> string) \<Rightarrow> Reporter \<Rightarrow> agent_env \<Rightarrow> Agent \<times> world \<Rightarrow>
    request list \<times> (Agent \<times> world)" where
  "tickOnce error_text r env aw =
     (let ((reqs, err), (a, w)) = Tick r env aw
      in (reqs, (a, case err of
           None \<Rightarrow> w
         | Some e \<Rightarrow> if \<not> ae_tick_done env then log (LogTickFailed (error_text e)) w else w)))"

text \<open>\<open>Run\<close>: a single tick, a refusal, or the loop over the ticker until the context is done. The
  list gives the surroundings of the ticks the ticker fires before that; the first one is the
  tick made before the ticker starts.\<close>

datatype run_result =
    RunOnce "tick_error option"
  | RunRefused int
  | RunCancelled

definition run_loop :: "(tick_error \<Rightarrow> string) \<Rightarrow> Reporter \<Rightarrow> agent_env list \<Rightarrow>
    request list \<times> (Agent \<times> world) \<Rightarrow> request list \<times> (Agent \<times> world)" where
  "run_loop error_text r envs st =
     fold (\<lambda>env (reqs, aw). (let (q, aw) = tickOnce error_text r env aw in (reqs @ q, aw))) envs st"

definition Run :: "(tick_error \<Rightarrow> string) \<Rightarrow> Reporter \<Rightarrow> bool \<Rightarrow> agent_env \<Rightarrow> agent_env list \<Rightarrow> Agent \<times> world \<Rightarrow>
    run_result \<times> request list \<times> (Agent \<times> world)" where
  "Run error_text r once env envs aw =
     (if once then (let ((reqs, err), aw) = Tick r env aw in (RunOnce err, reqs, aw))
      else if Interval (cfg (fst aw)) \<le> 0 then (RunRefused (Interval (cfg (fst aw))), [], aw)
      else let (reqs, aw) = run_loop error_text r (env # envs) ([], aw) in (RunCancelled, reqs, aw))"

end
