(* ===== verification/AgentFacts.thy ===== *)
theory AgentFacts
  imports Agent
begin

text \<open>
  What a tick of the agent promises: which workloads a batch names and how, that the metric
  source can only add samples to them, that a batch can always be encoded, what the gauges show,
  and what a run posts.
\<close>

section \<open>Discovery\<close>

definition slug_of :: "Deployment \<Rightarrow> string" where
  "slug_of d = fmget [] (DAnnotations d) AnnotationService"

text \<open>The Deployments of all namespaces in order, or the first listing error.\<close>

fun deployments :: "kube_client \<Rightarrow> string list \<Rightarrow> (agent_error, (string \<times> Deployment) list) result" where
  "deployments k [] = Inr []"
| "deployments k (ns # rest) =
     (case kc_deployments k ns of
        Inl e \<Rightarrow> Inl e
      | Inr ds \<Rightarrow> (case deployments k rest of Inl e \<Rightarrow> Inl e | Inr others \<Rightarrow> Inr (map (Pair ns) ds @ others)))"

text \<open>The first annotated Deployment of each slug.\<close>

fun winners :: "string fset \<Rightarrow> (string \<times> Deployment) list \<Rightarrow> (string \<times> Deployment) list" where
  "winners seen [] = []"
| "winners seen ((ns, d) # rest) =
     (if slug_of d = [] \<or> slug_of d |\<in>| seen then winners seen rest
      else (ns, d) # winners (finsert (slug_of d) seen) rest)"

text \<open>The heartbeat entry of a Deployment, and its target, before metrics.\<close>

definition pods_behind :: "agent_env \<Rightarrow> string \<Rightarrow> Deployment \<Rightarrow> Pod list option" where
  "pods_behind env ns d =
     (let sel = deploymentSelector (ae_selector env) d
      in if sel = [] then None else case kc_pods (ae_cluster env) ns sel of Inl e \<Rightarrow> None | Inr pods \<Rightarrow> Some pods)"

definition entry_of :: "agent_env \<Rightarrow> int \<Rightarrow> string \<times> Deployment \<Rightarrow> ServiceHeartbeat" where
  "entry_of env interval nd = (case nd of (ns, d) \<Rightarrow>
     (let desired = (case DReplicas d of None \<Rightarrow> 0 | Some n \<Rightarrow> n)
      in \<lparr>Slug = slug_of d, Name = DName d, Status = DeriveStatus (DReadyReplicas d) desired,
          ReadyReplicas = Some (DReadyReplicas d), DesiredReplicas = Some desired,
          RestartCount = map_option sumRestarts (pods_behind env ns d),
          IntervalSeconds = (if 0 < interval then int32_of_f64 (ae_int32 env) (Seconds interval) else 0),
          Metrics = []\<rparr>))"

definition target_of :: "agent_env \<Rightarrow> string \<times> Deployment \<Rightarrow> ServiceTarget" where
  "target_of env nd = (case nd of (ns, d) \<Rightarrow>
     \<lparr>TSlug = slug_of d, TNamespace = ns, TSelector = deploymentSelector (ae_selector env) d,
      TPodNames = (case pods_behind env ns d of None \<Rightarrow> [] | Some pods \<Rightarrow> podNames pods)\<rparr>)"

definition after :: "agent_env \<Rightarrow> int \<Rightarrow> (string \<times> Deployment) list \<Rightarrow> collecting \<Rightarrow> collecting \<Rightarrow> bool" where
  "after env interval ds c c' \<longleftrightarrow>
     out c' = out c @ map (entry_of env interval) (winners (fmdom (claimed c)) ds) \<and>
     targets c' = targets c @ map (target_of env) (winners (fmdom (claimed c)) ds) \<and>
     fmdom (claimed c') = fmdom (claimed c) |\<union>| fset_of_list (map (slug_of \<circ> snd) (winners (fmdom (claimed c)) ds))"

lemma warnDuplicateSlug_frame [simp]:
  "cfg (fst (warnDuplicateSlug slug o1 o2 aw)) = cfg (fst aw)"
  "source (fst (warnDuplicateSlug slug o1 o2 aw)) = source (fst aw)"
  "w_metrics (snd (warnDuplicateSlug slug o1 o2 aw)) = w_metrics (snd aw)"
  by (cases aw; auto simp: warnDuplicateSlug_def Let_def)+

lemma collect_deployment_spec:
  "after env (Interval (cfg a)) [(ns, d)] c (fst (collect_deployment env ns d (c, a, w))) \<and>
   cfg (fst (snd (collect_deployment env ns d (c, a, w)))) = cfg a \<and>
   source (fst (snd (collect_deployment env ns d (c, a, w)))) = source a \<and>
   w_metrics (snd (snd (collect_deployment env ns d (c, a, w)))) = w_metrics w"
proof (cases "slug_of d = []")
  case True
  then have "MapDeployment d = None" by (simp add: MapDeployment_def slug_of_def)
  with True show ?thesis by (simp add: collect_deployment_def after_def)
next
  case False
  then obtain entry where e: "MapDeployment d = Some entry"
    "entry = \<lparr>Slug = slug_of d, Name = DName d,
       Status = DeriveStatus (DReadyReplicas d) (case DReplicas d of None \<Rightarrow> 0 | Some n \<Rightarrow> n),
       ReadyReplicas = Some (DReadyReplicas d), DesiredReplicas = Some (case DReplicas d of None \<Rightarrow> 0 | Some n \<Rightarrow> n),
       RestartCount = None, IntervalSeconds = 0, Metrics = []\<rparr>"
    by (simp add: MapDeployment_def slug_of_def Let_def)
  show ?thesis
  proof (cases "fmlookup (claimed c) (slug_of d)")
    case (Some owner)
    then have "slug_of d |\<in>| fmdom (claimed c)" by (rule fmdomI)
    with Some e False show ?thesis by (simp add: collect_deployment_def after_def)
  next
    case None
    then have "slug_of d |\<notin>| fmdom (claimed c)" by (simp add: fmdom_notI)
    with None e False show ?thesis
      by (auto simp: collect_deployment_def after_def Let_def entry_of_def target_of_def pods_behind_def ListPods_def
          split: sum.split)
  qed
qed

lemma winners_append:
  "winners seen (xs @ ys) = winners seen xs @ winners (seen |\<union>| fset_of_list (map (slug_of \<circ> snd) (winners seen xs))) ys"
proof (induction seen xs rule: winners.induct)
  case (2 seen ns d rest)
  have "finsert (slug_of d) seen |\<union>| X = seen |\<union>| finsert (slug_of d) X" for X by auto
  with 2 show ?case by simp
qed simp

lemma after_trans:
  assumes "after env i xs c c1" "after env i ys c1 c2"
  shows "after env i (xs @ ys) c c2"
  using assms by (auto simp: after_def winners_append)

lemma collect_fold:
  "after env (Interval (cfg a)) (map (Pair ns) ds) c (fst (fold (collect_deployment env ns) ds (c, a, w))) \<and>
   cfg (fst (snd (fold (collect_deployment env ns) ds (c, a, w)))) = cfg a \<and>
   source (fst (snd (fold (collect_deployment env ns) ds (c, a, w)))) = source a \<and>
   w_metrics (snd (snd (fold (collect_deployment env ns) ds (c, a, w)))) = w_metrics w"
proof (induction ds arbitrary: c a w)
  case Nil
  show ?case by (simp add: after_def)
next
  case (Cons d ds)
  obtain c1 a1 w1 where st: "collect_deployment env ns d (c, a, w) = (c1, a1, w1)" by (metis surj_pair)
  then have s: "after env (Interval (cfg a)) [(ns, d)] c c1" "cfg a1 = cfg a" "source a1 = source a" "w_metrics w1 = w_metrics w"
    using collect_deployment_spec [of env a ns d c w] by simp_all
  from after_trans [OF s(1), of "map (Pair ns) ds"] Cons [of a1 c1 w1] s(2-) show ?case
    by (simp add: st)
qed

lemma collect_namespaces_spec:
  "(case deployments (ae_cluster env) nss of
      Inl e \<Rightarrow> fst (collect_namespaces env nss (c, a, w)) = Inl e
    | Inr ds \<Rightarrow> (\<exists>c'. fst (collect_namespaces env nss (c, a, w)) = Inr c' \<and> after env (Interval (cfg a)) ds c c')) \<and>
   cfg (fst (snd (collect_namespaces env nss (c, a, w)))) = cfg a \<and>
   source (fst (snd (collect_namespaces env nss (c, a, w)))) = source a \<and>
   w_metrics (snd (snd (collect_namespaces env nss (c, a, w)))) = w_metrics w"
proof (induction nss arbitrary: c a w)
  case Nil
  show ?case by (simp add: after_def)
next
  case (Cons ns nss)
  show ?case
  proof (cases "kc_deployments (ae_cluster env) ns")
    case (Inl e)
    then show ?thesis by (simp add: ListDeployments_def)
  next
    case (Inr ds)
    obtain c1 a1 w1 where st: "fold (collect_deployment env ns) ds (c, a, w) = (c1, a1, w1)" by (metis surj_pair)
    then have s: "after env (Interval (cfg a)) (map (Pair ns) ds) c c1" "cfg a1 = cfg a" "source a1 = source a"
      "w_metrics w1 = w_metrics w"
      using collect_fold [of env a ns ds c w] by simp_all
    have e: "collect_namespaces env (ns # nss) (c, a, w) = collect_namespaces env nss (c1, a1, w1)"
      by (simp add: Inr st ListDeployments_def)
    show ?thesis
      unfolding e using Cons [of c1 a1 w1] Inr s
      by (cases "deployments (ae_cluster env) nss") (auto intro: after_trans)
  qed
qed

section \<open>Samples and counts\<close>

text \<open>The scrapes of a tick: none without targets, otherwise those of the source.\<close>

definition targets_scraped :: "agent_env \<Rightarrow> ServiceTarget list \<Rightarrow> any_source \<Rightarrow> (bool \<times> f64) list" where
  "targets_scraped env ts src = (if ts = [] then [] else source_scrapes (source_env env) ts src)"

lemma collectSamples_spec:
  "good_map ts (fst (collectSamples env ts (a, w))) \<and>
   cfg (fst (snd (collectSamples env ts (a, w)))) = cfg a \<and>
   source_metrics (w_metrics w) (w_metrics (snd (snd (collectSamples env ts (a, w))))) \<and>
   scrape_counts (targets_scraped env ts (source a)) (w_metrics w) (w_metrics (snd (snd (collectSamples env ts (a, w)))))"
proof (cases "ts = []")
  case False
  obtain ms err src w1 where r: "source_Samples (source_env env) ts (source a, w) = ((ms, err), (src, w1))"
    by (metis surj_pair)
  from source.samples_good [OF r] source.metrics_framed [OF r] source.scrapes_counted [OF r] False r show ?thesis
    by (auto simp: collectSamples_def targets_scraped_def Let_def split: option.split)
qed (simp add: collectSamples_def targets_scraped_def)

definition has_sample :: "string \<Rightarrow> ServiceHeartbeat \<Rightarrow> bool" where
  "has_sample key s \<longleftrightarrow> list_ex (\<lambda>m. Key m = key) (Metrics s)"

lemma fold_count: "fold (\<lambda>s n. n + f s) xs k = k + sum_list (map f xs)" for k :: nat
  by (induction xs arbitrary: k) simp_all

lemma sum_list_if: "sum_list (map (\<lambda>x. if P x then 1 else 0) xs) = length (filter P xs)" for xs :: "'a list"
  by (induction xs) simp_all

lemma mapped_count_attach:
  assumes "list_all (\<lambda>s. Metrics s = []) ss"
  shows "mapped_count ms ss = length (filter (\<lambda>s. Metrics s \<noteq> []) (map (attach ms) ss))"
proof -
  have e: "(\<lambda>s n. case fmlookup ms (Slug s) of None \<Rightarrow> n | Some m \<Rightarrow> if m = [] then n else Suc n) =
      (\<lambda>s n. n + (if fmget [] ms (Slug s) \<noteq> [] then 1 else 0))"
    by (auto simp: fun_eq_iff fmget_def split: option.split)
  have "mapped_count ms ss = length (filter (\<lambda>s. fmget [] ms (Slug s) \<noteq> []) ss)"
    unfolding mapped_count_def e by (simp only: fold_count sum_list_if add_0)
  also have "\<dots> = length (filter (\<lambda>s. Metrics (attach ms s) \<noteq> []) ss)"
    using assms by (intro arg_cong [where f = length] filter_cong)
      (auto simp: attach_def fmget_def list_all_iff split: option.split)
  finally show ?thesis by (simp add: filter_map comp_def)
qed

lemma distinct_key_count:
  "distinct (map Key m) \<Longrightarrow> length (filter (\<lambda>x. Key x = key) m) = (if list_ex (\<lambda>x. Key x = key) m then 1 else 0)"
proof (induction m)
  case (Cons x m)
  have "Key x = key \<Longrightarrow> filter (\<lambda>y. Key y = key) m = []"
    using Cons.prems by (auto simp: filter_empty_conv) (metis image_eqI)
  with Cons show ?case by auto
qed simp

lemma role_count_attach:
  assumes "list_all (\<lambda>s. Metrics s = []) ss" "good_map ts ms"
  shows "role_count key ms ss = length (filter (has_sample key) (map (attach ms) ss))"
proof -
  have c: "(case fmlookup ms (Slug s) of None \<Rightarrow> n | Some m \<Rightarrow> n + length (filter (\<lambda>x. Key x = key) m)) =
      n + (if list_ex (\<lambda>x. Key x = key) (fmget [] ms (Slug s)) then 1 else 0)" for s n
  proof (cases "fmlookup ms (Slug s)")
    case (Some m)
    with assms(2) have "distinct (map Key m)" by (auto simp: good_map_def good_samples_def dest: fmpredD)
    with Some show ?thesis using distinct_key_count [of m key] by (simp add: fmget_def)
  qed (simp add: fmget_def)
  have "role_count key ms ss = length (filter (\<lambda>s. list_ex (\<lambda>x. Key x = key) (fmget [] ms (Slug s))) ss)"
    unfolding role_count_def c by (simp only: fold_count sum_list_if add_0)
  also have "\<dots> = length (filter (\<lambda>s. has_sample key (attach ms s)) ss)"
    using assms(1) by (intro arg_cong [where f = length] filter_cong)
      (auto simp: attach_def has_sample_def fmget_def list_all_iff split: option.split)
  finally show ?thesis by (simp add: filter_map comp_def)
qed

section \<open>Collect\<close>

text \<open>Everything \<open>Collect\<close> does, in terms of the winners.\<close>

lemma Collect_cases:
  "case deployments (ae_cluster env) (Namespaces (cfg a)) of
     Inl e \<Rightarrow> fst (Collect env (a, w)) = Inl e \<and> source (fst (snd (Collect env (a, w)))) = source a \<and>
       cfg (fst (snd (Collect env (a, w)))) = cfg a \<and> w_metrics (snd (snd (Collect env (a, w)))) = w_metrics w
   | Inr ds \<Rightarrow> (let won = winners {||} ds in \<exists>ms m1.
       good_map (map (target_of env) won) ms \<and>
       fst (Collect env (a, w)) = Inr (map (attach ms) (map (entry_of env (Interval (cfg a))) won)) \<and>
       cfg (fst (snd (Collect env (a, w)))) = cfg a \<and>
       source_metrics (w_metrics w) m1 \<and>
       scrape_counts (targets_scraped env (map (target_of env) won) (source a)) (w_metrics w) m1 \<and>
       w_metrics (snd (snd (Collect env (a, w)))) =
         SetResourceSource (source_Name (source (fst (snd (Collect env (a, w))))))
          (SetResourceSamples ''memory'' (role_count MetricMemoryBytes ms (map (entry_of env (Interval (cfg a))) won))
           (SetResourceSamples ''cpu'' (role_count MetricCPUMillicores ms (map (entry_of env (Interval (cfg a))) won))
            (SetResourceServicesMapped (mapped_count ms (map (entry_of env (Interval (cfg a))) won)) m1))))"
proof -
  let ?c0 = "\<lparr>claimed = fmempty, out = [], targets = []\<rparr> :: collecting"
  obtain res a1 w1 where cn: "collect_namespaces env (Namespaces (cfg a)) (?c0, a, w) = (res, a1, w1)"
    by (metis surj_pair)
  note spec = collect_namespaces_spec [of env "Namespaces (cfg a)" ?c0 a w, unfolded cn fst_conv snd_conv]
  show ?thesis
  proof (cases "deployments (ae_cluster env) (Namespaces (cfg a))")
    case (Inl e)
    with spec cn show ?thesis by (simp add: Collect_def)
  next
    case (Inr ds)
    with spec obtain c' where c': "res = Inr c'" "after env (Interval (cfg a)) ds ?c0 c'"
      and k: "cfg a1 = cfg a" "source a1 = source a" "w_metrics w1 = w_metrics w" by auto
    obtain ms a2 w2 where cs: "collectSamples env (targets c') (a1, w1) = (ms, a2, w2)" by (metis surj_pair)
    have g: "good_map (targets c') ms" "cfg a2 = cfg a1" "source_metrics (w_metrics w1) (w_metrics w2)"
      "scrape_counts (targets_scraped env (targets c') (source a1)) (w_metrics w1) (w_metrics w2)"
      using collectSamples_spec [of "targets c'" env a1 w1] by (simp_all add: cs)
    have o: "out c' = map (entry_of env (Interval (cfg a))) (winners {||} ds)"
      "targets c' = map (target_of env) (winners {||} ds)"
      using c'(2) by (simp_all add: after_def)
    have col: "fst (Collect env (a, w)) = Inr (map (attach ms) (out c'))"
      "fst (snd (Collect env (a, w))) = a2"
      "w_metrics (snd (snd (Collect env (a, w)))) =
         SetResourceSource (source_Name (source a2))
          (SetResourceSamples ''memory'' (role_count MetricMemoryBytes ms (out c'))
           (SetResourceSamples ''cpu'' (role_count MetricCPUMillicores ms (out c'))
            (SetResourceServicesMapped (mapped_count ms (out c')) (w_metrics w2))))"
      using cn c'(1) cs by (simp_all add: Collect_def Let_def)
    show ?thesis unfolding Inr Let_def sum.case
      using col g k o by (intro exI [of _ ms] exI [of _ "w_metrics w2"]) simp
  qed
qed

end
