(* ===== verification/AgentProps.thy ===== *)
theory AgentProps
  imports AgentFacts
begin

text \<open>
  The properties of the agent: discovery, isolation of status from metrics, encodable batches,
  gauges, and runs.
\<close>

lemma entry_of_simps [simp]:
  "Metrics (entry_of env i nd) = []" "Slug (entry_of env i nd) = slug_of (snd nd)"
  by (cases nd; simp add: entry_of_def Let_def)+

lemma attach_frame [simp]: "(attach ms s)\<lparr>Metrics := []\<rparr> = s\<lparr>Metrics := []\<rparr>" "Slug (attach ms s) = Slug s"
  by (simp_all add: attach_def split: option.split)

lemma entry_cleared [simp]: "(entry_of env i nd)\<lparr>Metrics := []\<rparr> = entry_of env i nd"
  by (cases nd) (simp add: entry_of_def Let_def)

section \<open>Discovery\<close>

text \<open>
  C3. What a batch names: when every namespace can be listed, \<open>Collect\<close> returns one entry per
  service slug, for the first annotated Deployment that carries it in namespace and listing
  order, with exactly that Deployment's replicas, status, interval and, when its pods can be
  listed, restart count; only \<open>Metrics\<close> comes from the source. When a namespace cannot be listed,
  the error of the first such namespace is returned and no batch is built.
\<close>

theorem Collect_names_first_claims:
  "case deployments (ae_cluster env) (Namespaces (cfg a)) of
     Inl e \<Rightarrow> fst (Collect env (a, w)) = Inl e
   | Inr ds \<Rightarrow> (case fst (Collect env (a, w)) of
       Inl e \<Rightarrow> False
     | Inr services \<Rightarrow>
         map (\<lambda>s. s\<lparr>Metrics := []\<rparr>) services = map (entry_of env (Interval (cfg a))) (winners {||} ds))"
  using Collect_cases [of env a w]
  by (auto simp: Let_def comp_def split: sum.splits)

lemma winners_distinct:
  "distinct (map (slug_of \<circ> snd) (winners seen ds)) \<and>
   set (map (slug_of \<circ> snd) (winners seen ds)) \<inter> fset seen = {} \<and>
   [] \<notin> set (map (slug_of \<circ> snd) (winners seen ds))"
  by (induction seen ds rule: winners.induct) auto

lemma winners_complete:
  "(ns, d) \<in> set ds \<Longrightarrow> slug_of d \<noteq> [] \<Longrightarrow> slug_of d |\<in>| seen \<or> slug_of d \<in> set (map (slug_of \<circ> snd) (winners seen ds))"
  by (induction seen ds rule: winners.induct) (auto split: if_splits)

text \<open>
  No service is reported twice and none is forgotten: the slugs of a batch are pairwise
  distinct and nonempty, and every annotated Deployment of a listed namespace has its slug in
  the batch.
\<close>

theorem Collect_slugs:
  "case deployments (ae_cluster env) (Namespaces (cfg a)) of
     Inl e \<Rightarrow> True
   | Inr ds \<Rightarrow> (case fst (Collect env (a, w)) of
       Inl e \<Rightarrow> False
     | Inr services \<Rightarrow> distinct (map Slug services) \<and> [] \<notin> set (map Slug services) \<and>
         set (map Slug services) = set (filter (\<lambda>slug. slug \<noteq> []) (map (slug_of \<circ> snd) ds)))"
proof (cases "deployments (ae_cluster env) (Namespaces (cfg a))")
  case (Inr ds)
  then obtain ms where c: "fst (Collect env (a, w)) =
      Inr (map (attach ms) (map (entry_of env (Interval (cfg a))) (winners {||} ds)))"
    using Collect_cases [of env a w] by (auto simp: Let_def)
  have sub: "set (winners seen ds) \<subseteq> set ds" for seen
    by (induction seen ds rule: winners.induct) auto
  have s: "map Slug (map (attach ms) (map (entry_of env (Interval (cfg a))) (winners {||} ds))) =
      map (slug_of \<circ> snd) (winners {||} ds)" by simp
  have "set (map (slug_of \<circ> snd) (winners {||} ds)) = set (filter (\<lambda>slug. slug \<noteq> []) (map (slug_of \<circ> snd) ds))"
  proof (intro equalityI subsetI)
    fix slug assume w: "slug \<in> set (map (slug_of \<circ> snd) (winners {||} ds))"
    with winners_distinct [of "{||}" ds] have "slug \<noteq> []" by blast
    with w show "slug \<in> set (filter (\<lambda>slug. slug \<noteq> []) (map (slug_of \<circ> snd) ds))"
      using sub [of "{||}"] by auto
  next
    fix slug assume "slug \<in> set (filter (\<lambda>slug. slug \<noteq> []) (map (slug_of \<circ> snd) ds))"
    then obtain ns d where "(ns, d) \<in> set ds" "slug_of d = slug" "slug \<noteq> []" by auto
    then show "slug \<in> set (map (slug_of \<circ> snd) (winners {||} ds))"
      using winners_complete [of ns d ds "{||}"] by simp
  qed
  with Inr c show ?thesis using winners_distinct [of "{||}" ds] by (simp only: sum.case s simp_thms)
qed simp

text \<open>
  C8. Resource metrics never cost uptime: what \<open>Collect\<close> reports apart from \<open>Metrics\<close>, and
  whether it fails, is the same whatever the metric source is, whatever state it is in, and
  whatever metrics-server, the exposition and the clocks answer.
\<close>

theorem status_independent_of_metrics:
  "map_sum id (map (\<lambda>s. s\<lparr>Metrics := []\<rparr>)) (fst (Collect env (a, w))) =
   map_sum id (map (\<lambda>s. s\<lparr>Metrics := []\<rparr>)) (fst (Collect
     (env\<lparr>ae_tick := tick, ae_cluster := (ae_cluster env)\<lparr>kc_metrics := km\<rparr>, ae_done := d\<rparr>)
     (a\<lparr>source := src\<rparr>, w')))"
proof -
  let ?env = "env\<lparr>ae_tick := tick, ae_cluster := (ae_cluster env)\<lparr>kc_metrics := km\<rparr>, ae_done := d\<rparr>"
  have ds: "deployments (ae_cluster ?env) nss = deployments (ae_cluster env) nss" for nss
    by (induction nss) (simp_all split: sum.split)
  have pods: "pods_behind ?env ns dep = pods_behind env ns dep" for ns dep
    by (simp add: pods_behind_def Let_def)
  have e: "entry_of ?env i nd = entry_of env i nd" for i nd
    by (cases nd) (simp add: entry_of_def pods Let_def)
  show ?thesis
    using Collect_cases [of env a w] Collect_cases [of ?env "a\<lparr>source := src\<rparr>" w']
    unfolding ds by (auto simp: Let_def comp_def e split: sum.splits)
qed

section \<open>Encodable batches\<close>

lemma attach_floats:
  assumes "good_map ts ms" "Metrics s = []"
  shows "list_all (\<lambda>m. is_float64 (Value m)) (Metrics (attach ms s))"
  using assms by (auto simp: attach_def good_map_def good_samples_def dest: fmpredD split: option.split)

lemma Collect_floats:
  assumes "fst (Collect env (a, w)) = Inr services"
  shows "batch_floats \<lparr>ProductID = p, Source = src, Services = services\<rparr>"
proof -
  from assms obtain ds ms where "services = map (attach ms) (map (entry_of env (Interval (cfg a))) (winners {||} ds))"
    "good_map (map (target_of env) (winners {||} ds)) ms"
    using Collect_cases [of env a w]
    by (cases "deployments (ae_cluster env) (Namespaces (cfg a))") (auto simp: Let_def)
  then show ?thesis by (auto simp: batch_floats_def list_all_iff dest!: attach_floats [unfolded list_all_iff])
qed

lemmas Collect_finite = batch_floats_finite [OF Collect_floats]

lemma Tick_eq:
  "Tick r env (a, w) =
     (case Collect env (a, w) of
        (Inl e, a1, w1) \<Rightarrow> (([], Some (TickCollect e)), (a1, w1))
      | (Inr services, a1, w1) \<Rightarrow>
          if services = [] then (([], None), (a1, log (LogNoWorkloads AnnotationService) (on_metrics (SetServicesReported 0) w1)))
          else let batch = \<lparr>ProductID = CfgProductID (cfg a1), Source = CfgSource (cfg a1), Services = services\<rparr>;
                   s = Send r (ae_send env) batch w1
               in ((fst (fst s), map_option TickSend (snd (fst s))), (a1,
                   if snd (fst s) = None then log (LogHeartbeatSent (length services))
                     (on_metrics (SetServicesReported (length services)) (snd s)) else snd s)))"
  by (auto simp: Tick_def Let_def split_beta split: prod.split sum.split option.split)

text \<open>
  C1. A batch can always be encoded: whatever the cluster, the source and the peers answer, no
  tick ever fails because its batch holds a value JSON cannot represent, so one bad sample
  never takes the statuses and restart counts of a batch down with it.
\<close>

theorem Tick_batch_encodable:
  "snd (fst (Tick r env (a, w))) \<noteq> Some (TickSend SendMarshal) \<and>
   filter (\<lambda>q. \<not> json_finite (rq_body q)) (fst (fst (Tick r env (a, w)))) = []"
proof -
  obtain res a1 w1 where c: "Collect env (a, w) = (res, a1, w1)" by (metis surj_pair)
  show ?thesis
  proof (cases res)
    case (Inl e)
    then show ?thesis by (simp add: Tick_eq c)
  next
    case (Inr services)
    let ?batch = "\<lparr>ProductID = CfgProductID (cfg a1), Source = CfgSource (cfg a1), Services = services\<rparr>"
    have f: "json_finite ?batch" using Collect_finite [of env a w services] c Inr by simp
    have "snd (post r (ae_send env) ?batch) \<noteq> Some SendMarshal"
      using f by (auto simp: post_def Marshal_eq Let_def split: option.splits prod.splits sum.splits if_splits)
    moreover have "\<forall>q \<in> set (fst (post r (ae_send env) ?batch)). rq_body q = ?batch"
      by (auto simp: post_def Marshal_eq Let_def split: option.splits prod.splits)
    ultimately show ?thesis using f
      by (auto simp: Tick_eq c Inr Let_def Send_simps filter_empty_conv)
  qed
qed

section \<open>The gauges\<close>

text \<open>
  C39. The gauges of a tick agree with its batch: with self-metrics enabled and the namespaces
  listed, services-mapped is the number of services that carry samples, resource-samples of a
  role is the number of services that carry a sample of that role, and the source gauge is 1
  for the name the source reports after the tick.
\<close>

theorem Collect_gauges:
  "case (fst (Collect env (a, Wm)), w_metrics (snd (snd (Collect env (a, Wm))))) of
     (Inr services, Some m') \<Rightarrow>
       resourceServicesMapped m' = f64_of_int (int (length (filter (\<lambda>s. Metrics s \<noteq> []) services))) \<and>
       fmget NaN (resourceSamples m') ''cpu'' =
         f64_of_int (int (length (filter (has_sample MetricCPUMillicores) services))) \<and>
       fmget NaN (resourceSamples m') ''memory'' =
         f64_of_int (int (length (filter (has_sample MetricMemoryBytes) services))) \<and>
       fmlookup (resourceSource m') (source_Name (source (fst (snd (Collect env (a, Wm)))))) = Some (Fin 1)
   | _ \<Rightarrow> True"
proof (cases "deployments (ae_cluster env) (Namespaces (cfg a))")
  case (Inl e)
  then show ?thesis using Collect_cases [of env a Wm] by simp
next
  case (Inr ds)
  let ?won = "winners {||} ds" and ?src = "source_Name (source (fst (snd (Collect env (a, Wm)))))"
  let ?es = "map (entry_of env (Interval (cfg a))) ?won"
  obtain ms m1 where c: "good_map (map (target_of env) ?won) ms"
    "fst (Collect env (a, Wm)) = Inr (map (attach ms) ?es)"
    "w_metrics (snd (snd (Collect env (a, Wm)))) = SetResourceSource ?src
       (SetResourceSamples ''memory'' (role_count MetricMemoryBytes ms ?es)
        (SetResourceSamples ''cpu'' (role_count MetricCPUMillicores ms ?es)
         (SetResourceServicesMapped (mapped_count ms ?es) m1)))"
    using Collect_cases [of env a Wm] Inr by (auto simp: Let_def)
  have n: "?src \<in> set ResourceSources" by (rule source.name_exported)
  have e: "list_all (\<lambda>s. Metrics s = []) ?es" by (simp add: list_all_iff)
  show ?thesis
  proof (cases m1)
    case None
    then show ?thesis
      unfolding c(2,3) by (simp add: SetResourceSource_def SetResourceSamples_def SetResourceServicesMapped_def)
  next
    case (Some m)
    then show ?thesis
      unfolding c(2,3) using n
      by (simp add: SetResourceSource_def SetResourceSamples_def SetResourceServicesMapped_def Let_def
          fold_fmupd_lookup mapped_count_attach [OF e] role_count_attach [OF e c(1)])
  qed
qed

section \<open>Runs\<close>

lemma Tick_requests:
  "length (fst (fst (Tick (NewReporter base key timeout) env (a, w)))) \<le> 1 \<and>
   (\<forall>q \<in> set (fst (fst (Tick (NewReporter base key timeout) env (a, w)))).
      rq_url q = heartbeat_url (NewReporter base key timeout) \<and> json_finite (rq_body q) \<and> Services (rq_body q) \<noteq> [])"
proof -
  obtain res a1 w1 where c: "Collect env (a, w) = (res, a1, w1)" by (metis surj_pair)
  show ?thesis
  proof (cases res)
    case (Inl e)
    then show ?thesis by (simp add: Tick_eq c)
  next
    case (Inr services)
    have f: "json_finite \<lparr>ProductID = CfgProductID (cfg a1), Source = CfgSource (cfg a1), Services = services\<rparr>"
      using Collect_finite [of env a w services] c Inr by simp
    then show ?thesis
      by (auto simp: Tick_eq c Inr Let_def Send_simps post_NewReporter split: option.split)
  qed
qed

lemma run_loop_requests:
  assumes "length reqs \<le> n" "list_all P reqs"
    and "\<And>env a w. length (fst (fst (Tick r env (a, w)))) \<le> 1 \<and> list_all P (fst (fst (Tick r env (a, w))))"
  shows "length (fst (run_loop etxt r envs (reqs, aw))) \<le> n + length envs \<and> list_all P (fst (run_loop etxt r envs (reqs, aw)))"
  using assms(1,2)
proof (induction envs arbitrary: reqs aw n)
  case (Cons env envs)
  obtain a w where aw: "aw = (a, w)" by fastforce
  obtain q aw' where t: "tickOnce etxt r env aw = (q, aw')" by (metis surj_pair)
  then have "q = fst (fst (Tick r env (a, w)))"
    by (auto simp: tickOnce_def aw split: prod.splits)
  with assms(3) [of env a w] Cons.prems have "length (reqs @ q) \<le> Suc n" "list_all P (reqs @ q)" by auto
  from Cons.IH [OF this, of aw'] show ?case by (simp add: run_loop_def t)
qed (simp add: run_loop_def)

text \<open>
  A run of the agent posts at most one request per tick, every one to the heartbeat URL of
  the configured base and with a nonempty batch JSON can represent; a run without a positive
  interval is refused without a single tick, and neither failing ticks nor anything a peer
  answers ends a run, which returns only when its context is done.
\<close>

theorem Run_posts:
  "case Run etxt (NewReporter base key timeout) once env envs (a, w) of (res, reqs, aw') \<Rightarrow>
     length reqs \<le> (if once then 1 else if Interval (cfg a) \<le> 0 then 0 else Suc (length envs)) \<and>
     list_all (\<lambda>q. rq_url q = TrimRight base (CHR ''/'') @ ''/api/runtime/heartbeat'' \<and>
       json_finite (rq_body q) \<and> Services (rq_body q) \<noteq> []) reqs \<and>
     (res = RunCancelled \<longleftrightarrow> \<not> once \<and> 0 < Interval (cfg a))"
proof -
  let ?r = "NewReporter base key timeout"
  let ?P = "\<lambda>q. rq_url q = heartbeat_url ?r \<and> json_finite (rq_body q) \<and> Services (rq_body q) \<noteq> []"
  have u: "heartbeat_url ?r = TrimRight base (CHR ''/'') @ ''/api/runtime/heartbeat''"
    by (simp add: heartbeat_url_def NewReporter_def)
  have t: "length (fst (fst (Tick ?r env (a, w)))) \<le> 1 \<and> list_all ?P (fst (fst (Tick ?r env (a, w))))" for env a w
    using Tick_requests [of base key timeout env a w] by (simp add: list_all_iff)
  have l: "length (fst (run_loop etxt ?r (env # envs) ([], (a, w)))) \<le> Suc (length envs)"
    "list_all ?P (fst (run_loop etxt ?r (env # envs) ([], (a, w))))"
    using run_loop_requests [of "[]" 0 ?P ?r etxt "env # envs" "(a, w)", OF _ _ t] by simp_all
  show ?thesis
    using t [of env a w] l unfolding u
    by (auto simp: Run_def split_beta filter_empty_conv list_all_iff)
qed

end
