(* ===== verification/TickSpec.thy ===== *)
theory TickSpec
  imports AgentProps
begin

text \<open>
  A tick and a run stated without the state of the agent: what they post, when they fail, which
  attempts and scrapes they make, as functions of what the cluster, the network and the peers answer.
\<close>

section \<open>One tick\<close>

text \<open>The entries of a tick without their samples, or the listing error.\<close>

definition tick_services :: "agent_env \<Rightarrow> Config \<Rightarrow> (agent_error, ServiceHeartbeat list) result" where
  "tick_services env c =
     (case deployments (ae_cluster env) (Namespaces c) of
        Inl e \<Rightarrow> Inl e
      | Inr ds \<Rightarrow> Inr (map (entry_of env (Interval c)) (winners {||} ds)))"

text \<open>What is compared of a request: its URL, its headers and its batch without the samples.\<close>

definition request_content :: "request \<Rightarrow> string \<times> (string \<times> string) list \<times> HeartbeatBatch" where
  "request_content q = (rq_url q, rq_headers q,
     (rq_body q)\<lparr>Services := map (\<lambda>s. s\<lparr>Metrics := []\<rparr>) (Services (rq_body q))\<rparr>)"

definition heartbeat_content :: "string \<Rightarrow> string \<Rightarrow> Config \<Rightarrow> ServiceHeartbeat list \<Rightarrow>
    string \<times> (string \<times> string) list \<times> HeartbeatBatch" where
  "heartbeat_content base key c services =
     (TrimRight base (CHR ''/'') @ ''/api/runtime/heartbeat'',
      [(''Content-Type'', ''application/json''), (''X-API-Key'', key)],
      \<lparr>ProductID = CfgProductID c, Source = CfgSource c, Services = services\<rparr>)"

text \<open>Whether a request to the API can be built, and whether the API accepts it.\<close>

definition request_builds :: "string \<Rightarrow> send_env \<Rightarrow> bool" where
  "request_builds base env \<longleftrightarrow>
     env_new_request env (TrimRight base (CHR ''/'') @ ''/api/runtime/heartbeat'') = None"

definition api_accepts :: "string \<Rightarrow> send_env \<Rightarrow> bool" where
  "api_accepts base env \<longleftrightarrow> request_builds base env \<and>
     (case env_send env (TrimRight base (CHR ''/'') @ ''/api/runtime/heartbeat'') of
        Inl e \<Rightarrow> False | Inr resp \<Rightarrow> StatusCode resp < 300)"

text \<open>What a tick posts, whether it fails, and its attempts to post: the outcome, the duration and
  the time of each.\<close>

definition tick_posts :: "string \<Rightarrow> string \<Rightarrow> Config \<Rightarrow> agent_env \<Rightarrow>
    (string \<times> (string \<times> string) list \<times> HeartbeatBatch) list" where
  "tick_posts base key c env = (case tick_services env c of
     Inl e \<Rightarrow> []
   | Inr services \<Rightarrow>
       if services \<noteq> [] \<and> request_builds base (ae_send env) then [heartbeat_content base key c services] else [])"

definition tick_fails :: "string \<Rightarrow> Config \<Rightarrow> agent_env \<Rightarrow> bool" where
  "tick_fails base c env \<longleftrightarrow> (case tick_services env c of
     Inl e \<Rightarrow> True
   | Inr services \<Rightarrow> services \<noteq> [] \<and> \<not> api_accepts base (ae_send env))"

definition tick_attempts :: "string \<Rightarrow> Config \<Rightarrow> agent_env \<Rightarrow> (bool \<times> f64 \<times> f64) list" where
  "tick_attempts base c env = (case tick_services env c of
     Inl e \<Rightarrow> []
   | Inr services \<Rightarrow> if services = [] then []
       else [(api_accepts base (ae_send env), se_seconds (ae_send env), se_now (ae_send env))])"

text \<open>The scrapes of a tick that finds the source in the given state.\<close>

definition tick_scrapes :: "Config \<Rightarrow> agent_env \<Rightarrow> any_source \<Rightarrow> (bool \<times> f64) list" where
  "tick_scrapes c env src = (case deployments (ae_cluster env) (Namespaces c) of
     Inl e \<Rightarrow> []
   | Inr ds \<Rightarrow> targets_scraped env (map (target_of env) (winners {||} ds)) src)"

lemma Collect_services:
  "case tick_services env (cfg a) of
     Inl e \<Rightarrow> fst (Collect env (a, w)) = Inl e
   | Inr bare \<Rightarrow> \<exists>services. fst (Collect env (a, w)) = Inr services \<and> map (\<lambda>s. s\<lparr>Metrics := []\<rparr>) services = bare"
  using Collect_cases [of env a w] by (auto simp: tick_services_def Let_def comp_def split: sum.splits)

lemma Collect_same_cfg: "cfg (fst (snd (Collect env (a, w)))) = cfg a"
  using Collect_cases [of env a w] by (auto simp: Let_def split: sum.splits)

lemma heartbeat_url_New: "heartbeat_url (NewReporter base key timeout) = TrimRight base (CHR ''/'') @ ''/api/runtime/heartbeat''"
  by (simp add: heartbeat_url_def NewReporter_def)

text \<open>One POST of a batch that can be encoded.\<close>

lemma post_spec:
  assumes "json_finite batch"
  shows "map request_content (fst (post (NewReporter base key timeout) env batch)) =
      (if request_builds base env
       then [request_content \<lparr>rq_url = TrimRight base (CHR ''/'') @ ''/api/runtime/heartbeat'',
          rq_headers = [(''Content-Type'', ''application/json''), (''X-API-Key'', key)], rq_body = batch,
          rq_bytes = json_text (json_batch batch)\<rparr>] else [])"
    and "snd (post (NewReporter base key timeout) env batch) = None \<longleftrightarrow> api_accepts base env"
  using assms by (auto simp: post_NewReporter heartbeat_url_New request_builds_def api_accepts_def
      split: option.split sum.split)

lemma Tick_spec:
  "map request_content (fst (fst (Tick (NewReporter base key timeout) env (a, w)))) = tick_posts base key (cfg a) env"
  "(snd (fst (Tick (NewReporter base key timeout) env (a, w))) = None) = (\<not> tick_fails base (cfg a) env)"
  "cfg (fst (snd (Tick (NewReporter base key timeout) env (a, w)))) = cfg a"
proof -
  obtain res a1 w1 where c: "Collect env (a, w) = (res, a1, w1)" by (metis surj_pair)
  then have cfg: "cfg a1 = cfg a" using Collect_same_cfg [of env a w] by simp
  have "map request_content (fst (fst (Tick (NewReporter base key timeout) env (a, w)))) = tick_posts base key (cfg a) env \<and>
      (snd (fst (Tick (NewReporter base key timeout) env (a, w))) = None) = (\<not> tick_fails base (cfg a) env) \<and>
      cfg (fst (snd (Tick (NewReporter base key timeout) env (a, w)))) = cfg a"
  proof (cases "tick_services env (cfg a)")
    case (Inl e)
    then have "res = Inl e" using Collect_services [of env a w] c by simp
    then show ?thesis by (simp add: Tick_eq c Inl cfg tick_posts_def tick_fails_def)
  next
    case (Inr bare)
    then obtain services where s: "res = Inr services" "map (\<lambda>s. s\<lparr>Metrics := []\<rparr>) services = bare"
      using Collect_services [of env a w] c by auto
    let ?batch = "\<lparr>ProductID = CfgProductID (cfg a), Source = CfgSource (cfg a), Services = services\<rparr>"
    have "json_finite ?batch" using Collect_finite [of env a w services] c s(1) by simp
    from post_spec [OF this, of base key timeout "ae_send env"] show ?thesis using s
      by (auto simp: Tick_eq c Inr cfg Let_def Send_simps tick_posts_def tick_fails_def request_content_def heartbeat_content_def)
  qed
  then show "map request_content (fst (fst (Tick (NewReporter base key timeout) env (a, w)))) = tick_posts base key (cfg a) env"
    "(snd (fst (Tick (NewReporter base key timeout) env (a, w))) = None) = (\<not> tick_fails base (cfg a) env)"
    "cfg (fst (snd (Tick (NewReporter base key timeout) env (a, w)))) = cfg a" by blast+
qed

text \<open>A tick that delivers says so last.\<close>

lemma Tick_delivers:
  assumes "tick_services env (cfg a) = Inr services" "services \<noteq> []" "api_accepts base (ae_send env)"
  shows "\<exists>w1. w_log (snd (snd (Tick (NewReporter base key timeout) env (a, w)))) =
    w_log w1 @ [LogHeartbeatSent (length services)] \<and> w1 = snd (snd (Collect env (a, w)))"
proof -
  obtain res a1 w1 where c: "Collect env (a, w) = (res, a1, w1)" by (metis surj_pair)
  obtain ss where s: "res = Inr ss" "map (\<lambda>s. s\<lparr>Metrics := []\<rparr>) ss = services"
    using Collect_services [of env a w] c assms(1) by auto
  have "snd (fst (Tick (NewReporter base key timeout) env (a, w))) = None"
    using assms by (simp add: Tick_spec tick_fails_def)
  moreover have "length ss = length services" using s(2) by auto
  ultimately show ?thesis using s assms(2) by (auto simp: Tick_eq c Let_def Send_simps)
qed

lemma tickOnce_Tick:
  "fst (tickOnce etxt r env (a, w)) = fst (fst (Tick r env (a, w)))"
  "fst (snd (tickOnce etxt r env (a, w))) = fst (snd (Tick r env (a, w)))"
  "w_metrics (snd (snd (tickOnce etxt r env (a, w)))) = w_metrics (snd (snd (Tick r env (a, w))))"
  "snd (fst (Tick r env (a, w))) = None \<Longrightarrow> snd (snd (tickOnce etxt r env (a, w))) = snd (snd (Tick r env (a, w)))"
  by (auto simp: tickOnce_def Let_def split: prod.split option.split)

section \<open>Runs\<close>

lemma run_loop_spec:
  "cfg a = c \<Longrightarrow>
   map request_content (fst (run_loop etxt (NewReporter base key timeout) envs (reqs, (a, w)))) =
     map request_content reqs @ concat (map (tick_posts base key c) envs)"
proof (induction envs arbitrary: reqs a w)
  case (Cons env envs)
  obtain q a1 w1 where t: "tickOnce etxt (NewReporter base key timeout) env (a, w) = (q, (a1, w1))" by (metis surj_pair)
  have q: "map request_content q = tick_posts base key c env" "cfg a1 = c"
    using tickOnce_Tick(1,2) [of etxt "NewReporter base key timeout" env a w] Tick_spec(1,3) [of base key timeout env a w] Cons.prems
    by (simp_all add: t)
  have "run_loop etxt (NewReporter base key timeout) (env # envs) (reqs, (a, w)) =
      run_loop etxt (NewReporter base key timeout) envs (reqs @ q, (a1, w1))"
    by (simp add: run_loop_def t)
  with Cons.IH [OF q(2), of "reqs @ q" w1] q(1) show ?case by simp
qed (simp add: run_loop_def)

lemma Run_spec:
  "case Run etxt (NewReporter base key timeout) once env envs (a, w) of (res, reqs, aw) \<Rightarrow>
     map request_content reqs =
       (if once then tick_posts base key (cfg a) env
        else if 0 < Interval (cfg a) then concat (map (tick_posts base key (cfg a)) (env # envs)) else []) \<and>
     (case res of
        RunOnce err \<Rightarrow> once \<and> (err \<noteq> None) = tick_fails base (cfg a) env
      | RunRefused i \<Rightarrow> \<not> once \<and> i = Interval (cfg a) \<and> i \<le> 0
      | RunCancelled \<Rightarrow> \<not> once \<and> 0 < Interval (cfg a))"
proof -
  let ?r = "NewReporter base key timeout"
  have "map request_content (fst (run_loop etxt ?r (env # envs) ([], (a, w)))) = concat (map (tick_posts base key (cfg a)) (env # envs))"
    using run_loop_spec [of a "cfg a" etxt base key timeout "env # envs" "[]" w] by simp
  then show ?thesis
    using Tick_spec [of base key timeout env a w] by (auto simp: Run_def split_beta)
qed


end
