(* ===== verification/Listener.thy ===== *)
theory Listener
  imports MetricSource Http
begin

text \<open>
  The HTTP side of \<open>internal/metrics/metrics.go\<close>: \<open>Handler\<close>, the server \<open>Serve\<close> starts, when and
  with what \<open>Serve\<close> returns, and the goroutine \<open>run\<close> of \<open>main.go\<close> starts around it. What
  \<open>promhttp.HandlerFor\<close> answers for the collectors of a registry is a parameter. A handler is a
  function of the cleaned path of a request, as \<open>http.ServeMux\<close> hands it out.
\<close>

section \<open>The handler\<close>

type_synonym handler = "string \<Rightarrow> http_response"

definition NotFoundHandler :: handler where
  "NotFoundHandler path = \<lparr>StatusCode = 404, RespStatus = ''404 Not Found'', Location = None,
     RespBody = \<lparr>body_bytes = ''404 page not found'' @ [CHR 10], body_error = None\<rparr>\<rparr>"

definition Handler :: "(collector list \<Rightarrow> handler) \<Rightarrow> obs_metrics option \<Rightarrow> handler" where
  "Handler HandlerFor m = (case m of None \<Rightarrow> NotFoundHandler | Some m \<Rightarrow> HandlerFor (registered m))"

text \<open>\<open>http.ServeMux\<close> with patterns that do not end in a slash: a pattern matches its own path.\<close>

definition ServeMux :: "(string \<times> handler) list \<Rightarrow> handler" where
  "ServeMux routes path = (case map_of routes path of None \<Rightarrow> NotFoundHandler path | Some h \<Rightarrow> h path)"

section \<open>The server\<close>

record http_server =
  SrvAddr :: string
  SrvHandler :: handler
  ReadHeaderTimeout :: int
  WriteTimeout :: int
  IdleTimeout :: int
  MaxHeaderBytes :: int

definition metrics_server :: "(collector list \<Rightarrow> handler) \<Rightarrow> obs_metrics option \<Rightarrow> string \<Rightarrow> http_server" where
  "metrics_server HandlerFor m addr =
     \<lparr>SrvAddr = addr, SrvHandler = ServeMux [(''/metrics'', Handler HandlerFor m)],
      ReadHeaderTimeout = 5 * 1000000000, WriteTimeout = 10 * 1000000000, IdleTimeout = 60 * 1000000000,
      MaxHeaderBytes = push_bit 20 1\<rparr>"

text \<open>\<open>Serve\<close> waits for the first of two events: the context is done, with its error and with what
  \<open>Shutdown\<close> returns within its limit (\<open>None\<close> when every connection was closed in time), or the
  listener stops with an error (\<open>ListenAndServe\<close> never returns nil).\<close>

datatype serve_event =
    ServeContextDone string "string option"
  | ListenStopped string

definition Serve :: "obs_metrics option \<Rightarrow> serve_event \<Rightarrow> string option" where
  "Serve m event = (case m of
     None \<Rightarrow> None
   | Some _ \<Rightarrow> (case event of
       ServeContextDone ctx_err shutdown_err \<Rightarrow> Some ctx_err
     | ListenStopped e \<Rightarrow> Some e))"

text \<open>The goroutine around it.\<close>

definition serve_report :: "string option \<Rightarrow> bool \<Rightarrow> world \<Rightarrow> world" where
  "serve_report err cancelled w = (case err of
     None \<Rightarrow> w
   | Some e \<Rightarrow> if \<not> cancelled then log (LogMetricsServerStopped e) w else w)"

lemma serve_report_metrics [simp]: "w_metrics (serve_report err cancelled w) = w_metrics w"
  by (simp add: serve_report_def split: option.split)

lemma metrics_server_routes:
  "SrvHandler (metrics_server HandlerFor m addr) path =
     (if path = ''/metrics'' then Handler HandlerFor m path else NotFoundHandler path)"
  by (simp add: metrics_server_def ServeMux_def)

end
