(* ===== verification/Process.thy ===== *)
theory Process
  imports TickSpec Listener
begin

text \<open>
  The long-running process as a step relation: ticks of \<open>Agent.Run\<close>, the end of the self-metrics
  listener (\<open>Metrics.Serve\<close> and the goroutine \<open>run\<close> in \<open>main.go\<close> starts for it), the signal that
  cancels the context, and the return of \<open>Run\<close>, in every interleaving the program allows. It
  states what every batch of every execution looks like, that a tick delivers whatever happened before
  it, what a shutdown does not report, and that the executable \<open>Run\<close> is one of the executions.
\<close>

section \<open>The process\<close>

datatype listener = ListenerOff | ListenerUp | ListenerStopped

text \<open>\<open>pr_ticks\<close> is no state of the program: it records the ticks made so far, each with its surroundings and the
  metric source it found, so that what the program claims can be compared with what happened.\<close>

record process =
  pr_agent :: Agent
  pr_world :: world
  pr_requests :: "request list"
  pr_cancelled :: bool
  pr_listener :: listener
  pr_ticked :: bool
  pr_returned :: bool
  pr_ticks :: "(agent_env \<times> any_source) list"

definition process_start :: "Agent \<Rightarrow> world \<Rightarrow> process" where
  "process_start a w = \<lparr>pr_agent = a, pr_world = w, pr_requests = [], pr_cancelled = False,
     pr_listener = (if w_metrics w = None then ListenerOff else ListenerUp), pr_ticked = False, pr_returned = False, pr_ticks = []\<rparr>"

text \<open>What a tick leaves; the context may become done during it, but is never undone.\<close>

definition process_tick :: "(tick_error \<Rightarrow> string) \<Rightarrow> Reporter \<Rightarrow> agent_env \<Rightarrow> process \<Rightarrow> process" where
  "process_tick etxt r env p =
     (let (reqs, (a, w)) = tickOnce etxt r env (pr_agent p, pr_world p)
      in p\<lparr>pr_agent := a, pr_world := w, pr_requests := pr_requests p @ reqs,
           pr_cancelled := ae_tick_done env, pr_ticked := True,
           pr_ticks := pr_ticks p @ [(env, source (pr_agent p))]\<rparr>)"

definition tick_allowed :: "agent_env \<Rightarrow> process \<Rightarrow> bool" where
  "tick_allowed env p \<longleftrightarrow> \<not> pr_returned p \<and> (pr_cancelled p \<le> ae_done env) \<and> (ae_done env \<le> ae_tick_done env)"

text \<open>The first tick of \<open>Run\<close> comes before its loop; the loop may still take a tick that is due
  when the context is done, because \<open>select\<close> chooses among the ready cases.\<close>

inductive process_step :: "(tick_error \<Rightarrow> string) \<Rightarrow> Reporter \<Rightarrow> process \<Rightarrow> process \<Rightarrow> bool" for etxt r where
  tick: "tick_allowed env p \<Longrightarrow> process_step etxt r p (process_tick etxt r env p)"
| signal: "process_step etxt r p (p\<lparr>pr_cancelled := True\<rparr>)"
| listener_stops: "pr_listener p = ListenerUp \<Longrightarrow>
    process_step etxt r p (p\<lparr>pr_listener := ListenerStopped,
      pr_world := serve_report (Serve (w_metrics (pr_world p)) (ListenStopped e)) (pr_cancelled p) (pr_world p)\<rparr>)"
| listener_done: "pr_listener p = ListenerUp \<Longrightarrow> pr_cancelled p \<Longrightarrow>
    process_step etxt r p (p\<lparr>pr_listener := ListenerStopped,
      pr_world := serve_report (Serve (w_metrics (pr_world p)) (ServeContextDone e sd)) (pr_cancelled p) (pr_world p)\<rparr>)"
| return: "pr_ticked p \<Longrightarrow> pr_cancelled p \<Longrightarrow> process_step etxt r p (p\<lparr>pr_returned := True\<rparr>)"

inductive_cases process_stepE: "process_step etxt r p p'"

inductive process_reach :: "(tick_error \<Rightarrow> string) \<Rightarrow> Reporter \<Rightarrow> process \<Rightarrow> process \<Rightarrow> bool" for etxt r where
  here: "process_reach etxt r p p"
| further: "process_reach etxt r p q \<Longrightarrow> process_step etxt r q s \<Longrightarrow> process_reach etxt r p s"

lemma process_reach_trans:
  "process_reach etxt r q s \<Longrightarrow> process_reach etxt r p q \<Longrightarrow> process_reach etxt r p s"
  by (induction rule: process_reach.induct) (auto intro: process_reach.further)

lemma process_reach_step: "process_step etxt r p q \<Longrightarrow> process_reach etxt r p q"
  by (blast intro: process_reach.intros)

section \<open>Well-formed heartbeats\<close>

definition good_service :: "ServiceHeartbeat \<Rightarrow> bool" where
  "good_service s \<longleftrightarrow> Slug s \<noteq> [] \<and>
     (case (ReadyReplicas s, DesiredReplicas s) of
        (Some ready, Some desired) \<Rightarrow> Status s = DeriveStatus ready desired
      | _ \<Rightarrow> False) \<and>
     (Metrics s = [] \<or> good_samples (Metrics s))"

definition good_services :: "ServiceHeartbeat list \<Rightarrow> bool" where
  "good_services ss \<longleftrightarrow> distinct (map Slug ss) \<and> list_all good_service ss"

definition good_request :: "string \<Rightarrow> string \<Rightarrow> Config \<Rightarrow> request \<Rightarrow> bool" where
  "good_request base key c q \<longleftrightarrow>
     rq_url q = TrimRight base (CHR ''/'') @ ''/api/runtime/heartbeat'' \<and>
     rq_headers q = [(''Content-Type'', ''application/json''), (''X-API-Key'', key)] \<and>
     ProductID (rq_body q) = CfgProductID c \<and> Source (rq_body q) = CfgSource c \<and>
     Services (rq_body q) \<noteq> [] \<and> good_services (Services (rq_body q)) \<and>
     read_body (rq_bytes q) = Some (coerce_batch (rq_body q))"

lemma attach_good:
  assumes "good_map ts ms" "good_service s" "Metrics s = []"
  shows "good_service (attach ms s)"
  using assms by (auto simp: attach_def good_service_def good_map_def dest: fmpredD split: option.splits)

lemma entry_good: "slug_of (snd nd) \<noteq> [] \<Longrightarrow> good_service (entry_of env i nd)"
  by (cases nd) (simp add: good_service_def entry_of_def Let_def)

lemma Collect_good:
  assumes "fst (Collect env (a, w)) = Inr services"
  shows "good_services services"
proof -
  from assms obtain ds ms where s: "services = map (attach ms) (map (entry_of env (Interval (cfg a))) (winners {||} ds))"
    and g: "good_map (map (target_of env) (winners {||} ds)) ms"
    using Collect_cases [of env a w]
    by (cases "deployments (ae_cluster env) (Namespaces (cfg a))") (auto simp: Let_def)
  have d: "map Slug services = map (slug_of \<circ> snd) (winners {||} ds)" unfolding s by simp
  have "good_service (attach ms (entry_of env (Interval (cfg a)) nd))" if "nd \<in> set (winners {||} ds)" for nd
    using that winners_distinct [of "{||}" ds] by (intro attach_good [OF g] entry_good) force+
  then show ?thesis using winners_distinct [of "{||}" ds] unfolding good_services_def d
    by (simp add: s list_all_iff)
qed

lemma Collect_cfg: "cfg (fst (snd (Collect env (a, w)))) = cfg a"
  using Collect_cases [of env a w] by (auto simp: Let_def split: sum.splits)

lemma Tick_good:
  "list_all (good_request base key (cfg a)) (fst (fst (Tick (NewReporter base key timeout) env (a, w)))) \<and>
   length (fst (fst (Tick (NewReporter base key timeout) env (a, w)))) \<le> 1 \<and>
   cfg (fst (snd (Tick (NewReporter base key timeout) env (a, w)))) = cfg a"
proof -
  obtain res a1 w1 where c: "Collect env (a, w) = (res, a1, w1)" by (metis surj_pair)
  then have a1: "cfg a1 = cfg a" using Collect_cfg [of env a w] by simp
  have u: "heartbeat_url (NewReporter base key timeout) = TrimRight base (CHR ''/'') @ ''/api/runtime/heartbeat''"
    by (simp add: heartbeat_url_def NewReporter_def)
  show ?thesis
  proof (cases res)
    case (Inl e)
    then show ?thesis using a1 by (simp add: Tick_eq c)
  next
    case (Inr services)
    have "good_services services" using Collect_good [of env a w services] c Inr by simp
    moreover have "batch_floats \<lparr>ProductID = CfgProductID (cfg a1), Source = CfgSource (cfg a1), Services = services\<rparr>"
      using Collect_floats [of env a w services] c Inr by simp
    ultimately show ?thesis using a1
      by (auto simp: Tick_eq c Inr Let_def Send_simps post_NewReporter good_request_def u read_body_text split: option.split)
  qed
qed

section \<open>What a tick logs\<close>

definition logs :: "(log_event \<Rightarrow> bool) \<Rightarrow> world \<Rightarrow> world \<Rightarrow> bool" where
  "logs P w w' \<longleftrightarrow> (\<exists>evs. w_log w' = w_log w @ evs \<and> list_all P evs)"

lemma logs_refl [simp]: "logs P w w"
  by (simp add: logs_def)

lemma logs_trans: "logs P a b \<Longrightarrow> logs P b c \<Longrightarrow> logs P a c"
  unfolding logs_def by (elim exE conjE) (auto intro: exI [of _ "_ @ _"])

lemma logs_log: "logs P a w \<Longrightarrow> P e \<Longrightarrow> logs P a (log e w)"
  by (auto simp: logs_def)

lemma logs_metrics [simp]: "logs P (on_metrics f w) w' = logs P w w'" "logs P w (on_metrics f w') = logs P w w'"
  by (simp_all add: logs_def)

lemma logs_mono: "logs P w w' \<Longrightarrow> (\<And>e. P e \<Longrightarrow> Q e) \<Longrightarrow> logs Q w w'"
  by (auto simp: logs_def list_all_iff)

text \<open>The records a tick may write, depending on whether the context is done.\<close>

fun tick_event :: "bool \<Rightarrow> log_event \<Rightarrow> bool" where
  "tick_event d (LogSourceFailed n e) = (\<not> d)"
| "tick_event d (LogTickFailed e) = (\<not> d)"
| "tick_event d (LogMetricsServerStopped e) = False"
| "tick_event d (LogAgentStopped e) = False"
| "tick_event d e = True"

fun is_source_failed :: "log_event \<Rightarrow> bool" where
  "is_source_failed (LogSourceFailed n e) = True"
| "is_source_failed e = False"

text \<open>The records that say how many services a tick reported, and those of the others that
  \<open>Collect\<close> may write.\<close>

fun reported_count :: "log_event \<Rightarrow> nat option" where
  "reported_count (LogHeartbeatSent n) = Some n"
| "reported_count (LogNoWorkloads _) = Some 0"
| "reported_count _ = None"

definition collect_event :: "bool \<Rightarrow> log_event \<Rightarrow> bool" where
  "collect_event d e \<longleftrightarrow> tick_event d e \<and> reported_count e = None"

lemma source_collect_event: "source_event e \<Longrightarrow> collect_event d e"
  by (cases e) (simp_all add: collect_event_def)

lemma collect_tick_event: "collect_event d e \<Longrightarrow> tick_event d e"
  by (simp add: collect_event_def)

lemma collect_deployment_logs: "logs (collect_event d) w (snd (snd (collect_deployment env ns dep (c, a, w))))"
  by (auto simp: collect_deployment_def warnDuplicateSlug_def collect_event_def Let_def intro: logs_log split: option.split sum.split)

lemma collect_fold_logs: "logs (collect_event d) w (snd (snd (fold (collect_deployment env ns) deps (c, a, w))))"
proof (induction deps arbitrary: c a w)
  case (Cons dep deps)
  obtain c1 a1 w1 where st: "collect_deployment env ns dep (c, a, w) = (c1, a1, w1)" by (metis surj_pair)
  with collect_deployment_logs [of d w env ns dep c a] Cons [of w1 c1 a1] show ?case by (auto intro: logs_trans)
qed simp

lemma collect_namespaces_logs: "logs (collect_event d) w (snd (snd (collect_namespaces env nss (c, a, w))))"
proof (induction nss arbitrary: c a w)
  case (Cons ns nss)
  show ?case
  proof (cases "ListDeployments (ae_cluster env) ns")
    case (Inr deps)
    obtain c1 a1 w1 where st: "fold (collect_deployment env ns) deps (c, a, w) = (c1, a1, w1)" by (metis surj_pair)
    with collect_fold_logs [of d w env ns deps c a] Cons [of w1 c1 a1] Inr show ?thesis by (auto intro: logs_trans)
  qed simp
qed simp

lemma collectSamples_logs: "logs (collect_event (ae_done env)) w (snd (snd (collectSamples env ts (a, w))))"
proof -
  obtain ms err src w1 where r: "source_Samples (source_env env) ts (source a, w) = ((ms, err), (src, w1))"
    by (metis surj_pair)
  have "logs source_event w w1" using source.log_grows [OF r] by (simp add: logs_def log_extends_def)
  then have l: "logs (collect_event (ae_done env)) w w1" by (rule logs_mono) (rule source_collect_event)
  show ?thesis
    using r l by (auto simp: collectSamples_def collect_event_def Let_def intro: logs_log split: option.split)
qed

lemma Collect_logs: "logs (collect_event (ae_done env)) w (snd (snd (Collect env (a, w))))"
proof -
  let ?c0 = "\<lparr>claimed = fmempty, out = [], targets = []\<rparr> :: collecting"
  obtain res a1 w1 where n: "collect_namespaces env (Namespaces (cfg a)) (?c0, a, w) = (res, a1, w1)" by (metis surj_pair)
  have l: "logs (collect_event (ae_done env)) w w1"
    using collect_namespaces_logs [of "ae_done env" w env "Namespaces (cfg a)" ?c0 a] by (simp add: n)
  show ?thesis
  proof (cases res)
    case (Inr c)
    obtain ms a2 w2 where s: "collectSamples env (targets c) (a1, w1) = (ms, a2, w2)" by (metis surj_pair)
    with collectSamples_logs [of env w1 "targets c" a1] l show ?thesis
      by (auto simp: Collect_def n Inr Let_def intro: logs_trans)
  qed (simp add: Collect_def n l)
qed

lemma tickOnce_logs:
  assumes "ae_done env \<le> ae_tick_done env"
  shows "logs (tick_event (ae_done env)) w (snd (snd (tickOnce etxt r env (a, w))))"
proof -
  obtain res a1 w1 where c: "Collect env (a, w) = (res, a1, w1)" by (metis surj_pair)
  have l: "logs (tick_event (ae_done env)) w w1"
    using Collect_logs [of env w a] collect_tick_event by (auto simp: c elim: logs_mono)
  have t: "logs (tick_event (ae_done env)) w (snd (snd (Tick r env (a, w))))"
    using l by (cases res) (auto simp: Tick_eq c Let_def Send_simps intro: logs_log)
  show ?thesis
    using t assms by (auto simp: tickOnce_def intro: logs_log split: prod.split option.split)
qed

section \<open>Invariants of every execution\<close>

definition stopped_reports :: "world \<Rightarrow> nat" where
  "stopped_reports w = length (filter (\<lambda>e. \<exists>msg. e = LogMetricsServerStopped msg) (w_log w))"

lemma stopped_reports_logs: "logs (tick_event d) w w' \<Longrightarrow> stopped_reports w' = stopped_reports w"
  by (force simp: logs_def stopped_reports_def filter_empty_conv list_all_iff)

definition process_inv :: "string \<Rightarrow> string \<Rightarrow> process \<Rightarrow> process \<Rightarrow> bool" where
  "process_inv base key p0 p \<longleftrightarrow>
     cfg (pr_agent p) = cfg (pr_agent p0) \<and>
     list_all (good_request base key (cfg (pr_agent p0))) (pr_requests p) \<and>
     (pr_returned p \<longrightarrow> pr_cancelled p \<and> pr_ticked p) \<and>
     stopped_reports (pr_world p) \<le> stopped_reports (pr_world p0) + (if pr_listener p = ListenerStopped then 1 else 0)"

lemma serve_report_count: "stopped_reports (serve_report err c w) \<le> Suc (stopped_reports w)"
  by (auto simp: serve_report_def stopped_reports_def split: option.split)

lemma process_tick_frame:
  "pr_agent (process_tick etxt r env p) = fst (snd (tickOnce etxt r env (pr_agent p, pr_world p)))"
  "pr_world (process_tick etxt r env p) = snd (snd (tickOnce etxt r env (pr_agent p, pr_world p)))"
  "pr_requests (process_tick etxt r env p) = pr_requests p @ fst (tickOnce etxt r env (pr_agent p, pr_world p))"
  "pr_cancelled (process_tick etxt r env p) = ae_tick_done env"
  "pr_listener (process_tick etxt r env p) = pr_listener p"
  "pr_ticked (process_tick etxt r env p)"
  "pr_returned (process_tick etxt r env p) = pr_returned p"
  "pr_ticks (process_tick etxt r env p) = pr_ticks p @ [(env, source (pr_agent p))]"
  by (simp_all add: process_tick_def split_beta)

text \<open>
  The interface of an invariant of executions: a tick keeps it, and so does whatever leaves the
  agent, the ticks, the requests and the registry alone and writes at most that the listener stopped.
\<close>

definition is_stop_report :: "log_event \<Rightarrow> bool" where
  "is_stop_report e \<longleftrightarrow> (case e of LogMetricsServerStopped _ \<Rightarrow> True | _ \<Rightarrow> False)"

locale process_invariant =
  fixes etxt :: "tick_error \<Rightarrow> string" and r :: Reporter and Inv :: "process \<Rightarrow> bool"
  assumes tick_keeps: "Inv p \<Longrightarrow> tick_allowed env p \<Longrightarrow> Inv (process_tick etxt r env p)"
    and quiet_keeps: "Inv p \<Longrightarrow> pr_agent q = pr_agent p \<Longrightarrow> pr_requests q = pr_requests p \<Longrightarrow> pr_ticks q = pr_ticks p \<Longrightarrow>
      w_metrics (pr_world q) = w_metrics (pr_world p) \<Longrightarrow> logs is_stop_report (pr_world p) (pr_world q) \<Longrightarrow> Inv q"
begin

lemma step_keeps:
  assumes "Inv p" "process_step etxt r p q"
  shows "Inv q"
  using assms(2)
proof (cases rule: process_step.cases)
  case (tick env)
  then show ?thesis using tick_keeps assms(1) by simp
qed (rule quiet_keeps [OF assms(1)], auto simp: serve_report_def is_stop_report_def intro: logs_log split: option.split)+

lemma reach_keeps: "process_reach etxt r p q \<Longrightarrow> Inv p \<Longrightarrow> Inv q"
  by (induction rule: process_reach.induct) (auto intro: step_keeps)

end

lemma process_step_inv:
  assumes "process_inv base key p0 p" and "process_step etxt (NewReporter base key timeout) p p'"
  shows "process_inv base key p0 p'"
  using assms(2)
proof (cases rule: process_step.cases)
  case (tick env)
  let ?r = "NewReporter base key timeout"
  have d: "ae_done env \<le> ae_tick_done env" "\<not> pr_returned p" using tick by (simp_all add: tick_allowed_def)
  have "stopped_reports (pr_world p') = stopped_reports (pr_world p)"
    unfolding tick process_tick_frame by (rule stopped_reports_logs [OF tickOnce_logs [OF d(1)]])
  then show ?thesis
    using assms(1) d Tick_good [of base key "pr_agent p" timeout env "pr_world p"]
    by (simp add: process_inv_def tick process_tick_frame tickOnce_Tick)
qed (use assms(1) serve_report_count [of _ _ "pr_world p"] in \<open>auto simp: process_inv_def intro: order.trans\<close>)

lemma process_reach_inv:
  assumes "process_reach etxt (NewReporter base key timeout) p0 p" and "process_inv base key p0 p0"
  shows "process_inv base key p0 p"
  using assms by (induction rule: process_reach.induct) (auto intro: process_step_inv)

lemma process_start_inv: "process_inv base key (process_start a w) (process_start a w)"
  by (simp add: process_inv_def process_start_def)

lemma reach_start_inv:
  "process_reach etxt (NewReporter base key timeout) (process_start a w) p \<Longrightarrow> process_inv base key (process_start a w) p"
  by (rule process_reach_inv [OF _ process_start_inv])

section \<open>Properties\<close>

text \<open>
  C4. Every entry a batch can hold is well formed, whatever the cluster, the source and the peers
  answer: a nonempty slug no other entry has, both replica counts with the status
  \<open>DeriveStatus\<close> gives for them, and either no samples or finite samples with registry keys, at
  most one per key.
\<close>

theorem Collect_well_formed:
  "case fst (Collect env (a, w)) of Inl e \<Rightarrow> True | Inr services \<Rightarrow> good_services services"
  by (cases "fst (Collect env (a, w))") (auto intro: Collect_good)

text \<open>
  C2. In every reachable state of the process, in whatever order ticks, the signal and the end of the
  metrics listener come: the configuration is the one it started with, every request ever
  posted is a well-formed batch for that configuration sent to the heartbeat URL with the API
  key, the bytes of whose body read back as that batch, the process has returned only after the
  context was done, and the end of the metrics listener has been reported at most once.
\<close>

theorem process_safe:
  assumes "process_reach etxt (NewReporter base key timeout) (process_start a w) p"
  shows "cfg (pr_agent p) = cfg a \<and> list_all (good_request base key (cfg a)) (pr_requests p) \<and>
    (pr_returned p \<longrightarrow> pr_cancelled p) \<and> stopped_reports (pr_world p) \<le> Suc (stopped_reports w)"
  using reach_start_inv [OF assms] by (auto simp: process_inv_def process_start_def split: if_splits)

lemma process_step_calm:
  assumes "process_step etxt r p p'" "pr_cancelled p"
  shows "pr_cancelled p' \<and> logs (tick_event True) (pr_world p) (pr_world p')"
  using assms(1)
proof (cases rule: process_step.cases)
  case (tick env)
  then have d: "ae_done env" "ae_tick_done env" using assms(2) by (auto simp: tick_allowed_def)
  then show ?thesis
    using tickOnce_logs [of env "pr_world p" etxt r "pr_agent p"] by (simp add: tick process_tick_frame)
qed (use assms(2) in \<open>auto simp: serve_report_def split: option.split\<close>)

lemma process_reach_calm:
  assumes "process_reach etxt r p p'" "pr_cancelled p"
  shows "pr_cancelled p' \<and> logs (tick_event True) (pr_world p) (pr_world p')"
  using assms
proof (induction rule: process_reach.induct)
  case (further p q s)
  with process_step_calm [of etxt r q s] show ?case by (auto intro: logs_trans)
qed simp

lemma tick_event_errors:
  assumes "list_all (tick_event True) evs"
  shows "filter (\<lambda>e. event_level e = LevelError) evs = [] \<and> filter is_source_failed evs = []"
proof -
  have "event_level e \<noteq> LevelError \<and> \<not> is_source_failed e" if "tick_event True e" for e
    using that by (cases e) (simp_all add: event_level_def)
  with assms show ?thesis by (auto simp: filter_empty_conv list_all_iff)
qed

text \<open>
  C16. A shutdown raises no error: once the context is done, no later step of any execution writes a
  record at the Error level (a failed tick, a stopped metrics listener) nor the record of a failed metric
  source, although requests in flight fail because of it. Warnings of reads the shutdown itself cut off
  are still written (\<open>shutdown_still_warns\<close>).
\<close>

theorem shutdown_raises_no_error:
  assumes "process_reach etxt r p p'" and "pr_cancelled p"
  shows "pr_cancelled p' \<and> (\<exists>evs. w_log (pr_world p') = w_log (pr_world p) @ evs \<and>
    filter (\<lambda>e. event_level e = LevelError) evs = [] \<and> filter is_source_failed evs = [])"
  using process_reach_calm [OF assms] tick_event_errors by (auto simp: logs_def)

section \<open>Delivery\<close>

text \<open>In every execution the requests are what the ticks so far had to post.\<close>

definition posted :: "string \<Rightarrow> string \<Rightarrow> Config \<Rightarrow> process \<Rightarrow> bool" where
  "posted base key c p \<longleftrightarrow> cfg (pr_agent p) = c \<and>
     map request_content (pr_requests p) = concat (map (\<lambda>t. tick_posts base key c (fst t)) (pr_ticks p))"

interpretation posting: process_invariant etxt "NewReporter base key timeout" "posted base key c" for etxt base key timeout c
proof
  fix p env assume "posted base key c p"
  then show "posted base key c (process_tick etxt (NewReporter base key timeout) env p)"
    using Tick_spec [of base key timeout env "pr_agent p" "pr_world p"]
    by (auto simp: posted_def process_tick_frame tickOnce_Tick)
qed (simp add: posted_def)

lemma posted_reach:
  "process_reach etxt (NewReporter base key timeout) (process_start a w) p \<Longrightarrow> posted base key (cfg a) p"
  by (erule posting.reach_keeps) (simp add: posted_def process_start_def)

text \<open>
  C17. Delivery, after any history: whatever the ticks before ran into (unlistable namespaces, failed
  posts, failed scrapes, the end of the metrics listener), a tick the process may still take that finds
  at least one annotated workload and an API that accepts posts exactly one more request, with one entry
  per claimed service, and logs it as sent; and the requests before it are exactly those the earlier
  ticks had to post, none lost and none repeated.
\<close>

theorem heartbeat_delivered:
  assumes "process_reach etxt (NewReporter base key timeout) (process_start a w) p" and "tick_allowed env p"
    and "tick_services env (cfg a) = Inr services" and "services \<noteq> []" and "api_accepts base (ae_send env)"
  shows "\<exists>p' evs. process_step etxt (NewReporter base key timeout) p p' \<and>
    map request_content (pr_requests p) = concat (map (\<lambda>t. tick_posts base key (cfg a) (fst t)) (pr_ticks p)) \<and>
    map request_content (pr_requests p') = map request_content (pr_requests p) @ [heartbeat_content base key (cfg a) services] \<and>
    w_log (pr_world p') = w_log (pr_world p) @ evs @ [LogHeartbeatSent (length services)]"
proof -
  let ?r = "NewReporter base key timeout"
  have i: "cfg (pr_agent p) = cfg a"
    "map request_content (pr_requests p) = concat (map (\<lambda>t. tick_posts base key (cfg a) (fst t)) (pr_ticks p))"
    using posted_reach [OF assms(1)] by (simp_all add: posted_def)
  have s: "tick_services env (cfg (pr_agent p)) = Inr services" using assms(3) i(1) by simp
  have T: "snd (fst (Tick ?r env (pr_agent p, pr_world p))) = None"
    using assms(4,5) s by (simp add: Tick_spec tick_fails_def)
  have q: "tick_posts base key (cfg (pr_agent p)) env = [heartbeat_content base key (cfg a) services]"
    using assms(4,5) s i(1) by (simp add: tick_posts_def api_accepts_def)
  obtain evs where "w_log (snd (snd (Collect env (pr_agent p, pr_world p)))) = w_log (pr_world p) @ evs"
    using Collect_logs [of env "pr_world p" "pr_agent p"] by (auto simp: logs_def)
  then have l: "w_log (snd (snd (Tick ?r env (pr_agent p, pr_world p)))) = w_log (pr_world p) @ evs @ [LogHeartbeatSent (length services)]"
    using Tick_delivers [OF s assms(4,5), of key timeout "pr_world p"] by auto
  have "process_step etxt ?r p (process_tick etxt ?r env p)" by (rule process_step.tick [OF assms(2)])
  then show ?thesis
    using i(2) Tick_spec(1) [of base key timeout env "pr_agent p" "pr_world p"] l q
    by (intro exI [of _ "process_tick etxt ?r env p"] exI [of _ evs])
      (simp add: process_tick_frame tickOnce_Tick(1) tickOnce_Tick(4) [OF T])
qed

section \<open>The executable run\<close>

definition done_flags :: "agent_env list \<Rightarrow> bool list" where
  "done_flags envs = concat (map (\<lambda>e. [ae_done e, ae_tick_done e]) envs)"

lemma done_flags_Cons: "done_flags (env # envs) = ae_done env # ae_tick_done env # done_flags envs"
  by (simp add: done_flags_def)

lemma ticked_kept:
  assumes "process_reach etxt r p p'" "pr_ticked p"
  shows "pr_ticked p'"
  using assms
proof (induction rule: process_reach.induct)
  case (further p q s)
  from further.hyps(2) further show ?case by (cases rule: process_step.cases) (simp_all add: process_tick_frame)
qed

lemma run_loop_Cons:
  "run_loop etxt r (env # envs) (pr_requests p, (pr_agent p, pr_world p)) =
   run_loop etxt r envs (pr_requests (process_tick etxt r env p), (pr_agent (process_tick etxt r env p), pr_world (process_tick etxt r env p)))"
proof -
  obtain q a w where t: "tickOnce etxt r env (pr_agent p, pr_world p) = (q, (a, w))" by (metis surj_pair)
  show ?thesis unfolding process_tick_frame t by (simp add: run_loop_def t)
qed

lemma run_loop_reach:
  assumes "\<not> pr_returned p" "sorted (pr_cancelled p # done_flags envs)"
  shows "\<exists>p'. process_reach etxt r p p' \<and> \<not> pr_returned p' \<and> (envs \<noteq> [] \<longrightarrow> pr_ticked p') \<and>
    run_loop etxt r envs (pr_requests p, (pr_agent p, pr_world p)) = (pr_requests p', (pr_agent p', pr_world p'))"
  using assms
proof (induction envs arbitrary: p)
  case Nil
  then show ?case by (intro exI [of _ p]) (simp add: run_loop_def process_reach.here)
next
  case (Cons env envs)
  let ?t = "process_tick etxt r env p"
  have "sorted (pr_cancelled p # ae_done env # ae_tick_done env # done_flags envs)"
    using Cons.prems(2) by (simp only: done_flags_Cons)
  then have f: "pr_cancelled p \<le> ae_done env" "ae_done env \<le> ae_tick_done env" and s: "sorted (ae_tick_done env # done_flags envs)"
    by (simp_all only: sorted2)
  have allowed: "tick_allowed env p" unfolding tick_allowed_def using Cons.prems(1) f by blast
  have "\<not> pr_returned ?t" "sorted (pr_cancelled ?t # done_flags envs)"
    unfolding process_tick_frame using Cons.prems(1) s .
  from Cons.IH [OF this] obtain p' where p': "process_reach etxt r ?t p'" "\<not> pr_returned p'" "envs \<noteq> [] \<longrightarrow> pr_ticked p'"
    "run_loop etxt r envs (pr_requests ?t, (pr_agent ?t, pr_world ?t)) = (pr_requests p', (pr_agent p', pr_world p'))"
    by (elim exE conjE) (rule that)
  have "process_reach etxt r p p'"
    using process_reach_trans [OF p'(1) process_reach_step [OF process_step.tick [OF allowed]]] .
  moreover have "pr_ticked p'" by (rule ticked_kept [OF p'(1) process_tick_frame(6)])
  ultimately show ?case using p'(2,4) unfolding run_loop_Cons by blast
qed

text \<open>
  The executable \<open>Run\<close> is one of the executions: for a positive interval and any list of ticks
  whose context, once done, stays done, what \<open>Run\<close> returns is the requests, the agent and the
  world of a reachable state in which the process has returned.
\<close>

theorem Run_is_execution:
  assumes "0 < Interval (cfg a)" and "sorted (done_flags (env # envs))"
  shows "\<exists>p. process_reach etxt r (process_start a w) p \<and> pr_returned p \<and>
    Run etxt r False env envs (a, w) = (RunCancelled, pr_requests p, (pr_agent p, pr_world p))"
proof -
  have "sorted (pr_cancelled (process_start a w) # done_flags (env # envs))"
    using assms(2) by (simp add: process_start_def)
  then obtain p where p: "process_reach etxt r (process_start a w) p" "pr_ticked p"
    "run_loop etxt r (env # envs) ([], (a, w)) = (pr_requests p, (pr_agent p, pr_world p))"
    using run_loop_reach [of "process_start a w" "env # envs" etxt r] by (auto simp: process_start_def)
  let ?c = "p\<lparr>pr_cancelled := True\<rparr>"
  have "process_step etxt r ?c (?c\<lparr>pr_returned := True\<rparr>)" using p(2) by (intro process_step.return) simp_all
  then have "process_reach etxt r (process_start a w) (?c\<lparr>pr_returned := True\<rparr>)"
    using p(1) process_step.signal by (blast intro: process_reach.further)
  moreover have "Run etxt r False env envs (a, w) = (RunCancelled, pr_requests p, (pr_agent p, pr_world p))"
    using assms(1) p(3) by (simp add: Run_def)
  ultimately show ?thesis by (intro exI [of _ "?c\<lparr>pr_returned := True\<rparr>"]) simp
qed

text \<open>Conversely, without a listener every execution is a run of the loop over some list of ticks.\<close>

lemma execution_is_run_loop:
  assumes "process_reach etxt r p0 p" "p0 = process_start a w" "w_metrics w = None"
  shows "pr_listener p = ListenerOff \<and>
    (\<exists>envs. run_loop etxt r envs ([], (a, w)) = (pr_requests p, (pr_agent p, pr_world p)))"
  using assms
proof (induction rule: process_reach.induct)
  case (here p)
  then show ?case by (intro conjI exI [of _ "[]"]) (simp_all add: process_start_def run_loop_def)
next
  case (further p q s)
  then obtain envs where e: "pr_listener q = ListenerOff"
    "run_loop etxt r envs ([], (a, w)) = (pr_requests q, (pr_agent q, pr_world q))" by blast
  from further.hyps(2) show ?case
  proof (cases rule: process_step.cases)
    case (tick env)
    have "run_loop etxt r (envs @ [env]) ([], (a, w)) = (pr_requests s, (pr_agent s, pr_world s))"
      using e(2) by (simp add: run_loop_def tick process_tick_frame split_beta)
    with e(1) show ?thesis by (auto simp: tick process_tick_frame)
  qed (use e in auto)
qed

section \<open>Concrete instances\<close>

text \<open>An agent in an empty cluster without a network, and in a cluster with one workload, one of
  whose two replicas is ready, with an API that accepts the batch.\<close>

definition idle_env :: agent_env where
  "idle_env = \<lparr>ae_cluster = \<lparr>kc_deployments = (\<lambda>ns. Inr []), kc_pods = (\<lambda>ns sel. Inr []), kc_metrics = None\<rparr>,
     ae_selector = (\<lambda>s. Inl []), ae_tick = example_tick 0 (0, 0, False, None),
     ae_send = \<lparr>env_new_request = (\<lambda>_. None), env_send = (\<lambda>_. Inl (PlainError ''connection refused'')),
       env_quote = (\<lambda>u. u), se_seconds = Fin 0, se_now = Fin 0\<rparr>,
     ae_int32 = (\<lambda>_. 0), ae_done = False, ae_tick_done = False\<rparr>"

definition web_deployment :: Deployment where
  "web_deployment = \<lparr>DName = ''web'', DAnnotations = fmap_of_list [(AnnotationService, ''shop'')],
     DReplicas = Some 2, DReadyReplicas = 1, DSelector = None\<rparr>"

definition busy_env :: agent_env where
  "busy_env = idle_env\<lparr>ae_cluster := (ae_cluster idle_env)\<lparr>kc_deployments := (\<lambda>ns. Inr [web_deployment])\<rparr>,
     ae_send := (ae_send idle_env)\<lparr>env_send := (\<lambda>_. Inr \<lparr>StatusCode = 200, RespStatus = ''OK'', Location = None,
       RespBody = \<lparr>body_bytes = [], body_error = None\<rparr>\<rparr>)\<rparr>\<rparr>"

definition idle_agent :: Agent where
  "idle_agent = NewAgent \<lparr>CfgProductID = ''product'', CfgSource = ''k8s-agent'', Namespaces = [''default''],
     Interval = 60000000000\<rparr> None"

definition busy_state :: process where
  "busy_state = process_tick (\<lambda>_. []) (NewReporter ''https://zensu.example'' ''key'' 15000000000) busy_env
     (process_start idle_agent empty_world)"

lemma busy_reach:
  "process_reach (\<lambda>_. []) (NewReporter ''https://zensu.example'' ''key'' 15000000000) (process_start idle_agent empty_world) busy_state"
  unfolding busy_state_def
  by (rule process_reach_step, rule process_step.tick)
    (simp add: tick_allowed_def process_start_def busy_env_def idle_env_def)

lemma busy_service:
  "fst (Collect busy_env (idle_agent, w)) = Inr [entry_of busy_env 60000000000 (''default'', web_deployment)]"
  by (simp add: Collect_def busy_env_def idle_env_def web_deployment_def idle_agent_def NewAgent_def collect_deployment_def
     MapDeployment_def ListDeployments_def Let_def fmget_def AnnotationService_def deploymentSelector_def collectSamples_def
     source_Samples_def lift_source_def none_Samples_def attach_def entry_of_def slug_of_def pods_behind_def split_beta)

lemma busy_requests:
  "map (\<lambda>q. (rq_url q, map (\<lambda>s. (Slug s, Status s, IntervalSeconds s)) (Services (rq_body q)))) (pr_requests busy_state) =
     [(''https://zensu.example/api/runtime/heartbeat'', [(''shop'', ''degraded'', 60)])]"
proof -
  obtain a w where c: "Collect busy_env (idle_agent, empty_world) =
      (Inr [entry_of busy_env 60000000000 (''default'', web_deployment)], a, w)"
    using busy_service [of empty_world] by (metis prod.collapse)
  have i: "int32_of_f64 f (Seconds 60000000000) = 60" for f
    by (simp add: Seconds_def int32_of_f64_def)
  have u: "heartbeat_url (NewReporter ''https://zensu.example'' ''key'' t) = ''https://zensu.example/api/runtime/heartbeat''" for t
    by (simp add: heartbeat_url_def NewReporter_def TrimRight_def)
  have n: "env_new_request (ae_send busy_env) u = None" for u by (simp add: busy_env_def idle_env_def)
  show ?thesis
    unfolding busy_state_def process_tick_frame tickOnce_Tick
    by (simp add: Tick_eq process_start_def c i Let_def Send_simps post_NewReporter entry_of_def json_finite_def
      slug_of_def web_deployment_def AnnotationService_def DeriveStatus_def StatusDegraded_def n u)
qed

lemma process_safe_witness:
  "pr_requests busy_state \<noteq> [] \<and>
   list_all (good_request ''https://zensu.example'' ''key'' (cfg idle_agent)) (pr_requests busy_state)"
proof -
  have "pr_requests busy_state \<noteq> []" using busy_requests by auto
  with process_safe [OF busy_reach] show ?thesis by blast
qed

text \<open>The same tick once more, after a first one without a network.\<close>

lemma outage_reach:
  "process_reach (\<lambda>_. []) (NewReporter ''https://zensu.example'' ''key'' 15000000000) (process_start idle_agent empty_world)
    (process_tick (\<lambda>_. []) (NewReporter ''https://zensu.example'' ''key'' 15000000000) (busy_env\<lparr>ae_send := ae_send idle_env\<rparr>)
      (process_start idle_agent empty_world))"
  by (rule process_reach_step, rule process_step.tick)
    (simp add: tick_allowed_def process_start_def busy_env_def idle_env_def)

lemma busy_tick:
  "tick_services busy_env (cfg idle_agent) = Inr [entry_of busy_env 60000000000 (''default'', web_deployment)]"
  "api_accepts base (ae_send busy_env)"
  by (simp_all add: tick_services_def busy_env_def idle_env_def idle_agent_def NewAgent_def slug_of_def web_deployment_def
    fmget_def AnnotationService_def api_accepts_def request_builds_def)

lemma heartbeat_delivered_witness:
  "\<exists>p'. process_step (\<lambda>_. []) (NewReporter ''https://zensu.example'' ''key'' 15000000000)
      (process_tick (\<lambda>_. []) (NewReporter ''https://zensu.example'' ''key'' 15000000000) (busy_env\<lparr>ae_send := ae_send idle_env\<rparr>)
        (process_start idle_agent empty_world)) p' \<and>
    LogHeartbeatSent 1 \<in> set (w_log (pr_world p'))"
proof -
  have "tick_allowed busy_env (process_tick (\<lambda>_. []) (NewReporter ''https://zensu.example'' ''key'' 15000000000)
      (busy_env\<lparr>ae_send := ae_send idle_env\<rparr>) (process_start idle_agent empty_world))"
    unfolding tick_allowed_def process_tick_frame by (simp add: process_start_def busy_env_def idle_env_def)
  from heartbeat_delivered [OF outage_reach this busy_tick(1) _ busy_tick(2)] show ?thesis by fastforce
qed

text \<open>A tick that fails because the context is done.\<close>

definition cancelled_env :: agent_env where
  "cancelled_env = idle_env\<lparr>ae_cluster := (ae_cluster idle_env)\<lparr>kc_deployments := (\<lambda>ns. Inl (OtherError ''context canceled''))\<rparr>,
     ae_done := True, ae_tick_done := True\<rparr>"

lemma shutdown_raises_no_error_witness:
  "snd (fst (Tick (NewReporter ''https://zensu.example'' ''key'' 15000000000) cancelled_env (idle_agent, empty_world))) = Some (TickCollect (OtherError ''context canceled'')) \<and>
   filter (\<lambda>e. event_level e = LevelError) (w_log (pr_world
     (process_tick (\<lambda>_. []) (NewReporter ''https://zensu.example'' ''key'' 15000000000) cancelled_env
       (process_start idle_agent empty_world\<lparr>pr_cancelled := True\<rparr>)))) = []"
proof -
  let ?r = "NewReporter ''https://zensu.example'' ''key'' 15000000000"
  let ?p = "process_start idle_agent empty_world\<lparr>pr_cancelled := True\<rparr>"
  have "process_step (\<lambda>_. []) ?r ?p (process_tick (\<lambda>_. []) ?r cancelled_env ?p)"
    by (rule process_step.tick) (simp add: tick_allowed_def process_start_def cancelled_env_def)
  from shutdown_raises_no_error [OF process_reach_step [OF this]]
  have "filter (\<lambda>e. event_level e = LevelError) (w_log (pr_world (process_tick (\<lambda>_. []) ?r cancelled_env ?p))) = []"
    by (auto simp: process_start_def empty_world_def)
  moreover have "snd (fst (Tick (NewReporter ''https://zensu.example'' ''key'' 15000000000) cancelled_env (idle_agent, empty_world))) = Some (TickCollect (OtherError ''context canceled''))"
    by (simp add: Tick_def Collect_def cancelled_env_def idle_env_def idle_agent_def NewAgent_def ListDeployments_def)
  ultimately show ?thesis by simp
qed

text \<open>
  A shutdown is not silent: the warnings about the pods and the pod metrics of a workload are written
  also when it was the shutdown that cut the read off.
\<close>

definition interrupted_env :: agent_env where
  "interrupted_env = busy_env\<lparr>ae_cluster := \<lparr>kc_deployments = (\<lambda>ns. Inr [web_deployment\<lparr>DSelector := Some \<lparr>MatchLabels = fmempty, MatchExpressions = []\<rparr>\<rparr>]),
       kc_pods = (\<lambda>ns sel. Inl (OtherError ''context canceled'')), kc_metrics = None\<rparr>,
     ae_selector := (\<lambda>s. Inr \<lparr>sel_empty = False, sel_string = ''app=web''\<rparr>), ae_done := True, ae_tick_done := True\<rparr>"

lemma shutdown_still_warns:
  "w_log (snd (snd (Collect interrupted_env (idle_agent, empty_world)))) =
    [LogListPodsFailed ''web'' (OtherError ''context canceled'')]"
  by (simp add: Collect_def interrupted_env_def busy_env_def idle_env_def web_deployment_def idle_agent_def NewAgent_def
     collect_deployment_def MapDeployment_def ListDeployments_def ListPods_def Let_def fmget_def AnnotationService_def deploymentSelector_def
     collectSamples_def source_Samples_def lift_source_def none_Samples_def split_beta empty_world_def)

lemma Run_is_execution_witness:
  "\<exists>p :: process. pr_returned p \<and>
    Run (\<lambda>_. []) (NewReporter [] [] 0) False busy_env [idle_env] (idle_agent, empty_world) =
      (RunCancelled, pr_requests p, (pr_agent p, pr_world p))"
proof -
  have "0 < Interval (cfg idle_agent)" "sorted (done_flags [busy_env, idle_env])"
    by (simp_all add: idle_agent_def NewAgent_def done_flags_def busy_env_def idle_env_def)
  from Run_is_execution [OF this, of "\<lambda>_. []" "NewReporter [] [] 0" empty_world] show ?thesis by blast
qed

end
