(* ===== verification/Startup.thy ===== *)
theory Startup
  imports Process GoParse
begin

text \<open>
  \<open>cmd/zensu-monitoring-agent/main.go\<close>: the environment variables, the startup refusals, \<open>run\<close>, the
  command line and \<open>main\<close>. \<open>os.Getenv\<close> is a function that gives the empty string for an unset variable. Changing
  the case of a string is needed for comparisons with ASCII words only: runes whose other case is
  not ASCII are left as they are, the few that change into an ASCII letter are translated.
\<close>

section \<open>Upper and lower case\<close>

fun ToLower :: "string \<Rightarrow> string" where
  "ToLower [] = []"
| "ToLower (c # cs) =
     (if c = CHR 0xE2 \<and> take 2 cs = [CHR 0x84, CHR 0xAA] then CHR ''k'' # ToLower (drop 2 cs)
      else if c = CHR 0xC4 \<and> take 1 cs = [CHR 0xB0] then CHR ''i'' # ToLower (drop 1 cs)
      else lower_char c # ToLower cs)"

definition upper_char :: "char \<Rightarrow> char" where
  "upper_char c = (if 97 \<le> byte c \<and> byte c \<le> 122 then char_of (byte c - 32) else c)"

fun ToUpper :: "string \<Rightarrow> string" where
  "ToUpper [] = []"
| "ToUpper (c # cs) =
     (if c = CHR 0xC4 \<and> take 1 cs = [CHR 0xB1] then CHR ''I'' # ToUpper (drop 1 cs)
      else if c = CHR 0xC5 \<and> take 1 cs = [CHR 0xBF] then CHR ''S'' # ToUpper (drop 1 cs)
      else upper_char c # ToUpper cs)"

text \<open>\<open>strings.Split\<close> with a separator of one byte.\<close>

fun Split :: "char \<Rightarrow> string \<Rightarrow> string list" where
  "Split sep [] = [[]]"
| "Split sep (c # cs) =
     (if c = sep then [] # Split sep cs
      else case Split sep cs of [] \<Rightarrow> [[c]] | p # ps \<Rightarrow> (c # p) # ps)"

section \<open>Reading the environment\<close>

type_synonym getenv = "string \<Rightarrow> string"

definition envOr :: "getenv \<Rightarrow> string \<Rightarrow> string \<Rightarrow> string" where
  "envOr env key d = (if env key \<noteq> [] then env key else d)"

definition envInt64 :: "getenv \<Rightarrow> string \<Rightarrow> int64 \<Rightarrow> int64" where
  "envInt64 env key d =
     (let v = env key in
      if v \<noteq> [] then (case ParseInt v of None \<Rightarrow> d | Some n \<Rightarrow> if 0 < sint n then n else d) else d)"

definition envBool :: "getenv \<Rightarrow> string \<Rightarrow> bool \<Rightarrow> bool" where
  "envBool env key d =
     (let v = ToLower (TrimSpace (env key))
      in if v = [] then d else if v \<in> {''1'', ''true'', ''yes'', ''on''} then True else False)"

definition envDuration :: "getenv \<Rightarrow> string \<Rightarrow> int \<Rightarrow> int" where
  "envDuration env key d =
     (let v = env key in
      if v \<noteq> [] then (case ParseDuration v of None \<Rightarrow> d | Some n \<Rightarrow> if 0 < n then n else d) else d)"

definition envList :: "getenv \<Rightarrow> string \<Rightarrow> string list \<Rightarrow> string list" where
  "envList env key d =
     (let v = env key in
      if v = [] then d
      else let out = filter (\<lambda>p. p \<noteq> []) (map TrimSpace (Split (CHR '','') v))
           in if out = [] then d else out)"

text \<open>Levels of \<open>log/slog\<close> and \<open>Level.UnmarshalText\<close>: a name with an optional signed offset.\<close>

definition level_number :: "level \<Rightarrow> int64" where
  "level_number l = (case l of LevelDebug \<Rightarrow> - 4 | LevelInfo \<Rightarrow> 0 | LevelWarn \<Rightarrow> 4 | LevelError \<Rightarrow> 8)"

instantiation level :: linorder
begin

definition less_eq_level :: "level \<Rightarrow> level \<Rightarrow> bool" where
  "less_eq_level k l \<longleftrightarrow> sint (level_number k) \<le> sint (level_number l)"

definition less_level :: "level \<Rightarrow> level \<Rightarrow> bool" where
  "less_level k l \<longleftrightarrow> sint (level_number k) < sint (level_number l)"

instance
proof
  fix k l :: level
  show "k = l" if "k \<le> l" "l \<le> k"
    using that by (cases k; cases l) (simp_all add: less_eq_level_def level_number_def)
qed (auto simp: less_eq_level_def less_level_def)

end

definition level_named :: "string \<Rightarrow> level option" where
  "level_named name =
     (let n = ToUpper name in
      if n = ''DEBUG'' then Some LevelDebug else if n = ''INFO'' then Some LevelInfo
      else if n = ''WARN'' then Some LevelWarn else if n = ''ERROR'' then Some LevelError else None)"

definition ParseLevel :: "string \<Rightarrow> int64 option" where
  "ParseLevel s =
     (let name = takeWhile (\<lambda>c. c \<noteq> CHR ''+'' \<and> c \<noteq> CHR ''-'') s;
          offset = dropWhile (\<lambda>c. c \<noteq> CHR ''+'' \<and> c \<noteq> CHR ''-'') s
      in case (if offset = [] then Some 0 else ParseInt offset) of
           None \<Rightarrow> None
         | Some n \<Rightarrow> map_option (\<lambda>l. level_number l + n) (level_named name))"

definition envLogLevel :: "getenv \<Rightarrow> int64" where
  "envLogLevel env =
     (let raw = env ''ZENSU_MONITORING_AGENT_LOG_LEVEL'' in
      if raw = [] then level_number LevelInfo
      else case ParseLevel raw of None \<Rightarrow> level_number LevelInfo | Some l \<Rightarrow> l)"

text \<open>What the handler \<open>main\<close> installs writes out.\<close>

definition emitted_log :: "int64 \<Rightarrow> log_event list \<Rightarrow> log_event list" where
  "emitted_log minimum evs = filter (\<lambda>e. sint minimum \<le> sint (level_number (event_level e))) evs"

section \<open>Startup\<close>

definition requiredConfig :: "string \<Rightarrow> string \<Rightarrow> string \<Rightarrow> string \<Rightarrow> string option" where
  "requiredConfig apiURL apiKey productID scrapeURL =
     (if apiURL = [] \<or> apiKey = [] \<or> productID = [] then
        Some ''ZENSU_API_URL, ZENSU_API_KEY and ZENSU_PRODUCT_ID are all required''
      else case ValidateAPIURL apiURL of
        Some e \<Rightarrow> Some e
      | None \<Rightarrow> if scrapeURL = [] then None else ValidateScrapeURL scrapeURL)"

definition DefaultScrapeTimeout :: int where
  "DefaultScrapeTimeout = DefaultTimeout"

definition DefaultAddr :: string where
  "DefaultAddr = '':2112''"

definition resourceSourceConfig :: "getenv \<Rightarrow> string \<Rightarrow> SourceConfig" where
  "resourceSourceConfig env scrapeURL =
     \<lparr>Mode = envOr env ''ZENSU_MONITORING_AGENT_RESOURCE_SOURCE'' SourceAuto,
      XConfig = \<lparr>XURL = scrapeURL,
        XSlugLabel = envOr env ''ZENSU_MONITORING_AGENT_SCRAPE_SLUG_LABEL'' DefaultSlugLabel,
        XCPUMetric = env ''ZENSU_MONITORING_AGENT_SCRAPE_CPU_METRIC'',
        XMemoryMetric = env ''ZENSU_MONITORING_AGENT_SCRAPE_MEMORY_METRIC'',
        XTimeout = envDuration env ''ZENSU_MONITORING_AGENT_SCRAPE_TIMEOUT'' DefaultScrapeTimeout,
        XMaxBytes = envInt64 env ''ZENSU_MONITORING_AGENT_SCRAPE_MAX_BYTES'' 0,
        XRater = \<lparr>MaxTracked = 0\<rparr>\<rparr>\<rparr>"

definition expositionReachable :: "SourceConfig \<Rightarrow> bool" where
  "expositionReachable c =
     (if XURL (XConfig c) = [] then False
      else if Mode c = SourceExposition \<or> Mode c = SourceAuto \<or> Mode c = [] then True else False)"

definition agentConfig :: "getenv \<Rightarrow> string \<Rightarrow> Config" where
  "agentConfig env productID =
     \<lparr>CfgProductID = productID, CfgSource = envOr env ''ZENSU_MONITORING_AGENT_SOURCE'' ''k8s-agent'',
      Namespaces = envList env ''ZENSU_MONITORING_AGENT_NAMESPACES'' [''default''],
      Interval = envDuration env ''ZENSU_MONITORING_AGENT_INTERVAL'' (60 * 1000000000)\<rparr>"

datatype run_error =
    InvalidConfiguration string
  | KubernetesClient string
  | ResourceMetricSource config_error
  | RunFailed tick_error
  | RunRefusedInterval int

text \<open>What a start finds: the environment, what \<open>newLister\<close> returns (what the reader answers comes
  with each tick), the runtime's memory limit, and whether the context is done when \<open>Run\<close> comes back.\<close>

record process_env =
  pe_getenv :: getenv
  pe_lister :: "(string, kube_client) result"
  pe_memory_limit :: int64
  pe_done :: bool

definition run_outcome :: "bool \<Rightarrow> run_result \<Rightarrow> run_error option" where
  "run_outcome is_done res = (case res of
     RunOnce None \<Rightarrow> None
   | RunOnce (Some e) \<Rightarrow> if \<not> is_done then Some (RunFailed e) else None
   | RunRefused i \<Rightarrow> if \<not> is_done then Some (RunRefusedInterval i) else None
   | RunCancelled \<Rightarrow> None)"

text \<open>The part of \<open>run\<close> after the source has been built: its records, the agent, the run.\<close>

definition run_agent :: "process_env \<Rightarrow> (tick_error \<Rightarrow> string) \<Rightarrow> bool \<Rightarrow> bool \<Rightarrow> SourceConfig \<Rightarrow> Config \<Rightarrow> Reporter \<Rightarrow>
    any_source \<Rightarrow> agent_env \<Rightarrow> agent_env list \<Rightarrow> world \<Rightarrow> run_error option \<times> request list \<times> world" where
  "run_agent pe etxt once metricsEnabled sourceCfg c reporter src env envs w =
     (let w = log (LogSourceConfigured (source_Name src)) w;
          w = (if once \<and> expositionReachable sourceCfg then log (LogOneShotCounter (source_Name src)) w else w);
          a = NewAgent c (Some src);
          w = (if metricsEnabled
               then log (LogMetricsEndpoint (envOr (pe_getenv pe) ''ZENSU_MONITORING_AGENT_METRICS_ADDR'' DefaultAddr)) w
               else w);
          (res, reqs, (a, w)) = Run etxt reporter once env envs (a, w)
      in (run_outcome (pe_done pe) res, reqs, w))"

definition run :: "process_env \<Rightarrow> (tick_error \<Rightarrow> string) \<Rightarrow> bool \<Rightarrow> agent_env \<Rightarrow> agent_env list \<Rightarrow>
    run_error option \<times> request list \<times> world" where
  "run pe etxt once env envs =
     (let getenv = pe_getenv pe;
          apiURL = getenv ''ZENSU_API_URL''; apiKey = getenv ''ZENSU_API_KEY'';
          productID = getenv ''ZENSU_PRODUCT_ID''; scrapeURL = getenv ''ZENSU_MONITORING_AGENT_SCRAPE_URL'';
          w = \<lparr>w_log = [], w_metrics = None\<rparr>
      in case requiredConfig apiURL apiKey productID scrapeURL of
           Some e \<Rightarrow> (Some (InvalidConfiguration e), [], w)
         | None \<Rightarrow>
             (case pe_lister pe of
                Inl e \<Rightarrow> (Some (KubernetesClient e), [], w)
              | Inr lister \<Rightarrow>
                  let reporter = NewReporter apiURL apiKey (15 * 1000000000);
                      metricsEnabled = (envBool getenv ''ZENSU_MONITORING_AGENT_METRICS_ENABLED'' True \<and> \<not> once);
                      w = (if metricsEnabled then w\<lparr>w_metrics := Some NewMetrics\<rparr> else w);
                      sourceCfg = resourceSourceConfig getenv scrapeURL
                  in case NewMetricSource (pe_memory_limit pe) sourceCfg w of
                       (Inl e, w) \<Rightarrow> (Some (ResourceMetricSource e), [], w)
                     | (Inr src, w) \<Rightarrow>
                         run_agent pe etxt once metricsEnabled sourceCfg (agentConfig getenv productID) reporter src env envs w))"

section \<open>The command line\<close>

definition ParseBool :: "string \<Rightarrow> bool option" where
  "ParseBool s =
     (if s \<in> {''1'', ''t'', ''T'', ''TRUE'', ''true'', ''True''} then Some True
      else if s \<in> {''0'', ''f'', ''F'', ''FALSE'', ''false'', ''False''} then Some False else None)"

text \<open>\<open>flag.Parse\<close> with the one flag \<open>once\<close>. One argument gives the value of the flag, ends the
  flags (\<open>None\<close>), or makes the process exit: with status 0 on a request for help, with 2 on a flag that
  is unknown or malformed.\<close>

definition parse_flag :: "string \<Rightarrow> (int, bool option) result" where
  "parse_flag s =
     (if length s < 2 \<or> hd s \<noteq> CHR ''-'' \<or> s = ''--'' then Inr None
      else let name = (if s ! 1 = CHR ''-'' then drop 2 s else drop 1 s);
               key = takeWhile (\<lambda>c. c \<noteq> CHR ''='') name;
               val = drop (length key) name
           in if hd name \<in> {CHR ''-'', CHR ''=''} then Inl 2
              else if key \<noteq> ''once'' then Inl (if key \<in> {''help'', ''h''} then 0 else 2)
              else case (if val = [] then Some True else ParseBool (tl val)) of
                None \<Rightarrow> Inl 2
              | Some b \<Rightarrow> Inr (Some b))"

fun parse_flags :: "bool \<Rightarrow> string list \<Rightarrow> (int, bool) result" where
  "parse_flags once [] = Inr once"
| "parse_flags once (s # args) =
     (case parse_flag s of
        Inl status \<Rightarrow> Inl status
      | Inr None \<Rightarrow> Inr once
      | Inr (Some b) \<Rightarrow> parse_flags b args)"

lemma parse_flag_status: "parse_flag s = Inl status \<Longrightarrow> status \<in> {0, 2}"
  by (auto simp: parse_flag_def Let_def split: if_splits option.splits)

lemma parse_flags_status: "parse_flags once args = Inl status \<Longrightarrow> status \<in> {0, 2}"
  by (induction args arbitrary: once) (auto split: sum.splits option.splits dest: parse_flag_status)

lemma parse_flags_chart: "parse_flags False [] = Inr False" "parse_flags False [''--once''] = Inr True"
  by (simp_all add: parse_flag_def)

section \<open>The program\<close>

text \<open>\<open>main\<close>: the arguments of the process, the reader it hands to \<open>run\<close>, the handler's level, the exit status. \<open>rtxt\<close> gives the
  text of an error of \<open>run\<close>; the result is the status, the requests and the records written out.\<close>

definition agent_main :: "(run_error \<Rightarrow> string) \<Rightarrow> process_env \<Rightarrow> (tick_error \<Rightarrow> string) \<Rightarrow> string list \<Rightarrow> agent_env \<Rightarrow>
    agent_env list \<Rightarrow> int \<times> request list \<times> log_event list" where
  "agent_main rtxt pe etxt args env envs =
     (case parse_flags False args of
        Inl status \<Rightarrow> (status, [], [])
      | Inr once \<Rightarrow>
          let level = envLogLevel (pe_getenv pe)
          in case run pe etxt once env envs of
               (Some e, reqs, w) \<Rightarrow> (1, reqs, emitted_log level (w_log (log (LogAgentStopped (rtxt e)) w)))
             | (None, reqs, w) \<Rightarrow> (0, reqs, emitted_log level (w_log w)))"

end
