(* ===== verification/StartupProps.thy ===== *)
theory StartupProps
  imports Startup
begin

text \<open>
  What startup promises: the values the Helm chart renders are read back exactly, a refused start
  has no effect, the exit status says so, a start that passes posts only to the configured, credential-free URL, and the
  one-shot caveat is given exactly when a scraping source was built.
\<close>

section \<open>Numbers and lists of the environment\<close>

lemma sint_of_nat_int64: "n < 2 ^ 63 \<Longrightarrow> sint (of_nat n :: int64) = int n"
  using sint_int64_of_int [of "int n"] by simp

lemma chart_numbers:
  "envInt64 (env(key := Itoa n)) key d = (if 0 < n \<and> n < 2 ^ 63 then of_nat n else d) \<and>
   envDuration (env(key := Itoa n @ ''s'')) key timeout =
     (if 0 < n \<and> n * 1000000000 < 2 ^ 63 then int n * 1000000000 else timeout)"
  using sint_of_nat_int64 [of n]
  by (auto simp: envInt64_def envDuration_def ParseInt_Itoa ParseDuration_seconds Let_def)

lemma Split_nonempty [simp]: "Split sep s \<noteq> []"
  by (induction s) (auto split: list.split)

lemma Split_append: "sep \<notin> set x \<Longrightarrow> Split sep (x @ rest) = (case Split sep rest of [] \<Rightarrow> [x] | p # ps \<Rightarrow> (x @ p) # ps)"
proof (induction x)
  case Nil
  then show ?case using Split_nonempty [of sep rest] by (cases "Split sep rest") simp_all
next
  case (Cons c x)
  then show ?case using Split_nonempty [of sep rest] by (cases "Split sep rest") auto
qed

lemma Split_join:
  assumes "list_all (\<lambda>x. CHR '','' \<notin> set x) (x # xs)"
  shows "Split (CHR '','') (x @ join_tail xs) = x # xs"
  using assms
proof (induction xs arbitrary: x)
  case Nil
  then show ?case using Split_append [of "CHR '',''" x "[]"] by (simp add: join_tail_def)
next
  case (Cons y ys)
  then show ?case using Split_append [of "CHR '',''" x "CHR '','' # y @ join_tail ys"] by (simp add: join_tail_def)
qed

text \<open>A name the list format can carry: nonempty, without commas and surrounding white space.\<close>

definition listable :: "string \<Rightarrow> bool" where
  "listable x \<longleftrightarrow> x \<noteq> [] \<and> CHR '','' \<notin> set x \<and> TrimSpace x = x"

lemma envList_join:
  assumes "xs \<noteq> []" and "list_all listable xs"
  shows "envList (env(key := join_comma xs)) key d = xs"
proof -
  obtain y ys where x: "xs = y # ys" using assms(1) by (cases xs) auto
  have s: "Split (CHR '','') (join_comma xs) = xs"
    unfolding x join_comma_Cons using assms(2) by (intro Split_join) (auto simp: x listable_def list_all_iff)
  have m: "map TrimSpace xs = xs" using assms(2) by (intro map_idI) (simp add: listable_def list_all_iff)
  have f: "filter (\<lambda>p. p \<noteq> []) xs = xs" using assms(2) by (simp add: listable_def list_all_iff filter_id_conv)
  have "join_comma xs \<noteq> []" using assms(2) by (simp add: x join_comma_Cons listable_def)
  then show ?thesis using assms(1) by (simp add: envList_def Let_def s m f)
qed

text \<open>
  C37. What the Helm chart renders is read back exactly: a byte count in plain decimal, an interval or
  timeout as seconds with the unit \<open>s\<close>, for every number that fits (zero and numbers that do not
  fit fall back to the default), and a comma-separated list of namespaces as the names that were
  joined, in order, when the names are nonempty and have no commas and no surrounding white
  space, as Kubernetes names are.
\<close>

theorem chart_values_roundtrip:
  assumes "xs \<noteq> []" and "list_all listable xs"
  shows "envInt64 (env(key := Itoa n)) key d = (if 0 < n \<and> n < 2 ^ 63 then of_nat n else d) \<and>
    envDuration (env(key := Itoa n @ ''s'')) key timeout =
      (if 0 < n \<and> n * 1000000000 < 2 ^ 63 then int n * 1000000000 else timeout) \<and>
    envList (env(key := join_comma xs)) key namespaces = xs"
  using chart_numbers envList_join [OF assms] by blast

lemma chart_values_roundtrip_witness:
  "envList (\<lambda>k. ''prod,staging'') ''ZENSU_MONITORING_AGENT_NAMESPACES'' [''default''] = [''prod'', ''staging'']"
proof -
  have "listable ''prod''" "listable ''staging''" by (simp_all add: listable_def TrimSpace_id IsSpace_def)
  moreover have "join_comma [''prod'', ''staging''] = ''prod,staging''" by (simp add: join_comma_def)
  ultimately show ?thesis
    using chart_values_roundtrip [of "[''prod'', ''staging'']" "\<lambda>k. ''prod,staging''" "''ZENSU_MONITORING_AGENT_NAMESPACES''" 0 0 0 "[''default'']"]
    by (simp add: fun_upd_def)
qed

text \<open>No entry of a list is empty, and no list is.\<close>

lemma envList_entries: "d \<noteq> [] \<Longrightarrow> envList env key d \<noteq> [] \<and> (envList env key d = d \<or> [] \<notin> set (envList env key d))"
  by (auto simp: envList_def Let_def)

lemma envDuration_pos: "0 < d \<Longrightarrow> 0 < envDuration env key d"
  by (auto simp: envDuration_def Let_def split: option.split)

lemma agentConfig_interval: "0 < Interval (agentConfig env p)"
  by (simp add: agentConfig_def envDuration_pos)

section \<open>The one-shot caveat\<close>

text \<open>
  The one-shot caveat is decided by the configuration exactly as the source is: whenever a source
  can be built, \<open>expositionReachable\<close> holds exactly when the built source can ever scrape, also in
  the auto mode, where the source still reports the name of its primary.
\<close>

theorem expositionReachable_exact:
  "case fst (NewMetricSource rt c w) of
     Inl e \<Rightarrow> True
   | Inr src \<Rightarrow> expositionReachable c =
       (case src of SrcExposition s \<Rightarrow> True | SrcAuto a \<Rightarrow> True | SrcMetricsServer s \<Rightarrow> False | SrcNone \<Rightarrow> False)"
  by (auto simp: NewMetricSource_def expositionReachable_def Let_def split: option.split prod.split)

section \<open>The log level\<close>

lemma level_numbers [simp]:
  "sint (level_number LevelDebug) = - 4" "sint (level_number LevelInfo) = 0"
  "sint (level_number LevelWarn) = 4" "sint (level_number LevelError) = 8"
  by (simp_all add: level_number_def)

lemma LevelInfo_le [simp]: "LevelInfo \<le> l \<longleftrightarrow> l \<noteq> LevelDebug"
  by (cases l) (simp_all add: less_eq_level_def)

lemma emitted_log_level: "emitted_log (level_number l) evs = filter (\<lambda>e. l \<le> event_level e) evs"
  by (simp add: emitted_log_def less_eq_level_def)

text \<open>
  An unreadable level costs nothing but Debug records: with the level unset, or set to a text
  that \<open>UnmarshalText\<close> refuses, exactly the records that are not at Debug are written.
\<close>

theorem unreadable_level_is_info:
  "let raw = env ''ZENSU_MONITORING_AGENT_LOG_LEVEL'' in
   case (if raw = [] then None else ParseLevel raw) of
     None \<Rightarrow> emitted_log (envLogLevel env) evs = filter (\<lambda>e. event_level e \<noteq> LevelDebug) evs
   | Some l \<Rightarrow> envLogLevel env = l"
  by (auto simp: envLogLevel_def Let_def emitted_log_level split: option.split)

section \<open>Runs\<close>

lemma run_loop_requests_inv:
  assumes t: "\<And>env a w. cfg a = c \<Longrightarrow>
      list_all P (fst (fst (Tick r env (a, w)))) \<and> cfg (fst (snd (Tick r env (a, w)))) = c"
    and "list_all P reqs" and "cfg a = c"
  shows "list_all P (fst (run_loop etxt r envs (reqs, (a, w))))"
  using assms(2,3)
proof (induction envs arbitrary: reqs a w)
  case (Cons env envs)
  obtain q a1 w1 where k: "tickOnce etxt r env (a, w) = (q, (a1, w1))" by (metis surj_pair)
  have "list_all P (reqs @ q)" "cfg a1 = c"
    using t [OF Cons.prems(2), of env w] Cons.prems(1) tickOnce_Tick(1,2) [of etxt r env a w] by (simp_all add: k)
  from Cons.IH [OF this] show ?case by (simp add: run_loop_def k)
qed (simp add: run_loop_def)

lemma Run_requests_inv:
  assumes t: "\<And>env a w. cfg a = c \<Longrightarrow>
      list_all P (fst (fst (Tick r env (a, w)))) \<and> cfg (fst (snd (Tick r env (a, w)))) = c"
    and "cfg a = c"
  shows "list_all P (fst (snd (Run etxt r once env envs (a, w))))"
  using t [OF assms(2), of env w] run_loop_requests_inv [OF t, of "[]" a etxt "env # envs" w] assms(2)
  by (auto simp: Run_def split: prod.split)

text \<open>What of a start decides whether it is refused, in terms of the environment.\<close>

definition startable :: "process_env \<Rightarrow> bool" where
  "startable pe \<longleftrightarrow>
     (let getenv = pe_getenv pe; scrapeURL = getenv ''ZENSU_MONITORING_AGENT_SCRAPE_URL'';
          mode = getenv ''ZENSU_MONITORING_AGENT_RESOURCE_SOURCE''
      in getenv ''ZENSU_API_KEY'' \<noteq> [] \<and> getenv ''ZENSU_PRODUCT_ID'' \<noteq> [] \<and>
         usable_url (getenv ''ZENSU_API_URL'') \<and> (scrapeURL = [] \<or> usable_url scrapeURL) \<and>
         \<not> isl (pe_lister pe) \<and>
         (mode \<in> {[], SourceAuto, SourceMetricsServer, SourceNone} \<or> mode = SourceExposition \<and> scrapeURL \<noteq> []))"

lemma usable_nonempty: "usable_url raw \<Longrightarrow> raw \<noteq> []"
  by (auto simp: usable_url_def url_Parse_def cut_def parse_url_def parse_rest_def Let_def)

lemma ValidateScrapeURL_None: "ValidateScrapeURL raw = None \<longleftrightarrow> usable_url raw"
  by (simp add: ValidateScrapeURL_def validateURL_None)

lemma ValidateAPIURL_None: "ValidateAPIURL raw = None \<longleftrightarrow> usable_url raw"
  by (simp add: ValidateAPIURL_def validateURL_None)

lemma requiredConfig_None:
  "requiredConfig apiURL apiKey productID scrapeURL = None \<longleftrightarrow>
     apiKey \<noteq> [] \<and> productID \<noteq> [] \<and> usable_url apiURL \<and> (scrapeURL = [] \<or> usable_url scrapeURL)"
  using usable_nonempty [of apiURL] ValidateAPIURL_None [of apiURL]
  by (cases "ValidateAPIURL apiURL") (auto simp: requiredConfig_def ValidateScrapeURL_None)

lemma NewMetricSource_Inl:
  "(\<exists>e. NewMetricSource rt c w = (Inl e, w)) \<and> \<not> workable c \<or> (\<exists>src w'. NewMetricSource rt c w = (Inr src, w')) \<and> workable c"
proof -
  have v: "ValidateScrapeURL raw = Some e \<Longrightarrow> \<not> usable_url raw" for raw e
    using ValidateScrapeURL_None [of raw] by auto
  show ?thesis
    by (auto simp: NewMetricSource_def workable_def Let_def ValidateScrapeURL_None dest: v split: option.split prod.split)
qed

lemma workable_startable:
  "startable pe \<longleftrightarrow>
     requiredConfig (pe_getenv pe ''ZENSU_API_URL'') (pe_getenv pe ''ZENSU_API_KEY'') (pe_getenv pe ''ZENSU_PRODUCT_ID'')
       (pe_getenv pe ''ZENSU_MONITORING_AGENT_SCRAPE_URL'') = None \<and> \<not> isl (pe_lister pe) \<and>
     workable (resourceSourceConfig (pe_getenv pe) (pe_getenv pe ''ZENSU_MONITORING_AGENT_SCRAPE_URL''))"
  by (auto simp: startable_def requiredConfig_None workable_def resourceSourceConfig_def envOr_def Let_def usable_nonempty)

text \<open>\<open>run\<close> in terms of the start: a refusal without effect, or the run of the agent.\<close>

lemma run_cases:
  "(\<not> startable pe \<and> (\<exists>e w. run pe etxt once env envs = (Some e, [], w) \<and> w_log w = [])) \<or>
   (startable pe \<and> (\<exists>src w res reqs a' w'.
      Run etxt (NewReporter (pe_getenv pe ''ZENSU_API_URL'') (pe_getenv pe ''ZENSU_API_KEY'') (15 * 1000000000)) once env envs
        (NewAgent (agentConfig (pe_getenv pe) (pe_getenv pe ''ZENSU_PRODUCT_ID'')) (Some src), w) = (res, reqs, (a', w')) \<and>
      run pe etxt once env envs = (run_outcome (pe_done pe) res, reqs, w')))"
proof -
  let ?g = "pe_getenv pe" and ?url = "pe_getenv pe ''ZENSU_MONITORING_AGENT_SCRAPE_URL''"
  let ?w0 = "\<lparr>w_log = [], w_metrics = None\<rparr> :: world"
  let ?enabled = "envBool ?g ''ZENSU_MONITORING_AGENT_METRICS_ENABLED'' True \<and> \<not> once"
  let ?w = "if ?enabled then ?w0\<lparr>w_metrics := Some NewMetrics\<rparr> else ?w0"
  let ?c = "resourceSourceConfig ?g ?url"
  show ?thesis
  proof (cases "requiredConfig (?g ''ZENSU_API_URL'') (?g ''ZENSU_API_KEY'') (?g ''ZENSU_PRODUCT_ID'') ?url = None \<and> \<not> isl (pe_lister pe)")
    case False
    then show ?thesis by (cases "pe_lister pe") (auto simp: workable_startable run_def Let_def split: option.split)
  next
    case True
    show ?thesis
    proof (cases "workable ?c")
      case w: False
      then obtain e where "NewMetricSource (pe_memory_limit pe) ?c ?w = (Inl e, ?w)"
        using NewMetricSource_Inl [of "pe_memory_limit pe" ?c ?w] by blast
      moreover have "w_log ?w = []" by simp
      ultimately show ?thesis using True w by (cases "pe_lister pe") (auto simp: workable_startable run_def Let_def)
    next
      case w: True
      then obtain src w1 where n: "NewMetricSource (pe_memory_limit pe) ?c ?w = (Inr src, w1)"
        using NewMetricSource_Inl [of "pe_memory_limit pe" ?c ?w] by blast
      then have "run pe etxt once env envs =
          run_agent pe etxt once ?enabled ?c (agentConfig ?g (?g ''ZENSU_PRODUCT_ID''))
            (NewReporter (?g ''ZENSU_API_URL'') (?g ''ZENSU_API_KEY'') (15 * 1000000000)) src env envs w1"
        using True by (cases "pe_lister pe") (simp_all add: run_def Let_def)
      moreover have "startable pe" using True w by (simp add: workable_startable)
      ultimately show ?thesis
        by (simp add: run_agent_def Let_def split_beta) (metis prod.collapse)
    qed
  qed
qed

lemma run_once_error:
  "Run etxt r True env envs (a, w) = (res, reqs, aw) \<Longrightarrow>
     case run_outcome d res of None \<Rightarrow> True | Some e \<Rightarrow> e \<in> range RunFailed"
  by (auto simp: Run_def run_outcome_def split: option.splits prod.splits if_splits)

lemma run_loop_outcome:
  assumes "Run etxt r False env envs (NewAgent (agentConfig g p) src, w) = (res, reqs, aw)"
  shows "run_outcome d res = None"
proof -
  have "0 < Interval (cfg (NewAgent (agentConfig g p) src))" by (simp add: NewAgent_def agentConfig_interval)
  then show ?thesis using assms by (auto simp: Run_def run_outcome_def split: prod.splits if_splits)
qed

lemma run_long_running:
  assumes "startable pe" and "run pe etxt once env envs = (err, reqs, w)"
  shows "if once then (case err of None \<Rightarrow> True | Some e \<Rightarrow> e \<in> range RunFailed) else err = None"
  using run_cases [of pe etxt once env envs] assms run_once_error run_loop_outcome by (cases once) auto

text \<open>
  A start is refused exactly when its environment cannot work, and a refused start has no effect:
  no request, no log record. Every other start returns without an error in the long-running
  mode, the refusal of a non-positive interval included, which no environment can provoke; with
  \<open>-once\<close> its only error is that of the single tick.
\<close>

theorem run_refusals:
  "case run pe etxt once env envs of (err, reqs, w) \<Rightarrow>
     if startable pe then (if once then (case err of None \<Rightarrow> True | Some e \<Rightarrow> e \<in> range RunFailed) else err = None)
     else err \<noteq> None \<and> reqs = [] \<and> w_log w = []"
proof (cases "startable pe")
  case True
  then show ?thesis using run_long_running [OF True] by (auto split: prod.split)
next
  case False
  then show ?thesis using run_cases [of pe etxt once env envs] by auto
qed


lemma run_once_outcome:
  assumes "startable pe" and "run pe etxt once env envs = (err, reqs, w)"
  shows "(err \<noteq> None) = (once \<and> \<not> pe_done pe \<and>
    tick_fails (pe_getenv pe ''ZENSU_API_URL'') (agentConfig (pe_getenv pe) (pe_getenv pe ''ZENSU_PRODUCT_ID'')) env)"
proof -
  let ?g = "pe_getenv pe"
  obtain src w0 res q a' w' where
    R: "Run etxt (NewReporter (?g ''ZENSU_API_URL'') (?g ''ZENSU_API_KEY'') (15 * 1000000000)) once env envs
        (NewAgent (agentConfig ?g (?g ''ZENSU_PRODUCT_ID'')) (Some src), w0) = (res, q, (a', w'))" and
    e: "err = run_outcome (pe_done pe) res"
    using run_cases [of pe etxt once env envs] assms by auto
  have c: "cfg (NewAgent (agentConfig ?g (?g ''ZENSU_PRODUCT_ID'')) (Some src)) = agentConfig ?g (?g ''ZENSU_PRODUCT_ID'')"
    by (simp add: NewAgent_def)
  show ?thesis
    using Run_spec [where etxt = etxt and base = "?g ''ZENSU_API_URL''" and key = "?g ''ZENSU_API_KEY''" and
        timeout = "15 * 1000000000" and once = once and env = env and envs = envs and
        a = "NewAgent (agentConfig ?g (?g ''ZENSU_PRODUCT_ID'')) (Some src)" and w = w0] agentConfig_interval [of ?g "?g ''ZENSU_PRODUCT_ID''"]
    unfolding R c by (auto simp: e run_outcome_def split: run_result.splits option.splits)
qed

text \<open>
  C36. The exit status: a command line that is refused, or a request for help, ends the process
  before it does anything, with status 2 or 0. Otherwise the status is 1 exactly when its start is refused
  or, with \<open>-once\<close>, its single tick fails (a namespace cannot be listed, or there is an annotated workload
  and the request cannot be built or is not accepted) and the context is not done, and 0 in every other
  case; so a long-running process that started exits with status 0 whatever its ticks met. A refused start
  writes the one record that says so, at every level that lets errors through, and posts nothing.
\<close>

theorem main_status:
  "case agent_main rtxt pe etxt args env envs of (status, reqs, written) \<Rightarrow>
     (case parse_flags False args of
        Inl s \<Rightarrow> status = s \<and> s \<in> {0, 2} \<and> reqs = [] \<and> written = []
      | Inr once \<Rightarrow>
          if startable pe then
            status = (if once \<and> \<not> pe_done pe \<and> tick_fails (pe_getenv pe ''ZENSU_API_URL'')
              (agentConfig (pe_getenv pe) (pe_getenv pe ''ZENSU_PRODUCT_ID'')) env then 1 else 0)
          else status = 1 \<and> reqs = [] \<and>
            (if sint (envLogLevel (pe_getenv pe)) \<le> 8 then map event_level written = [LevelError] else written = []))"
proof (cases "parse_flags False args")
  case (Inl s)
  then show ?thesis using parse_flags_status [OF Inl] by (simp add: agent_main_def)
next
  case once: (Inr once)
  show ?thesis
  proof (cases "startable pe")
    case True
    obtain err reqs w where r: "run pe etxt once env envs = (err, reqs, w)" by (metis surj_pair)
    show ?thesis using True r once run_once_outcome [OF True r] by (cases err) (auto simp: agent_main_def Let_def)
  next
    case False
    then obtain e w where "run pe etxt once env envs = (Some e, [], w)" "w_log w = []"
      using run_cases [of pe etxt once env envs] by auto
    then show ?thesis using False once by (simp add: agent_main_def Let_def emitted_log_def event_level_def)
  qed
qed

text \<open>
  C5. Whatever a run meets, everything it posts goes to the configured heartbeat URL, whose base is an
  accepted URL without credentials, and is a well-formed batch for the configured product with
  the configured key.
\<close>

theorem run_posts_only_heartbeats:
  "list_all (\<lambda>q. good_request (pe_getenv pe ''ZENSU_API_URL'') (pe_getenv pe ''ZENSU_API_KEY'')
       (agentConfig (pe_getenv pe) (pe_getenv pe ''ZENSU_PRODUCT_ID'')) q \<and>
     usable_url (pe_getenv pe ''ZENSU_API_URL'') \<and> ProductID (rq_body q) \<noteq> [])
   (fst (snd (run pe etxt once env envs)))"
proof (cases "startable pe")
  case True
  let ?g = "pe_getenv pe"
  let ?c = "agentConfig ?g (?g ''ZENSU_PRODUCT_ID'')"
  obtain src w res reqs a' w' where r:
    "Run etxt (NewReporter (?g ''ZENSU_API_URL'') (?g ''ZENSU_API_KEY'') (15 * 1000000000)) once env envs (NewAgent ?c (Some src), w)
       = (res, reqs, (a', w'))" "run pe etxt once env envs = (run_outcome (pe_done pe) res, reqs, w')"
    using run_cases [of pe etxt once env envs] True by blast
  let ?r = "NewReporter (?g ''ZENSU_API_URL'') (?g ''ZENSU_API_KEY'') (15 * 1000000000)"
  let ?P = "good_request (?g ''ZENSU_API_URL'') (?g ''ZENSU_API_KEY'') ?c"
  have t: "list_all ?P (fst (fst (Tick ?r env (a, w)))) \<and> cfg (fst (snd (Tick ?r env (a, w)))) = ?c" if "cfg a = ?c" for env a w
    using Tick_good that by metis
  have c: "cfg (NewAgent ?c (Some src)) = ?c" by (simp add: NewAgent_def)
  from Run_requests_inv [OF t c, of etxt once env envs w] r(1) have "list_all ?P reqs" by simp
  moreover have "usable_url (?g ''ZENSU_API_URL'')" "?g ''ZENSU_PRODUCT_ID'' \<noteq> []"
    using True by (simp_all add: startable_def Let_def)
  ultimately show ?thesis using r(2) by (auto simp: list_all_iff good_request_def agentConfig_def)
next
  case False
  then show ?thesis using run_cases [of pe etxt once env envs] by auto
qed

section \<open>The interval on the wire\<close>

lemma int32_of_f64_int: "- (2 ^ 31) \<le> n \<Longrightarrow> n < 2 ^ 31 \<Longrightarrow> int32_of_f64 other (Fin (of_int n)) = word_of_int n"
proof -
  have "sgn (of_int n :: rat) * of_int \<lfloor>\<bar>of_int n :: rat\<bar>\<rfloor> = of_int n"
    by (simp add: of_int_abs [symmetric] sgn_if del: of_int_abs)
  moreover assume "- (2 ^ 31) \<le> n" "n < 2 ^ 31"
  then have "- (2 ^ 31) \<le> (of_int n :: rat)" "(of_int n :: rat) < 2 ^ 31"
    by (metis of_int_le_iff of_int_minus of_int_numeral of_int_power, metis of_int_less_iff of_int_numeral of_int_power)
  ultimately show ?thesis by (simp add: int32_of_f64_def Let_def)
qed

lemma Seconds_whole:
  assumes "\<bar>n\<bar> \<le> 2 ^ 53"
  shows "Seconds (n * 1000000000) = Fin (of_int n)"
proof -
  have "sgn (n * 1000000000) * (\<bar>n * 1000000000\<bar> div 1000000000) = n" "\<bar>n * 1000000000\<bar> mod 1000000000 = 0"
    by (simp_all add: abs_mult sgn_mult mult_sgn_abs)
  moreover have "f64_add (Fin (of_int n)) (Fin 0) = Fin (of_int n)" using f64_add_int_exact [of n 0] assms by simp
  ultimately show ?thesis using assms by (simp add: Seconds_def f64_of_int_exact round_f64_def)
qed

lemma Collect_interval:
  assumes "fst (Collect env (a, w)) = Inr services"
    and "0 < n" "n < 2 ^ 31" "Interval (cfg a) = n * 1000000000"
  shows "list_all (\<lambda>s. IntervalSeconds s = word_of_int n) services"
proof -
  have "IntervalSeconds (attach ms s) = IntervalSeconds s" for ms s
    by (simp add: attach_def split: option.split)
  moreover have "IntervalSeconds (entry_of env (Interval (cfg a)) nd) = word_of_int n" for nd
    using assms(2-4) int32_of_f64_int [of n] Seconds_whole [of n] by (cases nd) (simp add: entry_of_def Let_def)
  ultimately show ?thesis using assms(1) Collect_cases [of env a w]
    by (auto simp: Let_def list_all_iff split: sum.splits)
qed

lemma Tick_interval:
  assumes "0 < n" "n < 2 ^ 31" "Interval (cfg a) = n * 1000000000"
  shows "list_all (\<lambda>q. list_all (\<lambda>s. IntervalSeconds s = word_of_int n) (Services (rq_body q)))
    (fst (fst (Tick (NewReporter base key timeout) env (a, w))))"
proof -
  obtain res a1 w1 where c: "Collect env (a, w) = (res, a1, w1)" by (metis surj_pair)
  show ?thesis
  proof (cases res)
    case (Inl e)
    then show ?thesis by (simp add: Tick_eq c)
  next
    case (Inr services)
    then show ?thesis using Collect_interval [of env a w services n] assms c
      by (auto simp: Tick_eq Let_def Send_simps post_NewReporter split: option.split)
  qed
qed

text \<open>
  C20. The interval the operator sets is the interval every service is reported with: with
  \<open>ZENSU_MONITORING_AGENT_INTERVAL\<close> rendered as \<open>n\<close> seconds, every service of every batch of
  every run carries exactly \<open>n\<close>, for every positive \<open>n\<close> below \<open>2^31\<close>, through the parse of
  the duration, its conversion to floating-point seconds and the conversion to 32 bits.
\<close>

theorem interval_on_the_wire:
  assumes "0 < n" and "n < 2 ^ 31" and "pe_getenv pe ''ZENSU_MONITORING_AGENT_INTERVAL'' = Itoa n @ ''s''"
  shows "list_all (\<lambda>q. list_all (\<lambda>s. sint (IntervalSeconds s) = int n) (Services (rq_body q)))
    (fst (snd (run pe etxt once env envs)))"
proof (cases "startable pe")
  case True
  let ?g = "pe_getenv pe"
  let ?c = "agentConfig ?g (?g ''ZENSU_PRODUCT_ID'')"
  let ?r = "NewReporter (?g ''ZENSU_API_URL'') (?g ''ZENSU_API_KEY'') (15 * 1000000000)"
  let ?P = "\<lambda>q. list_all (\<lambda>s. IntervalSeconds s = word_of_int (int n)) (Services (rq_body q))"
  obtain src w res reqs a' w' where r: "Run etxt ?r once env envs (NewAgent ?c (Some src), w) = (res, reqs, (a', w'))"
    "run pe etxt once env envs = (run_outcome (pe_done pe) res, reqs, w')"
    using run_cases [of pe etxt once env envs] True by blast
  have i: "Interval ?c = int n * 1000000000"
    using assms by (simp add: agentConfig_def envDuration_def ParseDuration_seconds)
  have t: "list_all ?P (fst (fst (Tick ?r env (a, w)))) \<and> cfg (fst (snd (Tick ?r env (a, w)))) = ?c" if "cfg a = ?c" for env a w
    using Tick_good [of _ _ a] Tick_interval [of "int n" a] that i assms(1,2) by (metis of_nat_0_less_iff of_nat_less_numeral_power_cancel_iff)
  have c: "cfg (NewAgent ?c (Some src)) = ?c" by (simp add: NewAgent_def)
  from Run_requests_inv [OF t c, of etxt once env envs w] r(1) have "list_all ?P reqs" by simp
  moreover have "sint (word_of_int (int n) :: int32) = int n" using assms(2) by (intro sint_int32_of_int) simp_all
  ultimately show ?thesis using r(2) by (simp add: list_all_iff)
next
  case False
  then show ?thesis using run_cases [of pe etxt once env envs] by auto
qed

definition example_getenv :: getenv where
  "example_getenv = (\<lambda>k. [])(''ZENSU_API_URL'' := ''https://zensu.example'', ''ZENSU_API_KEY'' := ''key'',
     ''ZENSU_PRODUCT_ID'' := ''product'', ''ZENSU_MONITORING_AGENT_INTERVAL'' := ''60s'')"

definition example_process_env :: process_env where
  "example_process_env = \<lparr>pe_getenv = example_getenv, pe_lister = Inr (ae_cluster idle_env),
     pe_memory_limit = 0, pe_done = False\<rparr>"

lemma interval_on_the_wire_witness:
  "list_all (\<lambda>q. list_all (\<lambda>s. sint (IntervalSeconds s) = 60) (Services (rq_body q)))
    (fst (snd (run example_process_env (\<lambda>_. []) False busy_env [idle_env])))"
proof -
  have "Itoa 60 @ ''s'' = ''60s''" by code_simp
  then have "pe_getenv example_process_env ''ZENSU_MONITORING_AGENT_INTERVAL'' = Itoa 60 @ ''s''"
    by (simp add: example_process_env_def example_getenv_def)
  from interval_on_the_wire [OF _ _ this] show ?thesis by simp
qed

end
