(* ===== verification/ProcessMetrics.thy ===== *)
theory ProcessMetrics
  imports Process
begin

text \<open>
  The self-metrics over whole executions: in every reachable state of the process the registry
  agrees with the log and with the requests made, and the listener exports exactly the series it
  exported at the start.
\<close>

section \<open>What a tick does to the registry\<close>

lemma Collect_registry: "rel_option agent_step (w_metrics w) (w_metrics (snd (snd (Collect env (a, w)))))"
proof (cases "deployments (ae_cluster env) (Namespaces (cfg a))")
  case (Inl e)
  then show ?thesis using Collect_cases [of env a w] by (simp add: option.rel_refl agent_step_def)
next
  case (Inr ds)
  then obtain ms m1 n c r src where m: "source_metrics (w_metrics w) m1"
    "w_metrics (snd (snd (Collect env (a, w)))) =
       SetResourceSource src (SetResourceSamples ''memory'' r (SetResourceSamples ''cpu'' c (SetResourceServicesMapped n m1)))"
    using Collect_cases [of env a w] by (auto simp: Let_def)
  have roles: "''cpu'' \<in> set ResourceRoles" "''memory'' \<in> set ResourceRoles" by (simp_all add: ResourceRoles_def)
  note step = rel_agent_step_trans
  show ?thesis unfolding m(2)
    by (rule step [OF source_metrics_agent [OF m(1)] step [OF agent_step_mapped step [OF agent_step_samples [OF roles(1)]
      step [OF agent_step_samples [OF roles(2)] agent_step_source]]]])
qed

lemma Collect_scrapes:
  "scrape_counts (tick_scrapes (cfg a) env (source a)) (w_metrics w) (w_metrics (snd (snd (Collect env (a, w)))))"
proof (cases "deployments (ae_cluster env) (Namespaces (cfg a))")
  case (Inl e)
  then show ?thesis using Collect_cases [of env a w] by (simp add: tick_scrapes_def)
next
  case (Inr ds)
  then obtain m1 n c r src where m: "scrape_counts (tick_scrapes (cfg a) env (source a)) (w_metrics w) m1"
    "w_metrics (snd (snd (Collect env (a, w)))) =
       SetResourceSource src (SetResourceSamples ''memory'' r (SetResourceSamples ''cpu'' c (SetResourceServicesMapped n m1)))"
    using Collect_cases [of env a w] by (auto simp: Let_def tick_scrapes_def)
  note step = scrape_counts_none
  show ?thesis unfolding m(2)
    by (rule step [OF step [OF step [OF step [OF m(1) scrape_counts_simps(3)] scrape_counts_simps(4)] scrape_counts_simps(4)]
      scrape_counts_simps(5)])
qed

section \<open>Accounts\<close>

definition last_reported :: "log_event list \<Rightarrow> nat" where
  "last_reported evs = last (0 # List.map_filter reported_count evs)"

fun sent_event :: "log_event \<Rightarrow> bool" where
  "sent_event (LogHeartbeatSent n) = True"
| "sent_event e = False"

lemma last_reported_append:
  "last_reported (xs @ ys) = (if List.map_filter reported_count ys = [] then last_reported xs
     else last (List.map_filter reported_count ys))"
  by (simp add: last_reported_def List.map_filter_def)

lemma quiet_events:
  assumes "list_all (\<lambda>e. reported_count e = None) evs"
  shows "last_reported (xs @ evs) = last_reported xs" "filter sent_event evs = []"
proof -
  show "last_reported (xs @ evs) = last_reported xs"
    using assms by (simp add: last_reported_append List.map_filter_def filter_empty_conv list_all_iff)
  have "\<not> sent_event e" if "reported_count e = None" for e using that by (cases e) simp_all
  then show "filter sent_event evs = []" using assms by (simp add: filter_empty_conv list_all_iff)
qed

text \<open>The registry against the records written, the number of requests made, the attempts to post and
  the scrapes since the start.\<close>

definition accounts :: "log_event list \<Rightarrow> nat \<Rightarrow> (bool \<times> f64 \<times> f64) list \<Rightarrow> (bool \<times> f64) list \<Rightarrow> obs_metrics \<Rightarrow> bool" where
  "accounts evs reqs posts scs m \<longleftrightarrow> registry_ok m \<and>
     fmget 0 (heartbeats m) ''success'' = length (filter fst posts) \<and>
     fmget 0 (heartbeats m) ''error'' = length (filter (Not \<circ> fst) posts) \<and>
     postDuration m = rev (map (fst \<circ> snd) posts) \<and>
     lastSuccess m = last (Fin 0 # map (snd \<circ> snd) (filter fst posts)) \<and>
     fmget 0 (scrapes m) ''success'' = length (filter fst scs) \<and>
     fmget 0 (scrapes m) ''error'' = length (filter (Not \<circ> fst) scs) \<and>
     scrapeDuration m = rev (map snd scs) \<and>
     length (filter sent_event evs) = length (filter fst posts) \<and>
     length (filter fst posts) \<le> reqs \<and> reqs \<le> length posts \<and>
     servicesReported m = f64_of_int (int (last_reported evs))"

lemma accounts_start: "accounts [] 0 [] [] NewMetrics"
  by (simp add: accounts_def last_reported_def List.map_filter_simps) (simp add: NewMetrics_def label_init_def)

lemma accounts_quiet:
  "accounts evs n posts scs m \<Longrightarrow> list_all (\<lambda>e. reported_count e = None) new \<Longrightarrow> accounts (evs @ new) n posts scs m"
  by (simp add: accounts_def quiet_events)

lemma accounts_collect:
  "accounts evs n posts scs m \<Longrightarrow> agent_step m m' \<Longrightarrow> scrape_counts outs (Some m) (Some m') \<Longrightarrow>
   accounts evs n posts (scs @ outs) m'"
  by (simp add: accounts_def agent_step_def scrape_counts_def)

lemma registry_ok_reported [simp]: "registry_ok (m\<lparr>servicesReported := x\<rparr>) = registry_ok m"
  by (simp add: registry_ok_def labelled_def)

lemma accounts_report:
  "accounts evs n posts scs m \<Longrightarrow>
   accounts (evs @ [LogNoWorkloads s]) n posts scs (m\<lparr>servicesReported := f64_of_int 0\<rparr>)"
  by (simp add: accounts_def last_reported_append List.map_filter_simps)

lemma heartbeat_counts:
  assumes "RecordHeartbeat ok d t (Some m) = Some m'" "registry_ok m"
  shows "registry_ok m' \<and> servicesReported m' = servicesReported m \<and> scrapes m' = scrapes m \<and> scrapeDuration m' = scrapeDuration m \<and>
    fmget 0 (heartbeats m') ''success'' = fmget 0 (heartbeats m) ''success'' + (if ok then 1 else 0) \<and>
    fmget 0 (heartbeats m') ''error'' = fmget 0 (heartbeats m) ''error'' + (if ok then 0 else 1) \<and>
    postDuration m' = d # postDuration m \<and> lastSuccess m' = (if ok then t else lastSuccess m)"
proof -
  have "servicesReported m' = servicesReported m \<and> scrapes m' = scrapes m \<and> scrapeDuration m' = scrapeDuration m"
    using assms(1) by (auto simp: RecordHeartbeat_def)
  then show ?thesis
    using registry_ok_heartbeat [OF assms(2), of ok d t] RecordHeartbeat_accounting [of ok d t m] assms(1) by simp
qed

lemma accounts_failure:
  "accounts evs n posts scs m \<Longrightarrow> k \<le> 1 \<Longrightarrow> RecordHeartbeat False d t (Some m) = Some m' \<Longrightarrow>
   accounts evs (n + k) (posts @ [(False, d, t)]) scs m'"
  using heartbeat_counts [of False d t m m'] by (simp add: accounts_def)

lemma accounts_success:
  "accounts evs n posts scs m \<Longrightarrow> RecordHeartbeat True d t (Some m) = Some m' \<Longrightarrow>
   accounts (evs @ [LogHeartbeatSent k]) (Suc n) (posts @ [(True, d, t)]) scs (m'\<lparr>servicesReported := f64_of_int (int k)\<rparr>)"
  using heartbeat_counts [of True d t m m']
  by (simp add: accounts_def last_reported_append List.map_filter_simps)

section \<open>Ticks\<close>

lemma Tick_accounts:
  assumes w: "w_log w = l @ evs" "w_metrics w = Some m" "accounts evs n posts scs m"
    and T: "Tick (NewReporter base key timeout) env (a, w) = ((reqs, err), (a', w'))"
  shows "\<exists>evs' m'. w_log w' = l @ evs' \<and> w_metrics w' = Some m' \<and>
    accounts evs' (n + length reqs) (posts @ tick_attempts base (cfg a) env) (scs @ tick_scrapes (cfg a) env (source a)) m'"
proof -
  let ?r = "NewReporter base key timeout" and ?scs = "scs @ tick_scrapes (cfg a) env (source a)"
  obtain res a1 w1 where c: "Collect env (a, w) = (res, a1, w1)" by (metis surj_pair)
  obtain new where new: "w_log w1 = w_log w @ new" "list_all (collect_event (ae_done env)) new"
    using Collect_logs [of env w a] by (auto simp: c logs_def)
  then have quiet: "list_all (\<lambda>e. reported_count e = None) new" by (auto simp: list_all_iff collect_event_def)
  obtain m1 where m1: "w_metrics w1 = Some m1" "agent_step m m1"
    using Collect_registry [of w env a] w(2) by (auto simp: c option_rel_Some1)
  have sc: "scrape_counts (tick_scrapes (cfg a) env (source a)) (Some m) (Some m1)"
    using Collect_scrapes [of a env w] w(2) m1(1) by (simp add: c)
  have acc: "accounts (evs @ new) n posts ?scs m1" by (rule accounts_collect [OF accounts_quiet [OF w(3) quiet] m1(2) sc])
  have l1: "w_log w1 = l @ (evs @ new)" using new(1) w(1) by simp
  have cfg: "cfg a1 = cfg a" using Collect_same_cfg [of env a w] by (simp add: c)
  note services = Collect_services [of env a w, unfolded c fst_conv]
  show ?thesis
  proof (cases res)
    case (Inl e)
    then have "reqs = []" "w' = w1" using T by (simp_all add: Tick_eq c)
    moreover have "tick_attempts base (cfg a) env = []"
      using services Inl by (auto simp: tick_attempts_def split: sum.splits)
    ultimately show ?thesis using l1 m1 acc by auto
  next
    case (Inr services)
    have atts: "tick_attempts base (cfg a) env = (if services = [] then []
        else [(api_accepts base (ae_send env), se_seconds (ae_send env), se_now (ae_send env))])"
      using \<open>case tick_services env (cfg a) of Inl e \<Rightarrow> _ e | Inr bare \<Rightarrow> _ bare\<close> Inr
      by (auto simp: tick_attempts_def split: sum.splits)
    show ?thesis
    proof (cases "services = []")
      case True
      have "accounts ((evs @ new) @ [LogNoWorkloads AnnotationService]) n posts ?scs (m1\<lparr>servicesReported := f64_of_int 0\<rparr>)"
        by (rule accounts_report [OF acc])
      then show ?thesis using T l1 m1 atts by (auto simp: Tick_eq c Inr True SetServicesReported_def)
    next
      case False
      let ?batch = "\<lparr>ProductID = CfgProductID (cfg a1), Source = CfgSource (cfg a1), Services = services\<rparr>"
      let ?d = "se_seconds (ae_send env)" and ?t = "se_now (ae_send env)"
      obtain qs serr where P: "post ?r (ae_send env) ?batch = (qs, serr)" by (metis surj_pair)
      have "json_finite ?batch" using Collect_finite [of env a w services] c Inr by simp
      then have ok: "serr = None \<longleftrightarrow> api_accepts base (ae_send env)"
        using post_spec(2) [of ?batch base key timeout "ae_send env"] P by simp
      obtain m2 where m2: "RecordHeartbeat (serr = None) ?d ?t (Some m1) = Some m2"
        by (simp add: RecordHeartbeat_def)
      have q: "length qs \<le> 1" "serr = None \<Longrightarrow> length qs = 1"
        using P by (auto simp: post_NewReporter split: if_splits option.splits)
      show ?thesis
      proof (cases serr)
        case None
        have "accounts ((evs @ new) @ [LogHeartbeatSent (length services)]) (Suc n) (posts @ [(True, ?d, ?t)]) ?scs
            (m2\<lparr>servicesReported := f64_of_int (int (length services))\<rparr>)"
          using m2 None by (intro accounts_success [OF acc]) simp
        then show ?thesis using T l1 m1 m2 False q(2) None P atts ok
          by (auto simp: Tick_eq c Inr Send_simps SetServicesReported_def Let_def)
      next
        case (Some e)
        have "accounts (evs @ new) (n + length qs) (posts @ [(False, ?d, ?t)]) ?scs m2"
          using m2 Some by (intro accounts_failure [OF acc q(1)]) simp
        then show ?thesis using T l1 m1 m2 False Some P atts ok
          by (auto simp: Tick_eq c Inr Send_simps Let_def)
      qed
    qed
  qed
qed

text \<open>The attempts to post and the scrapes of an execution so far, from its ticks.\<close>

definition attempts_so_far :: "string \<Rightarrow> Config \<Rightarrow> process \<Rightarrow> (bool \<times> f64 \<times> f64) list" where
  "attempts_so_far base c p = concat (map (\<lambda>(env, src). tick_attempts base c env) (pr_ticks p))"

definition scrapes_so_far :: "Config \<Rightarrow> process \<Rightarrow> (bool \<times> f64) list" where
  "scrapes_so_far c p = concat (map (\<lambda>(env, src). tick_scrapes c env src) (pr_ticks p))"

text \<open>The invariant of an execution.\<close>

definition accounted :: "string \<Rightarrow> Config \<Rightarrow> world \<Rightarrow> process \<Rightarrow> bool" where
  "accounted base c w0 p \<longleftrightarrow> cfg (pr_agent p) = c \<and>
     (\<exists>evs m. w_log (pr_world p) = w_log w0 @ evs \<and> w_metrics (pr_world p) = Some m \<and>
       accounts evs (length (pr_requests p)) (attempts_so_far base c p) (scrapes_so_far c p) m)"

lemma accounted_quiet:
  assumes "accounted base c w0 p" "cfg (pr_agent p') = cfg (pr_agent p)" "pr_requests p' = pr_requests p" "pr_ticks p' = pr_ticks p"
    and "w_metrics (pr_world p') = w_metrics (pr_world p)"
    and "logs (\<lambda>e. reported_count e = None) (pr_world p) (pr_world p')"
  shows "accounted base c w0 p'"
proof -
  obtain evs m where a: "w_log (pr_world p) = w_log w0 @ evs" "w_metrics (pr_world p) = Some m"
    "accounts evs (length (pr_requests p)) (attempts_so_far base c p) (scrapes_so_far c p) m"
    using assms(1) by (auto simp: accounted_def)
  obtain new where n: "w_log (pr_world p') = w_log (pr_world p) @ new" "list_all (\<lambda>e. reported_count e = None) new"
    using assms(6) by (auto simp: logs_def)
  show ?thesis using accounts_quiet [OF a(3) n(2)] a n assms(1-5)
    by (auto simp: accounted_def attempts_so_far_def scrapes_so_far_def)
qed

lemma accounted_tick:
  assumes "accounted base c w0 p"
  shows "accounted base c w0 (process_tick etxt (NewReporter base key timeout) env p)"
proof -
  let ?r = "NewReporter base key timeout"
  obtain reqs err a' w' where T: "Tick ?r env (pr_agent p, pr_world p) = ((reqs, err), (a', w'))" by (metis surj_pair)
  obtain evs m where a: "w_log (pr_world p) = w_log w0 @ evs" "w_metrics (pr_world p) = Some m"
    "accounts evs (length (pr_requests p)) (attempts_so_far base c p) (scrapes_so_far c p) m" and c: "cfg (pr_agent p) = c"
    using assms by (auto simp: accounted_def)
  have "cfg a' = c" using Tick_spec(3) [of base key timeout env "pr_agent p" "pr_world p"] T c by simp
  let ?q = "p\<lparr>pr_agent := a', pr_world := w', pr_requests := pr_requests p @ reqs,
    pr_ticks := pr_ticks p @ [(env, source (pr_agent p))]\<rparr>"
  have "accounted base c w0 ?q" using Tick_accounts [OF a T] \<open>cfg a' = c\<close> c
    by (auto simp: accounted_def attempts_so_far_def scrapes_so_far_def)
  then show ?thesis
    by (rule accounted_quiet) (auto simp: process_tick_def tickOnce_def T intro: logs_log split: option.split)
qed

interpretation accounts: process_invariant etxt "NewReporter base key timeout" "accounted base c w0" for etxt base key timeout c w0
proof
  fix p q :: process assume p: "accounted base c w0 p" and q: "pr_agent q = pr_agent p" "pr_requests q = pr_requests p"
      "pr_ticks q = pr_ticks p" "w_metrics (pr_world q) = w_metrics (pr_world p)"
    and l: "logs is_stop_report (pr_world p) (pr_world q)"
  have "reported_count e = None" if "is_stop_report e" for e
    using that by (cases e) (simp_all add: is_stop_report_def)
  with l have "logs (\<lambda>e. reported_count e = None) (pr_world p) (pr_world q)" by (rule logs_mono)
  then show "accounted base c w0 q" by (intro accounted_quiet [OF p]) (simp_all add: q)
qed (rule accounted_tick)

section \<open>Properties\<close>

lemma accounted_start_reach:
  assumes "process_reach etxt (NewReporter base key timeout) (process_start a w) p" and "w_metrics w = Some NewMetrics"
  shows "accounted base (cfg a) w p"
proof (rule accounts.reach_keeps [OF assms(1)])
  show "accounted base (cfg a) w (process_start a w)"
    using assms(2) accounts_start by (auto simp: accounted_def process_start_def attempts_so_far_def scrapes_so_far_def)
qed

text \<open>
  C7. The self-metrics never lie, in any execution: started with a fresh registry, in every reachable
  state the counters agree with what the ticks so far met. The heartbeat counters are the numbers of
  attempts to post the API accepted and did not accept (a request that could not be built included), the
  durations are those of the attempts, latest first, and the last-success time is that of the last
  accepted one; the scrape counters and durations are those of the scrapes that succeeded and that
  failed, one for every tick with targets that read the exposition. As many heartbeats are logged as
  sent as were accepted, the requests made lie between the accepted and all attempts, and the services
  gauge is the count last reported: zero before the first report, and after a tick without workloads,
  which posts nothing.
\<close>

theorem self_metrics_accurate:
  assumes "process_reach etxt (NewReporter base key timeout) (process_start a w) p" and "w_metrics w = Some NewMetrics"
  shows "\<exists>evs m. w_log (pr_world p) = w_log w @ evs \<and> w_metrics (pr_world p) = Some m \<and>
    (let posts = concat (map (\<lambda>(env, src). tick_attempts base (cfg a) env) (pr_ticks p));
         scs = concat (map (\<lambda>(env, src). tick_scrapes (cfg a) env src) (pr_ticks p))
     in fmget 0 (heartbeats m) ''success'' = length (filter fst posts) \<and>
        fmget 0 (heartbeats m) ''error'' = length (filter (Not \<circ> fst) posts) \<and>
        postDuration m = rev (map (fst \<circ> snd) posts) \<and>
        lastSuccess m = last (Fin 0 # map (snd \<circ> snd) (filter fst posts)) \<and>
        fmget 0 (scrapes m) ''success'' = length (filter fst scs) \<and>
        fmget 0 (scrapes m) ''error'' = length (filter (Not \<circ> fst) scs) \<and>
        scrapeDuration m = rev (map snd scs) \<and>
        length (filter sent_event evs) = length (filter fst posts) \<and>
        length (filter fst posts) \<le> length (pr_requests p) \<and> length (pr_requests p) \<le> length posts \<and>
        servicesReported m = f64_of_int (int (last_reported evs)))"
proof -
  obtain evs m where "w_log (pr_world p) = w_log w @ evs" "w_metrics (pr_world p) = Some m"
    "accounts evs (length (pr_requests p)) (attempts_so_far base (cfg a) p) (scrapes_so_far (cfg a) p) m"
    using accounted_start_reach [OF assms] by (auto simp: accounted_def)
  then show ?thesis
    by (intro exI [of _ evs] exI [of _ m]) (simp add: accounts_def attempts_so_far_def scrapes_so_far_def Let_def)
qed

text \<open>The gauge is cleared by a tick without workloads, although no batch was sent.\<close>

lemma empty_tick_clears_gauge:
  assumes "tick_services env (cfg a) = Inr []" and "w_metrics w = Some m"
  shows "\<exists>m'. w_metrics (snd (snd (Tick r env (a, w)))) = Some m' \<and> servicesReported m' = Fin 0 \<and>
    fst (fst (Tick r env (a, w))) = []"
proof -
  obtain res a1 w1 where c: "Collect env (a, w) = (res, a1, w1)" by (metis surj_pair)
  then have "res = Inr []" using Collect_services [of env a w] assms(1) by auto
  moreover obtain m1 where "w_metrics w1 = Some m1"
    using Collect_registry [of w env a] assms(2) by (auto simp: c option_rel_Some1)
  moreover have "f64_of_int 0 = Fin 0" using f64_of_int_exact [of 0] by simp
  ultimately show ?thesis by (simp add: Tick_eq c SetServicesReported_def)
qed

text \<open>What a request to the listener is answered, as long as it runs.\<close>

definition listener_answer :: "(collector list \<Rightarrow> handler) \<Rightarrow> string \<Rightarrow> process \<Rightarrow> string \<Rightarrow> http_response option" where
  "listener_answer HandlerFor addr p path =
     (if pr_listener p = ListenerUp then Some (SrvHandler (metrics_server HandlerFor (w_metrics (pr_world p)) addr) path)
      else None)"

text \<open>
  C40. The exported series are fixed from the first scrape on: as long as the listener runs, in every
  reachable state, \<open>/metrics\<close> is answered from a registry whose collectors export exactly the series
  they exported at the start, none missing before its first event and none added whatever the
  peers answer, and every other path is not found.
\<close>

theorem exported_series_fixed:
  assumes "process_reach etxt (NewReporter base key timeout) (process_start a w) p" and "w_metrics w = Some NewMetrics"
  shows "\<exists>m. w_metrics (pr_world p) = Some m \<and> (\<forall>path. listener_answer HandlerFor addr p path =
      (if pr_listener p = ListenerUp then Some (if path = ''/metrics'' then HandlerFor (registered m) path else NotFoundHandler path)
       else None)) \<and>
    map collector_series (registered m) = map collector_series (registered NewMetrics)"
proof -
  obtain evs m where m: "w_metrics (pr_world p) = Some m" "accounts evs (length (pr_requests p)) (attempts_so_far base (cfg a) p) (scrapes_so_far (cfg a) p) m"
    using accounted_start_reach [OF assms] by (auto simp: accounted_def)
  have "map collector_series (registered m) = map collector_series (registered NewMetrics)"
    by (rule registry_ok_series) (use m(2) in \<open>simp add: accounts_def\<close>)
  then show ?thesis
    by (intro exI [of _ m]) (simp add: listener_answer_def m(1) metrics_server_routes Handler_def)
qed

section \<open>Concrete instances\<close>

text \<open>A process with self-metrics after its first tick, whose heartbeat was accepted.\<close>

definition metered_world :: world where
  "metered_world = \<lparr>w_log = [], w_metrics = Some NewMetrics\<rparr>"

definition metered_state :: process where
  "metered_state = process_tick (\<lambda>_. []) (NewReporter ''https://zensu.example'' ''key'' 15000000000) busy_env
     (process_start idle_agent metered_world)"

lemma metered_reach:
  "process_reach (\<lambda>_. []) (NewReporter ''https://zensu.example'' ''key'' 15000000000) (process_start idle_agent metered_world) metered_state"
  unfolding metered_state_def
  by (rule process_reach_step, rule process_step.tick)
    (simp add: tick_allowed_def process_start_def busy_env_def idle_env_def)

lemma metered_up: "pr_listener metered_state = ListenerUp"
  by (simp add: metered_state_def process_tick_frame process_start_def metered_world_def)

lemma metered_request: "length (pr_requests metered_state) = 1"
proof -
  obtain a w where c: "Collect busy_env (idle_agent, metered_world) =
      (Inr [entry_of busy_env 60000000000 (''default'', web_deployment)], a, w)"
    using busy_service [of metered_world] by (metis prod.collapse)
  have n: "env_new_request (ae_send busy_env) u = None" for u by (simp add: busy_env_def idle_env_def)
  show ?thesis
    unfolding metered_state_def process_tick_frame tickOnce_Tick
    by (simp add: Tick_eq process_start_def c Let_def Send_simps post_NewReporter entry_of_def json_finite_def n)
qed

lemma metered_ticks: "pr_ticks metered_state = [(busy_env, SrcNone)]"
  by (simp add: metered_state_def process_tick_frame process_start_def idle_agent_def NewAgent_def)

lemma self_metrics_accurate_witness:
  "\<exists>m. w_metrics (pr_world metered_state) = Some m \<and>
    fmget 0 (heartbeats m) ''success'' = 1 \<and> fmget 0 (heartbeats m) ''error'' = 0 \<and> postDuration m = [Fin 0] \<and>
    fmget 0 (scrapes m) ''success'' = 0 \<and> fmget 0 (scrapes m) ''error'' = 0"
proof -
  have posts: "tick_attempts ''https://zensu.example'' (cfg idle_agent) busy_env = [(True, Fin 0, Fin 0)]"
    using busy_tick by (simp add: tick_attempts_def) (simp add: busy_env_def idle_env_def)
  have scs: "tick_scrapes (cfg idle_agent) busy_env SrcNone = []"
    by (simp add: tick_scrapes_def targets_scraped_def source_scrapes_def split: sum.split)
  have "w_metrics metered_world = Some NewMetrics" by (simp add: metered_world_def)
  from self_metrics_accurate [OF metered_reach this] obtain m where
    "w_metrics (pr_world metered_state) = Some m" "fmget 0 (heartbeats m) ''success'' = 1"
    "fmget 0 (heartbeats m) ''error'' = 0" "postDuration m = [Fin 0]"
    "fmget 0 (scrapes m) ''success'' = 0" "fmget 0 (scrapes m) ''error'' = 0"
    unfolding metered_ticks by (auto simp: posts scs)
  then show ?thesis by blast
qed

lemma exported_series_fixed_witness:
  "\<exists>m. listener_answer (\<lambda>cs. NotFoundHandler) '':2112'' metered_state ''/metrics'' = Some (NotFoundHandler ''/metrics'') \<and>
    map collector_series (registered m) = map collector_series (registered NewMetrics)"
proof -
  have "w_metrics metered_world = Some NewMetrics" by (simp add: metered_world_def)
  with exported_series_fixed [OF metered_reach, of "\<lambda>cs. NotFoundHandler" "'':2112''"] metered_up show ?thesis by auto
qed

end
