(* ===== verification/Duplicates.thy ===== *)
theory Duplicates
  imports Process
begin

text \<open>
  The report of slugs claimed twice, over whole executions: \<open>warnDuplicateSlug\<close> keeps its latch in
  step with the log, nothing else in the process writes these records or touches the latch, so
  the bounds hold in every reachable state.
\<close>

section \<open>The duplicate report\<close>

definition dup_key :: "string \<times> string \<times> string \<Rightarrow> string" where
  "dup_key d = fst d @ unitSep # snd (snd d)"

definition warn_dup :: "string \<times> string \<times> string \<Rightarrow> Agent \<times> world \<Rightarrow> Agent \<times> world" where
  "warn_dup d = warnDuplicateSlug (fst d) (fst (snd d)) (snd (snd d))"

definition dup_reports :: "log_event list \<Rightarrow> string list" where
  "dup_reports evs = List.map_filter (\<lambda>e. case e of LogDuplicateSlug slug reported shadowed \<Rightarrow> Some (slug @ unitSep # shadowed) | _ \<Rightarrow> None) evs"

definition overflow_reports :: "log_event list \<Rightarrow> nat" where
  "overflow_reports evs = length (filter (\<lambda>e. e = LogTooManyDuplicates MaxWarnedSlugPairs) evs)"

lemma fcard_distinct: "distinct xs \<Longrightarrow> fcard (fset_of_list xs) = length xs"
  by (simp add: fcard.rep_eq fset_of_list.rep_eq distinct_card)

text \<open>What the latch and the log say of each other.\<close>

definition dup_inv :: "Agent \<times> world \<Rightarrow> bool" where
  "dup_inv aw \<longleftrightarrow> fcard (warnedSlugs (fst aw)) \<le> MaxWarnedSlugPairs \<and>
     distinct (dup_reports (w_log (snd aw))) \<and>
     fset_of_list (dup_reports (w_log (snd aw))) = warnedSlugs (fst aw) \<and>
     overflow_reports (w_log (snd aw)) = (if warnedOverflow (fst aw) then 1 else 0)"

lemma dup_reports_snoc [simp]:
  "dup_reports (evs @ [LogDuplicateSlug slug reported shadowed]) = dup_reports evs @ [slug @ unitSep # shadowed]"
  "dup_reports (evs @ [LogTooManyDuplicates n]) = dup_reports evs"
  by (simp_all add: dup_reports_def List.map_filter_def)

lemma overflow_reports_snoc [simp]:
  "overflow_reports (evs @ [LogDuplicateSlug slug reported shadowed]) = overflow_reports evs"
  "overflow_reports (evs @ [LogTooManyDuplicates MaxWarnedSlugPairs]) = Suc (overflow_reports evs)"
  by (simp_all add: overflow_reports_def)

lemma warn_dup_inv: "dup_inv aw \<Longrightarrow> dup_inv (warn_dup d aw)"
proof -
  assume i: "dup_inv aw"
  obtain a w where aw: "aw = (a, w)" by fastforce
  obtain slug reported shadowed where d: "d = (slug, reported, shadowed)" by (metis surj_pair)
  define key where "key = slug @ unitSep # shadowed"
  have inv: "fcard (warnedSlugs a) \<le> MaxWarnedSlugPairs" "distinct (dup_reports (w_log w))"
    "fset_of_list (dup_reports (w_log w)) = warnedSlugs a"
    "overflow_reports (w_log w) = (if warnedOverflow a then 1 else 0)"
    using i by (simp_all add: dup_inv_def aw)
  have e: "warn_dup d aw =
      (if key |\<in>| warnedSlugs a then (a, w)
       else if MaxWarnedSlugPairs \<le> fcard (warnedSlugs a) then
         (a\<lparr>warnedOverflow := True\<rparr>, if warnedOverflow a then w else log (LogTooManyDuplicates MaxWarnedSlugPairs) w)
       else (a\<lparr>warnedSlugs := finsert key (warnedSlugs a)\<rparr>, log (LogDuplicateSlug slug reported shadowed) w))"
    by (simp add: aw d warn_dup_def warnDuplicateSlug_def Let_def key_def)
  consider "key |\<in>| warnedSlugs a" | "key |\<notin>| warnedSlugs a" "MaxWarnedSlugPairs \<le> fcard (warnedSlugs a)"
    | "key |\<notin>| warnedSlugs a" "fcard (warnedSlugs a) < MaxWarnedSlugPairs" by linarith
  then show ?thesis
  proof cases
    case 1
    then show ?thesis unfolding e using i by (simp add: aw)
  next
    case 2
    then show ?thesis using inv unfolding e by (simp add: dup_inv_def)
  next
    case 3
    then have "key \<notin> set (dup_reports (w_log w))" using inv(3) by (metis fset_of_list_elem)
    with 3 show ?thesis using inv unfolding e
      by (simp add: dup_inv_def fcard_finsert_if fset_of_list_append key_def [symmetric])
  qed
qed

text \<open>Nothing else writes these records.\<close>

fun dup_event :: "log_event \<Rightarrow> bool" where
  "dup_event (LogDuplicateSlug s r h) = True"
| "dup_event (LogTooManyDuplicates n) = True"
| "dup_event e = False"

lemma source_dup_event: "source_event e \<Longrightarrow> \<not> dup_event e"
  by (cases e) simp_all

lemma no_dup_reports:
  assumes "list_all (\<lambda>e. \<not> dup_event e) new"
  shows "dup_reports (evs @ new) = dup_reports evs" "overflow_reports (evs @ new) = overflow_reports evs"
proof -
  have "(case e of LogDuplicateSlug slug reported shadowed \<Rightarrow> Some (slug @ unitSep # shadowed) | _ \<Rightarrow> None) = None"
    "e \<noteq> LogTooManyDuplicates n" if "\<not> dup_event e" for e n
    using that by (cases e; simp)+
  then show "dup_reports (evs @ new) = dup_reports evs" "overflow_reports (evs @ new) = overflow_reports evs"
    using assms by (simp_all add: dup_reports_def overflow_reports_def List.map_filter_def filter_empty_conv list_all_iff)
qed

definition same_latch :: "Agent \<Rightarrow> Agent \<Rightarrow> bool" where
  "same_latch a a' \<longleftrightarrow> warnedSlugs a' = warnedSlugs a \<and> warnedOverflow a' = warnedOverflow a"

lemma dup_inv_quiet:
  assumes "dup_inv (a, w)" "same_latch a a'" "logs (\<lambda>e. \<not> dup_event e) w w'"
  shows "dup_inv (a', w')"
proof -
  obtain new where new: "w_log w' = w_log w @ new" "list_all (\<lambda>e. \<not> dup_event e) new"
    using assms(3) unfolding logs_def by blast
  have a: "warnedSlugs a' = warnedSlugs a" "warnedOverflow a' = warnedOverflow a"
    using assms(2) by (simp_all only: same_latch_def)
  show ?thesis
    using assms(1) unfolding dup_inv_def fst_conv snd_conv a new(1) no_dup_reports [OF new(2)] .
qed

section \<open>A tick\<close>

lemma collect_deployment_dup:
  assumes "dup_inv (a, w)"
  shows "dup_inv (snd (collect_deployment env ns dep (c, a, w)))"
proof -
  have "dup_inv (warnDuplicateSlug slug o1 o2 (a, w))" for slug o1 o2
    using warn_dup_inv [OF assms, of "(slug, o1, o2)"] by (simp add: warn_dup_def)
  moreover have "dup_inv (a, log (LogListPodsFailed d e) w)" for d e
    by (rule dup_inv_quiet [OF assms]) (simp_all add: same_latch_def logs_log)
  ultimately show ?thesis
    using assms by (auto simp: collect_deployment_def Let_def split: option.split sum.split)
qed

lemma collect_fold_dup: "dup_inv (snd st) \<Longrightarrow> dup_inv (snd (fold (collect_deployment env ns) deps st))"
proof (induction deps arbitrary: st)
  case (Cons dep deps)
  obtain c a w where "st = (c, a, w)" by (metis surj_pair)
  with Cons collect_deployment_dup show ?case by simp
qed simp

lemma collect_namespaces_dup:
  assumes "dup_inv (snd st)"
  shows "dup_inv (snd (collect_namespaces env nss st))"
  using assms
proof (induction nss arbitrary: st)
  case (Cons ns nss)
  show ?case
  proof (cases "ListDeployments (ae_cluster env) ns")
    case (Inr deps)
    have "dup_inv (snd (fold (collect_deployment env ns) deps st))"
      by (rule collect_fold_dup [OF Cons.prems])
    with Cons.IH Inr show ?thesis by simp
  qed (use Cons.prems in simp)
qed simp

lemma collectSamples_dup:
  assumes "dup_inv (a, w)"
  shows "dup_inv (snd (collectSamples env ts (a, w)))"
proof (cases "ts = []")
  case False
  obtain ms err src w1 where r: "source_Samples (source_env env) ts (source a, w) = ((ms, err), (src, w1))"
    by (metis surj_pair)
  have "logs source_event w w1" using source.log_grows [OF r] by (simp add: logs_def log_extends_def)
  then have l: "logs (\<lambda>e. \<not> dup_event e) w w1" by (rule logs_mono) (rule source_dup_event)
  have "dup_inv (a\<lparr>source := src\<rparr>, w1)" "dup_inv (a\<lparr>source := src\<rparr>, log (LogSourceFailed n e) w1)" for n e
    by (rule dup_inv_quiet [OF assms]; use l in \<open>simp add: same_latch_def logs_log\<close>)+
  then show ?thesis using r False by (auto simp: collectSamples_def Let_def split: option.split)
qed (use assms in \<open>simp add: collectSamples_def\<close>)

lemma dup_inv_metrics [simp]: "dup_inv (a, on_metrics f w) = dup_inv (a, w)"
  by (simp add: dup_inv_def)

lemma Collect_dup:
  assumes "dup_inv (a, w)"
  shows "dup_inv (snd (Collect env (a, w)))"
proof -
  let ?c0 = "\<lparr>claimed = fmempty, out = [], targets = []\<rparr> :: collecting"
  obtain res a1 w1 where n: "collect_namespaces env (Namespaces (cfg a)) (?c0, a, w) = (res, a1, w1)" by (metis surj_pair)
  have d: "dup_inv (a1, w1)" using collect_namespaces_dup [of "(?c0, a, w)" env "Namespaces (cfg a)"] assms by (simp add: n)
  show ?thesis
  proof (cases res)
    case (Inr c)
    obtain ms a2 w2 where s: "collectSamples env (targets c) (a1, w1) = (ms, a2, w2)" by (metis surj_pair)
    with collectSamples_dup [OF d, of env "targets c"] show ?thesis by (simp add: Collect_def n Inr Let_def)
  qed (simp add: Collect_def n d)
qed

lemma tickOnce_dup:
  assumes "dup_inv aw"
  shows "dup_inv (snd (tickOnce etxt r env aw))"
proof -
  obtain a w where aw: "aw = (a, w)" by fastforce
  obtain res a1 w1 where c: "Collect env (a, w) = (res, a1, w1)" by (metis surj_pair)
  have d: "dup_inv (a1, w1)" using Collect_dup [of a w env] assms by (simp add: c aw)
  have l: "dup_inv (a1, w')" if "logs (\<lambda>e. \<not> dup_event e) w1 w'" for w'
    by (rule dup_inv_quiet [OF d _ that]) (simp add: same_latch_def)
  show ?thesis
    unfolding aw tickOnce_def by (cases res) (auto simp: Tick_eq c Let_def Send_simps intro!: l logs_log)
qed

section \<open>Executions\<close>

definition dup_state :: "process \<Rightarrow> bool" where
  "dup_state p \<longleftrightarrow> dup_inv (pr_agent p, pr_world p)"

interpretation duplicates: process_invariant etxt r dup_state for etxt r
proof
  fix p env assume "dup_state p"
  then show "dup_state (process_tick etxt r env p)"
    using tickOnce_dup [of "(pr_agent p, pr_world p)" etxt r env] by (simp add: dup_state_def process_tick_frame)
next
  fix p q :: process assume "dup_state p" "pr_agent q = pr_agent p" and l: "logs is_stop_report (pr_world p) (pr_world q)"
  moreover have "\<not> dup_event e" if "is_stop_report e" for e using that by (cases e) (simp_all add: is_stop_report_def)
  with l have "logs (\<lambda>e. \<not> dup_event e) (pr_world p) (pr_world q)" by (rule logs_mono)
  ultimately show "dup_state q"
    unfolding dup_state_def by (metis dup_inv_quiet same_latch_def)
qed

text \<open>
  C23. A slug claimed twice is reported without flooding: in every reachable state of a process that
  starts with a fresh agent, no pair of slug and shadowed workload has been reported twice, at most
  \<open>MaxWarnedSlugPairs\<close> pairs are remembered, exactly those reported, and that there are too many
  has been reported at most once.
\<close>

theorem duplicates_reported_bounded:
  assumes "process_reach etxt r (process_start (NewAgent c src) w) p"
    and "dup_reports (w_log w) = []" and "overflow_reports (w_log w) = 0"
  shows "distinct (dup_reports (w_log (pr_world p))) \<and> length (dup_reports (w_log (pr_world p))) \<le> 1024 \<and>
    fset_of_list (dup_reports (w_log (pr_world p))) = warnedSlugs (pr_agent p) \<and>
    overflow_reports (w_log (pr_world p)) \<le> 1"
proof -
  have "dup_state (process_start (NewAgent c src) w)"
    using assms(2,3) by (simp add: dup_state_def process_start_def dup_inv_def NewAgent_def)
  with duplicates.reach_keeps [OF assms(1)] have i: "dup_inv (pr_agent p, pr_world p)" by (simp add: dup_state_def)
  then have "length (dup_reports (w_log (pr_world p))) = fcard (warnedSlugs (pr_agent p))"
    by (simp add: dup_inv_def fcard_distinct [symmetric])
  with i show ?thesis by (simp add: dup_inv_def MaxWarnedSlugPairs_def)
qed

text \<open>Two workloads that claim one slug.\<close>

definition clash_env :: agent_env where
  "clash_env = busy_env\<lparr>ae_cluster := (ae_cluster idle_env)\<lparr>kc_deployments :=
     (\<lambda>ns. Inr [web_deployment, web_deployment\<lparr>DName := ''api''\<rparr>])\<rparr>\<rparr>"

definition clash_state :: process where
  "clash_state = process_tick (\<lambda>_. []) (NewReporter [] [] 0) clash_env (process_start idle_agent empty_world)"

lemma clash_latch: "warnedSlugs (fst (snd (Collect clash_env (idle_agent, w)))) = {|''shop'' @ unitSep # ''default/api''|}"
  by (simp add: Collect_def clash_env_def busy_env_def idle_env_def web_deployment_def idle_agent_def NewAgent_def collect_deployment_def
     MapDeployment_def ListDeployments_def Let_def fmget_def AnnotationService_def deploymentSelector_def collectSamples_def
     source_Samples_def lift_source_def none_Samples_def warnDuplicateSlug_def owner_of_def MaxWarnedSlugPairs_def split_beta)

lemma duplicates_reported_bounded_witness:
  "fset_of_list (dup_reports (w_log (pr_world clash_state))) = {|''shop'' @ unitSep # ''default/api''|} \<and>
   length (dup_reports (w_log (pr_world clash_state))) = 1"
proof -
  have r: "process_reach (\<lambda>_. []) (NewReporter [] [] 0) (process_start idle_agent empty_world) clash_state"
    unfolding clash_state_def
    by (rule process_reach_step, rule process_step.tick)
      (simp add: tick_allowed_def process_start_def clash_env_def busy_env_def idle_env_def)
  obtain res a1 w1 where c: "Collect clash_env (idle_agent, empty_world) = (res, a1, w1)" by (metis surj_pair)
  have "fst (snd (Tick (NewReporter [] [] 0) clash_env (idle_agent, empty_world))) = a1"
    by (cases res) (simp_all add: Tick_eq c Let_def)
  then have w: "warnedSlugs (pr_agent clash_state) = {|''shop'' @ unitSep # ''default/api''|}"
    using clash_latch [of empty_world] by (simp add: clash_state_def process_tick_frame tickOnce_Tick process_start_def c)
  have "dup_reports (w_log empty_world) = []" "overflow_reports (w_log empty_world) = 0"
    by (simp_all add: empty_world_def dup_reports_def overflow_reports_def List.map_filter_simps)
  then have "distinct (dup_reports (w_log (pr_world clash_state))) \<and>
      fset_of_list (dup_reports (w_log (pr_world clash_state))) = {|''shop'' @ unitSep # ''default/api''|}"
    using duplicates_reported_bounded [OF r [unfolded idle_agent_def]] w by (simp only: simp_thms)
  then obtain d: "distinct (dup_reports (w_log (pr_world clash_state)))"
    and s: "fset_of_list (dup_reports (w_log (pr_world clash_state))) = {|''shop'' @ unitSep # ''default/api''|}" by (rule conjE)
  from fcard_distinct [OF d] s show ?thesis by (simp add: fcard_finsert_if)
qed

end
