(* ===== verification/ScrapeState.thy ===== *)
theory ScrapeState
  imports Process
begin

text \<open>
  The scraping source over whole executions: whatever the peers answer, a process keeps scraping
  the endpoint it was started with, under the same limits, and its table of rated series stays
  within its ceiling.
\<close>

section \<open>What a tick leaves of a source\<close>

text \<open>The exposition source a source scrapes with, if it does.\<close>

definition scraper :: "any_source \<Rightarrow> expositionSource option" where
  "scraper src = (case src of
     SrcNone \<Rightarrow> None | SrcMetricsServer _ \<Rightarrow> None | SrcExposition s \<Rightarrow> Some s | SrcAuto a \<Rightarrow> Some (fallback a))"

definition stable :: "expositionSource \<Rightarrow> expositionSource \<Rightarrow> bool" where
  "stable s s' \<longleftrightarrow> client s' = client s \<and> resolver s' = resolver s \<and> slugLabel s' = slugLabel s \<and>
     ceiling_of (rater s') = ceiling_of (rater s) \<and>
     (Tracked (rater s) \<le> ceiling_of (rater s) \<longrightarrow> Tracked (rater s') \<le> ceiling_of (rater s))"

lemma stable_refl [simp]: "stable s s"
  by (simp add: stable_def)

lemma stable_trans: "stable a b \<Longrightarrow> stable b c \<Longrightarrow> stable a c"
  by (simp add: stable_def)

lemma next_rater_bounded:
  "ceiling_of (next_rater t sels r) = ceiling_of r \<and>
   (Tracked r \<le> ceiling_of r \<longrightarrow> Tracked (next_rater t sels r) \<le> ceiling_of r)"
  using Observe_bounded by (simp add: next_rater_def)

lemma exposition_stable: "stable s (fst (snd (exposition_Samples env ts (s, w))))"
proof (cases "snd (Fetch (te_scrape env) (client s) (CandidateNames (resolver s)))")
  case (Inl e)
  then show ?thesis by (simp add: exposition_Samples_eq)
next
  case (Inr series)
  let ?sw = "(s, on_metrics (RecordScrape True (te_scrape_seconds env)) w)"
  show ?thesis
    using map_series_frame [of "te_rater_clock env" ts series ?sw]
      next_rater_bounded [of "te_rater_clock env" "selections_of (resolver s) series" "rater s"]
    by (simp add: exposition_Samples_eq Inr Let_def stable_def)
qed

lemma auto_stable: "stable (fallback a) (fallback (fst (snd (auto_source_Samples env ts (a, w)))))"
  using auto_name_is_server [of env ts a w] exposition_stable [of "fallback a" env ts]
  by (auto simp: Let_def split: if_splits)

lemma source_stable: "rel_option stable (scraper src) (scraper (fst (snd (source_Samples env ts (src, w)))))"
proof (cases src)
  case (SrcExposition s)
  then show ?thesis using exposition_stable [of s env ts w]
    by (simp add: source_Samples_def lift_source_def scraper_def split_beta)
next
  case (SrcAuto a)
  then show ?thesis using auto_stable [of a env ts w]
    by (simp add: source_Samples_def lift_source_def scraper_def split_beta)
qed (simp_all add: source_Samples_def lift_source_def scraper_def split_beta)

lemma rel_stable_refl [simp]: "rel_option stable x x"
  by (simp add: option.rel_refl)

lemma rel_stable_trans: "rel_option stable a b \<Longrightarrow> rel_option stable b c \<Longrightarrow> rel_option stable a c"
  by (cases a; cases b; cases c) (auto intro: stable_trans)

lemma collectSamples_stable:
  "rel_option stable (scraper (source a)) (scraper (source (fst (snd (collectSamples env ts (a, w))))))"
  using source_stable [of "source a" "source_env env" ts w]
  by (auto simp: collectSamples_def Let_def split: prod.split option.split)

lemma Collect_stable: "rel_option stable (scraper (source a)) (scraper (source (fst (snd (Collect env (a, w))))))"
proof -
  let ?c0 = "\<lparr>claimed = fmempty, out = [], targets = []\<rparr> :: collecting"
  obtain res a1 w1 where n: "collect_namespaces env (Namespaces (cfg a)) (?c0, a, w) = (res, a1, w1)" by (metis surj_pair)
  have s: "source a1 = source a" using collect_namespaces_spec [of env "Namespaces (cfg a)" ?c0 a w] by (simp add: n)
  show ?thesis
  proof (cases res)
    case (Inr c)
    obtain ms a2 w2 where "collectSamples env (targets c) (a1, w1) = (ms, a2, w2)" by (metis surj_pair)
    with collectSamples_stable [of a1 env "targets c" w1] show ?thesis by (simp add: Collect_def n Inr Let_def s)
  qed (simp add: Collect_def n s)
qed

lemma tickOnce_stable: "rel_option stable (scraper (source a)) (scraper (source (fst (snd (tickOnce etxt r env (a, w))))))"
proof -
  obtain res a1 w1 where c: "Collect env (a, w) = (res, a1, w1)" by (metis surj_pair)
  have "fst (snd (Tick r env (a, w))) = a1" by (cases res) (simp_all add: Tick_eq c Let_def)
  then show ?thesis using Collect_stable [of a env w] by (simp add: tickOnce_Tick c)
qed

section \<open>Executions\<close>

definition scrapes_as :: "expositionSource option \<Rightarrow> process \<Rightarrow> bool" where
  "scrapes_as s0 p \<longleftrightarrow> rel_option stable s0 (scraper (source (pr_agent p)))"

interpretation scraping: process_invariant etxt r "scrapes_as s0" for etxt r s0
proof
  fix p env assume "scrapes_as s0 p"
  then show "scrapes_as s0 (process_tick etxt r env p)"
    using tickOnce_stable [of "pr_agent p" etxt r env "pr_world p"] rel_stable_trans
    by (auto simp: scrapes_as_def process_tick_frame)
qed (simp add: scrapes_as_def)

text \<open>What the factory builds.\<close>

lemma NewMetricSource_scraper:
  assumes "NewMetricSource rt scfg w0 = (Inr src, w1)" and "scraper src = Some s"
  shows "usable_url (XURL (XConfig scfg)) \<and> ClientURL (client s) = XURL (XConfig scfg) \<and>
    (\<exists>t. HTTP (client s) = Some \<lparr>Timeout = t, CheckRedirect = noRedirect\<rparr>) \<and>
    rater s = NewRater [XRater (XConfig scfg)]"
proof -
  have v: "ValidateScrapeURL raw = None \<longleftrightarrow> usable_url raw" for raw
    by (simp add: ValidateScrapeURL_def validateURL_None)
  have "usable_url (XURL (XConfig scfg)) \<and> newExpositionSource rt (XConfig scfg) w0 = (s, w1)"
    using assms by (auto simp: NewMetricSource_def Let_def scraper_def v split: if_splits option.splits prod.splits)
  then show ?thesis by (auto simp: newExpositionSource_def NewClient_def Let_def split: if_splits)
qed

lemma NewRater_fresh:
  "Tracked (NewRater [opt]) \<le> ceiling_of (NewRater [opt])"
  "ceiling_of (NewRater [opt]) = (if 0 < MaxTracked opt then nat (MaxTracked opt) else 20000)"
  by (simp_all add: NewRater_def Tracked_def fmsize_def ceiling_of_def MaxTrackedSeries_def)

lemma Fetch_pinned:
  assumes "HTTP c = Some \<lparr>Timeout = t, CheckRedirect = noRedirect\<rparr>"
  shows "set (map sr_url (fst (Fetch env c keep))) \<subseteq> {ClientURL c}"
  using assms by (auto simp: Fetch_def Let_def Do_no_redirect noRedirect_def [abs_def] split: option.split)

text \<open>
  C31. Scraping stays confined in every execution: in every reachable state of a process whose source the
  factory built, a scrape contacts the configured URL and nothing else, that URL is one the
  startup rules accept, and the table of rated series holds at most the configured number of
  series, 20000 by default.
\<close>

theorem scraping_confined:
  assumes "NewMetricSource rt scfg w0 = (Inr src, w1)"
    and "process_reach etxt r (process_start (NewAgent c (Some src)) w) p"
  shows "case scraper (source (pr_agent p)) of
      None \<Rightarrow> scraper src = None
    | Some s \<Rightarrow> usable_url (XURL (XConfig scfg)) \<and>
        set (map sr_url (fst (Fetch env (client s) keep))) \<subseteq> {XURL (XConfig scfg)} \<and>
        Tracked (rater s) \<le> (if 0 < MaxTracked (XRater (XConfig scfg)) then nat (MaxTracked (XRater (XConfig scfg))) else 20000)"
proof -
  have "scrapes_as (scraper src) (process_start (NewAgent c (Some src)) w)"
    by (simp add: scrapes_as_def process_start_def NewAgent_def)
  then have rel: "rel_option stable (scraper src) (scraper (source (pr_agent p)))"
    using scraping.reach_keeps [OF assms(2)] by (simp add: scrapes_as_def)
  show ?thesis
  proof (cases "scraper src")
    case (Some s0)
    with rel obtain s where s: "scraper (source (pr_agent p)) = Some s" "stable s0 s" by (auto simp: option_rel_Some1)
    obtain t where n: "usable_url (XURL (XConfig scfg))" "ClientURL (client s0) = XURL (XConfig scfg)"
      "HTTP (client s0) = Some \<lparr>Timeout = t, CheckRedirect = noRedirect\<rparr>" "rater s0 = NewRater [XRater (XConfig scfg)]"
      using NewMetricSource_scraper [OF assms(1) Some] by blast
    have k: "client s = client s0" "Tracked (rater s) \<le> ceiling_of (rater s0)"
      using s(2) NewRater_fresh(1) n(4) by (simp_all add: stable_def)
    show ?thesis
      using s(1) n(1,2) k Fetch_pinned [OF n(3), of env keep] by (simp add: n(4) NewRater_fresh(2))
  qed (use rel in simp)
qed

section \<open>A concrete instance\<close>

definition auto_config :: SourceConfig where
  "auto_config = \<lparr>Mode = [], XConfig = example_config\<rparr>"

definition auto_start :: any_source where
  "auto_start = SrcAuto \<lparr>primary = newMetricsServerSource, fallback = example_source, switched = False, switchedAt = 0\<rparr>"

lemma auto_built: "NewMetricSource (- 1) auto_config empty_world = (Inr auto_start, empty_world)"
proof -
  have "ValidateScrapeURL ''http://collector:8889/metrics'' = None"
    using plain_endpoint_accepted [of "''collector''" "'':8889''" "''/metrics''"]
    by (simp add: plain_endpoint_def host_char_def path_char_def is_control_def validOptionalPort_def IsLetter_def IsDigit_def)
  moreover have "newExpositionSource (- 1) example_config empty_world = (example_source, empty_world)"
    by (simp add: example_source_def newExpositionSource_def example_config_def Let_def)
  ultimately show ?thesis
    by (simp add: NewMetricSource_def auto_config_def auto_start_def example_config_def Let_def)
qed

definition auto_state :: process where
  "auto_state = process_tick (\<lambda>_. []) (NewReporter [] [] 0) busy_env
     (process_start (NewAgent (cfg idle_agent) (Some auto_start)) empty_world)"

lemma scraping_confined_witness:
  "\<exists>s. scraper (source (pr_agent auto_state)) = Some s \<and>
    set (map sr_url (fst (Fetch example_env (client s) {||}))) \<subseteq> {''http://collector:8889/metrics''} \<and>
    Tracked (rater s) \<le> 20000"
proof -
  have r: "process_reach (\<lambda>_. []) (NewReporter [] [] 0)
      (process_start (NewAgent (cfg idle_agent) (Some auto_start)) empty_world) auto_state"
    unfolding auto_state_def
    by (rule process_reach_step, rule process_step.tick)
      (simp add: tick_allowed_def process_start_def busy_env_def idle_env_def)
  have "scraper auto_start \<noteq> None" by (simp add: auto_start_def scraper_def)
  moreover have "XURL (XConfig auto_config) = ''http://collector:8889/metrics''" "\<not> 0 < MaxTracked (XRater (XConfig auto_config))"
    by (simp_all add: auto_config_def example_config_def)
  ultimately show ?thesis
    using scraping_confined [OF auto_built r, of example_env "{||}"] by (auto split: option.splits)
qed

end
