(* ===== verification/Spec2Isabelle.thy ===== *)
theory Spec2Isabelle
  imports StartupProps ProcessMetrics Duplicates ScrapeState
begin

text \<open>
  The verification development of the Zensu monitoring agent (\<open>cmd/zensu-monitoring-agent\<close> and
  \<open>internal/\<close>, a Go program).

  \<^bold>\<open>The program.\<close> The agent lists the Deployments of its namespaces that carry the annotation
  \<open>zensu.dev/service\<close>, derives a status per service, asks one metric source for CPU and memory
  samples, and posts a heartbeat batch; it repeats that on an interval until its context is done.
  The metric source is metrics-server, a scraped Prometheus exposition, a composite of the two, or
  none. The development follows the packages, one theory per component:

  \<^item> \<open>Prelude\<close>, \<open>Float64\<close>, \<open>GoStrings\<close>, \<open>GoParse\<close>, \<open>GoUrl\<close>, \<open>Http\<close>: machine integers and generic
    lemmas; IEEE binary64 with rounding; the functions of \<open>strings\<close>, \<open>strconv\<close>, \<open>unicode/utf8\<close>,
    \<open>time\<close>, \<open>net/url\<close> and \<open>net/http\<close> the source calls, as the Go standard library has them.
  \<^item> \<open>Redact\<close>: \<open>internal/redact/redact.go\<close>, what may reach a log record.
  \<^item> \<open>Json\<close>, \<open>FloatText\<close>: what \<open>encoding/json\<close> writes, byte by byte: strings with their escapes and the
    replacement of bytes that are not UTF-8, arrays, objects, and the shortest decimal that reads back
    as a \<open>float64\<close>; with a parser of the format and the proof that it reads the text back.
  \<^item> \<open>Types\<close>, \<open>Wire\<close>: \<open>internal/agent/types.go\<close>, the heartbeat contract, \<open>DeriveStatus\<close>, and the body of
    a batch under the struct tags.
  \<^item> \<open>SelfMetrics\<close>, \<open>Listener\<close>: \<open>internal/metrics/metrics.go\<close>: the agent's own registry and the collectors
    it exports; the handler, the HTTP server and \<open>Serve\<close>.
  \<^item> \<open>ScrapeSeries\<close>, \<open>Fetch\<close>, \<open>Resolve\<close>, \<open>Rate\<close>: \<open>internal/scrape\<close>: decoded series and their
    fingerprints (\<open>scrape.go\<close>), the bounded fetch and decode (\<open>scrape.go\<close>), the choice of a
    family and of its rows (\<open>resolve.go\<close>), counters into rates (\<open>rate.go\<close>).
  \<^item> \<open>K8s\<close>: \<open>internal/agent/k8s.go\<close>, the read-only Kubernetes surface.
  \<^item> \<open>MetricSource\<close> and \<open>Latch\<close>: two interfaces, as locales: the contract of \<open>MetricSource\<close>
    (every answer is a finite \<open>float64\<close> for a target that was asked for, the log grows by records of a
    source only, of the registry only the scrape counters and the withheld gauges change) and the one-shot warning behind an \<open>atomic.Bool\<close>.
  \<^item> \<open>MetricsServer\<close>, \<open>AutoSource\<close>, \<open>SourceFactory\<close>: \<open>internal/agent/source.go\<close>: the sources over
    metrics-server and over nothing, the composite, \<open>NewMetricSource\<close> and the URL rules. The
    composite interprets the contract for any two sources that do.
  \<^item> \<open>Exposition\<close> (the code), \<open>Attribution\<close>, \<open>ExpositionFacts\<close>, \<open>ExpositionSource\<close>,
    \<open>ExpositionReports\<close> (its facts): \<open>internal/agent/exposition.go\<close>.
  \<^item> \<open>Reporter\<close>, \<open>Agent\<close> (the code), \<open>AgentFacts\<close>, \<open>AgentProps\<close>: \<open>reporter.go\<close> and \<open>agent.go\<close> of
    \<open>internal/agent\<close>: \<open>Send\<close>, \<open>Collect\<close>, \<open>Tick\<close>, \<open>Run\<close>.
  \<^item> \<open>Process\<close>: the process as a step relation, in which ticks, the signal that cancels the context,
    the end of the metrics listener (\<open>Serve\<close>) and the return of \<open>Run\<close> interleave; the locale \<open>process_invariant\<close> is what an invariant of executions has to satisfy.
    \<open>ProcessMetrics\<close>, \<open>Duplicates\<close> and \<open>ScrapeState\<close> interpret it: what holds of the registry, of the
    duplicate reports and of the scraping source in every reachable state.
  \<^item> \<open>Startup\<close>, \<open>StartupProps\<close>: \<open>cmd/zensu-monitoring-agent/main.go\<close>: the environment, the command
    line, the startup refusals, \<open>run\<close> and \<open>main\<close>.

  \<^bold>\<open>How code becomes definitions.\<close> A struct is a record with the same fields, a method a function that
  takes the receiver and returns it updated. The mutable state a tick shares, the log and the
  registry, is the \<open>world\<close>, threaded through every call; a log record is a constructor of
  \<open>log_event\<close> with the values it prints. An error is the left side of a sum or an option. A Go string
  is its bytes. \<open>int32\<close> and \<open>int64\<close> are words, \<open>time.Duration\<close> and \<open>time.Time\<close> are integers of
  nanoseconds except where the code computes with the 64-bit wrap-around (\<open>dueForRetry\<close>). Iteration
  over a Go map goes in sorted order; that the result does not depend on it is proved for the
  samples. What lies outside the program is an argument: the answers of the cluster, of the
  network and of the clocks come with each tick (\<open>agent_env\<close>, \<open>tick_env\<close>, \<open>send_env\<close>), so every
  property holds whatever they are, in every order and at every tick.

  \<^bold>\<open>What is proved.\<close>

  \<^item> \<^emph>\<open>The batch.\<close> A batch names the first Deployment of each slug, in order, with the status of its
    replica counts; every entry is well formed; no answer of a metric source can change a status
    or add a service, or make the batch impossible to encode; the bytes of the body read back as
    the batch, every number exactly.
  \<^item> \<^emph>\<open>The process.\<close> In every reachable state every request ever made is a well-formed batch for the
    configured product, to the configured URL. The self-metrics agree with the log and with the
    requests made, and export the same series from the first scrape on. A shutdown is silent and always possible. The
    executable \<open>Run\<close> is one of the executions of the step relation. From the environment on:
    nothing is posted unless the URL is an accepted one without credentials, a refused start has
    no effect, the values of the Helm chart are read back exactly, and the configured interval is
    the one every service reports.
  \<^item> \<^emph>\<open>Metric sources.\<close> A sample of the exposition source is, per service, the sum of the rows that
    resolve to it, and is withheld when one of them has no rate; which rows count is a stated
    policy, refined by \<open>summable\<close>, that never counts a pod twice. The composite is a state machine
    with a cooldown, and recovers. Outages and standing conditions are reported once.
  \<^item> \<^emph>\<open>The scrape.\<close> \<open>decode\<close> equals a reference on whole lists of rows; size limits are safe in
    64-bit arithmetic; a fetch contacts only its URL and never returns part of an exposition; two
    series have equal fingerprints exactly when their names and labels are equal; in every execution
    the endpoint stays the accepted one and the rater's table stays bounded; two scrapes give exact
    rates; what a peer sends reaches an error text only as a bounded printable line.

  \<^bold>\<open>Bounds and fuel.\<close> \<open>client_do\<close> follows at most \<open>MaxHops\<close> = 16 redirects; both clients of the program
  follow none (\<open>Do_no_redirect\<close>), so the fuel is never used up. \<open>shortest_digits\<close> tries at most \<open>MaxPlaces\<close> = 1500 decimal places,
  enough for every \<open>float64\<close> (\<open>representable_decimals\<close>); the JSON parser has the length of its text
  as fuel (\<open>parse_json_text\<close>). The other loops are structural or
  have a termination proof; the loop of \<open>NormalizeName\<close> is also stated as a \<open>while\<close> whose end is
  proved. \<open>Run\<close> is given the list of the ticks its ticker fires before the context is done, of any
  length.

  \<^bold>\<open>Not modelled.\<close> The Kubernetes API server, its client libraries, label selectors and quantities,
  the \<open>expfmt\<close> parser, \<open>promhttp\<close>, \<open>strconv.Quote\<close> and the network are parameters, for they are not in
  the repository. The delivery of signals, the JSON text of log records, the connections and
  timeouts of the HTTP server and of the clients belong to the standard library; a timeout is an
  error the network returns. The help texts and bucket bounds of the self-metrics and what their Go
  and process collectors report are left out. The tests, the Helm chart and the end-to-end scripts are not
  part of the program.
\<close>

end
